theory Spec2Isabelle
  imports Complex_Main
begin

section \<open>Values\<close>

text \<open>
  A float64 value is a real number, an infinity or NaN. Finite arithmetic is exact here:
  rounding is not modelled, and neither is the sign of zero. What is modelled is what
  the code branches on: every comparison with NaN is false, and a division by zero
  yields an infinity or NaN (numpy warns, it does not raise).
\<close>

datatype pyfloat = Fin real | PInf | NInf | NaN

fun fneg :: "pyfloat \<Rightarrow> pyfloat" where
  "fneg (Fin a) = Fin (- a)"
| "fneg PInf = NInf"
| "fneg NInf = PInf"
| "fneg NaN = NaN"

fun fadd :: "pyfloat \<Rightarrow> pyfloat \<Rightarrow> pyfloat" where
  "fadd NaN y = NaN"
| "fadd x NaN = NaN"
| "fadd (Fin a) (Fin b) = Fin (a + b)"
| "fadd PInf NInf = NaN"
| "fadd NInf PInf = NaN"
| "fadd PInf y = PInf"
| "fadd x PInf = PInf"
| "fadd NInf y = NInf"
| "fadd x NInf = NInf"

definition fsub :: "pyfloat \<Rightarrow> pyfloat \<Rightarrow> pyfloat" where
  "fsub x y = fadd x (fneg y)"

fun fmul :: "pyfloat \<Rightarrow> pyfloat \<Rightarrow> pyfloat" where
  "fmul NaN y = NaN"
| "fmul x NaN = NaN"
| "fmul (Fin a) (Fin b) = Fin (a * b)"
| "fmul PInf (Fin b) = (if b = 0 then NaN else if 0 < b then PInf else NInf)"
| "fmul NInf (Fin b) = (if b = 0 then NaN else if 0 < b then NInf else PInf)"
| "fmul (Fin a) PInf = (if a = 0 then NaN else if 0 < a then PInf else NInf)"
| "fmul (Fin a) NInf = (if a = 0 then NaN else if 0 < a then NInf else PInf)"
| "fmul PInf PInf = PInf"
| "fmul NInf NInf = PInf"
| "fmul PInf NInf = NInf"
| "fmul NInf PInf = NInf"

fun fdiv :: "pyfloat \<Rightarrow> pyfloat \<Rightarrow> pyfloat" where
  "fdiv NaN y = NaN"
| "fdiv x NaN = NaN"
| "fdiv (Fin a) (Fin b) =
     (if b = 0 then (if a = 0 then NaN else if 0 < a then PInf else NInf) else Fin (a / b))"
| "fdiv (Fin a) y = Fin 0"
| "fdiv PInf (Fin b) = (if 0 \<le> b then PInf else NInf)"
| "fdiv NInf (Fin b) = (if 0 \<le> b then NInf else PInf)"
| "fdiv x y = NaN"

fun fabs :: "pyfloat \<Rightarrow> pyfloat" where
  "fabs (Fin a) = Fin \<bar>a\<bar>"
| "fabs PInf = PInf"
| "fabs NInf = PInf"
| "fabs NaN = NaN"

fun fsqrt :: "pyfloat \<Rightarrow> pyfloat" where
  "fsqrt (Fin a) = (if a < 0 then NaN else Fin (sqrt a))"
| "fsqrt PInf = PInf"
| "fsqrt NInf = NaN"
| "fsqrt NaN = NaN"

fun flt :: "pyfloat \<Rightarrow> pyfloat \<Rightarrow> bool" where
  "flt (Fin a) (Fin b) = (a < b)"
| "flt NInf (Fin b) = True"
| "flt NInf PInf = True"
| "flt (Fin a) PInf = True"
| "flt x y = False"

fun fle :: "pyfloat \<Rightarrow> pyfloat \<Rightarrow> bool" where
  "fle (Fin a) (Fin b) = (a \<le> b)"
| "fle NaN y = False"
| "fle x NaN = False"
| "fle NInf y = True"
| "fle x PInf = True"
| "fle x y = False"

definition fgt :: "pyfloat \<Rightarrow> pyfloat \<Rightarrow> bool" where
  "fgt x y = flt y x"

definition fge :: "pyfloat \<Rightarrow> pyfloat \<Rightarrow> bool" where
  "fge x y = fle y x"

text \<open>True division of two int64 values, as pandas computes \<open>W / G\<close>.\<close>

definition int_truediv :: "int \<Rightarrow> int \<Rightarrow> pyfloat" where
  "int_truediv a b = fdiv (Fin (real_of_int a)) (Fin (real_of_int b))"

text \<open>\<open>str\<close> of an integer, as an f-string renders it.\<close>

definition digit_char :: "nat \<Rightarrow> char" where
  "digit_char d =
     (if d = 0 then CHR ''0'' else if d = 1 then CHR ''1'' else if d = 2 then CHR ''2''
      else if d = 3 then CHR ''3'' else if d = 4 then CHR ''4'' else if d = 5 then CHR ''5''
      else if d = 6 then CHR ''6'' else if d = 7 then CHR ''7'' else if d = 8 then CHR ''8''
      else CHR ''9'')"

function str_nat :: "nat \<Rightarrow> string" where
  "str_nat n = (if n < 10 then [digit_char n] else str_nat (n div 10) @ [digit_char (n mod 10)])"
  by pat_completeness auto
termination
  by (relation "measure (\<lambda>n. n)") auto

declare str_nat.simps [simp del]

definition str_int :: "int \<Rightarrow> string" where
  "str_int i = (if i < 0 then ''-'' @ str_nat (nat (- i)) else str_nat (nat i))"

text \<open>The statistics of a float64 column; pandas skips NaN, and \<open>var\<close> has \<open>ddof=1\<close>.\<close>

definition dropna :: "pyfloat list \<Rightarrow> pyfloat list" where
  "dropna xs = filter (\<lambda>x. x \<noteq> NaN) xs"

definition fsum :: "pyfloat list \<Rightarrow> pyfloat" where
  "fsum xs = foldl fadd (Fin 0) xs"

definition mean :: "pyfloat list \<Rightarrow> pyfloat" where
  "mean xs =
     (let v = dropna xs in
      if v = [] then NaN else fdiv (fsum v) (Fin (real (length v))))"

definition var :: "pyfloat list \<Rightarrow> pyfloat" where
  "var xs =
     (let v = dropna xs; n = length v in
      if n \<le> 1 then NaN
      else let m = fdiv (fsum v) (Fin (real n)) in
        fdiv (fsum (map (\<lambda>x. fmul (fsub x m) (fsub x m)) v)) (Fin (real (n - 1))))"

definition std :: "pyfloat list \<Rightarrow> pyfloat" where
  "std xs = fsqrt (var xs)"


section \<open>Lineage registry\<close>

text \<open>
  The two mapper classes of the repository (\<open>FranchiseMapper\<close> in
  \<open>franchise_mapping.py\<close> and \<open>CorrectedFranchiseMapper\<close> in
  \<open>corrected_franchise_mapping.py\<close>) share their data classes and the method
  \<open>_build_lahman_mapping\<close>; they differ in the hard-coded lineage table.
  A Python \<open>dict\<close> keeps insertion order, so \<open>self.lineages\<close> is an association
  list from canonical id to lineage; the identifier map \<open>lahman_to_canonical\<close> is only
  ever looked up, so it is a partial map. Exceptions are values of type \<open>error\<close>.
  The field \<open>notes\<close> of both data classes is written \<open>event_notes\<close> and
  \<open>lineage_notes\<close>.
\<close>

datatype error = ValueError string | KeyError string

record RelocationEvent =
  year :: int
  from_city :: string
  to_city :: string
  from_team_name :: string
  to_team_name :: string
  event_notes :: string

record FranchiseLineage =
  canonical_id :: string
  current_name :: string
  lahman_ids :: "string list"
  relocations :: "RelocationEvent list"
  founded_year :: int
  lineage_notes :: string

type_synonym lineage_dict = "(string \<times> FranchiseLineage) list"

record mapper =
  lineages :: lineage_dict
  lahman_to_canonical :: "string \<rightharpoonup> string"

definition duplicate_message :: "string \<Rightarrow> string" where
  "duplicate_message lahman_id =
     ''Duplicate Lahman ID '' @ lahman_id @ '' found in multiple lineages''"

text \<open>The inner loop of \<open>_build_lahman_mapping\<close>: the identifiers of one lineage.\<close>

fun add_lahman_ids ::
  "string \<Rightarrow> string list \<Rightarrow> (string \<rightharpoonup> string) \<Rightarrow> error + (string \<rightharpoonup> string)" where
  "add_lahman_ids cid [] mapping = Inr mapping"
| "add_lahman_ids cid (lahman_id # ids) mapping =
     (if mapping lahman_id \<noteq> None then Inl (ValueError (duplicate_message lahman_id))
      else add_lahman_ids cid ids (mapping(lahman_id \<mapsto> cid)))"

text \<open>The outer loop, over \<open>self.lineages.items()\<close>.\<close>

fun add_lineages ::
  "lineage_dict \<Rightarrow> (string \<rightharpoonup> string) \<Rightarrow> error + (string \<rightharpoonup> string)" where
  "add_lineages [] mapping = Inr mapping"
| "add_lineages ((cid, lineage) # rest) mapping =
     (case add_lahman_ids cid (lahman_ids lineage) mapping of
        Inl e \<Rightarrow> Inl e
      | Inr mapping' \<Rightarrow> add_lineages rest mapping')"

definition build_lahman_mapping :: "lineage_dict \<Rightarrow> error + (string \<rightharpoonup> string)" where
  "build_lahman_mapping ls = add_lineages ls Map.empty"

text \<open>\<open>__init__\<close>: the table, then the identifier map built from it.\<close>

definition init_mapper :: "lineage_dict \<Rightarrow> error + mapper" where
  "init_mapper ls =
     (case build_lahman_mapping ls of
        Inl e \<Rightarrow> Inl e
      | Inr m \<Rightarrow> Inr \<lparr>lineages = ls, lahman_to_canonical = m\<rparr>)"

text \<open>
  The scan order of the two nested loops: every (identifier, canonical id) pair, lineage
  by lineage. Used to state what the loops compute.
\<close>

definition id_pairs :: "lineage_dict \<Rightarrow> (string \<times> string) list" where
  "id_pairs ls = concat (map (\<lambda>(cid, lineage). map (\<lambda>i. (i, cid)) (lahman_ids lineage)) ls)"

definition all_ids :: "lineage_dict \<Rightarrow> string list" where
  "all_ids ls = concat (map (\<lambda>(cid, lineage). lahman_ids lineage) ls)"

fun insert_pairs ::
  "(string \<times> string) list \<Rightarrow> (string \<rightharpoonup> string) \<Rightarrow> error + (string \<rightharpoonup> string)" where
  "insert_pairs [] mapping = Inr mapping"
| "insert_pairs ((k, v) # ps) mapping =
     (if mapping k \<noteq> None then Inl (ValueError (duplicate_message k))
      else insert_pairs ps (mapping(k \<mapsto> v)))"


subsection \<open>The hard-coded tables\<close>

text \<open>
  \<open>RelocationEvent(year, from_city, to_city, from_team_name, to_team_name)\<close>: the
  dataclass constructor as the tables call it, \<open>notes\<close> left at its default.
  The notes of some lineages contain the arrow U+2192, written here as its UTF-8 bytes.
\<close>

definition RelocationEvent_init ::
  "int \<Rightarrow> string \<Rightarrow> string \<Rightarrow> string \<Rightarrow> string \<Rightarrow> RelocationEvent" where
  "RelocationEvent_init y fc tc fn tn =
     \<lparr>year = y, from_city = fc, to_city = tc, from_team_name = fn, to_team_name = tn,
      event_notes = ''''\<rparr>"

definition arrow :: string where
  "arrow = [CHR 0xE2, CHR 0x86, CHR 0x92]"

text \<open>\<open>FranchiseMapper._build_franchise_lineages\<close> (franchise_mapping.py).\<close>

definition FranchiseMapper_lineages :: lineage_dict where
  "FranchiseMapper_lineages =
   [
    (''ATL'',
     \<lparr>canonical_id = ''ATL'', current_name = ''Atlanta Braves'',
      lahman_ids = [''BSN'', ''ML1'', ''ATL''],
      relocations = [
          RelocationEvent_init 1953 ''Boston'' ''Milwaukee'' ''Boston Braves'' ''Milwaukee Braves'',
          RelocationEvent_init 1966 ''Milwaukee'' ''Atlanta'' ''Milwaukee Braves'' ''Atlanta Braves''],
      founded_year = 1876,
      lineage_notes = (''Franchise moved twice: Boston (1876-1952) '' @ arrow @ '' Milwaukee (1953-1965) '' @ arrow @ '' Atlanta (1966-present)'')\<rparr>),
    (''LAD'',
     \<lparr>canonical_id = ''LAD'', current_name = ''Los Angeles Dodgers'',
      lahman_ids = [''BRO'', ''LAD'', ''LAN''],
      relocations = [
          RelocationEvent_init 1958 ''Brooklyn'' ''Los Angeles'' ''Brooklyn Dodgers'' ''Los Angeles Dodgers''],
      founded_year = 1884,
      lineage_notes = ''Brooklyn era uses teamID BRO but franchID LAD in Lahman data''\<rparr>),
    (''SFG'',
     \<lparr>canonical_id = ''SFG'', current_name = ''San Francisco Giants'',
      lahman_ids = [''NY1'', ''SFN''],
      relocations = [
          RelocationEvent_init 1958 ''New York'' ''San Francisco'' ''New York Giants'' ''San Francisco Giants''],
      founded_year = 1883,
      lineage_notes = ''Same year as Dodgers move to LA''\<rparr>),
    (''OAK'',
     \<lparr>canonical_id = ''OAK'', current_name = ''Oakland Athletics'',
      lahman_ids = [''PHA'', ''KC1'', ''OAK''],
      relocations = [
          RelocationEvent_init 1955 ''Philadelphia'' ''Kansas City'' ''Philadelphia Athletics'' ''Kansas City Athletics'',
          RelocationEvent_init 1968 ''Kansas City'' ''Oakland'' ''Kansas City Athletics'' ''Oakland Athletics''],
      founded_year = 1901,
      lineage_notes = ''Three-city franchise with planned move to Sacramento in 2025''\<rparr>),
    (''MIN'',
     \<lparr>canonical_id = ''MIN'', current_name = ''Minnesota Twins'',
      lahman_ids = [''WS1'', ''MIN''],
      relocations = [
          RelocationEvent_init 1961 ''Washington'' ''Minneapolis-St. Paul'' ''Washington Senators'' ''Minnesota Twins''],
      founded_year = 1901,
      lineage_notes = ''Original Washington Senators franchise (1901-1960)''\<rparr>),
    (''TEX'',
     \<lparr>canonical_id = ''TEX'', current_name = ''Texas Rangers'',
      lahman_ids = [''WS2'', ''TEX''],
      relocations = [
          RelocationEvent_init 1972 ''Washington'' ''Dallas-Fort Worth'' ''Washington Senators'' ''Texas Rangers''],
      founded_year = 1961,
      lineage_notes = ''Expansion Washington Senators franchise (1961-1971), different from original Senators''\<rparr>),
    (''BAL'',
     \<lparr>canonical_id = ''BAL'', current_name = ''Baltimore Orioles'',
      lahman_ids = [''SLA'', ''BAL''],
      relocations = [
          RelocationEvent_init 1954 ''St. Louis'' ''Baltimore'' ''St. Louis Browns'' ''Baltimore Orioles''],
      founded_year = 1902,
      lineage_notes = ''St. Louis Browns became Baltimore Orioles''\<rparr>),
    (''MIL'',
     \<lparr>canonical_id = ''MIL'', current_name = ''Milwaukee Brewers'',
      lahman_ids = [''SE1'', ''ML4'', ''MIL''],
      relocations = [
          RelocationEvent_init 1970 ''Seattle'' ''Milwaukee'' ''Seattle Pilots'' ''Milwaukee Brewers''],
      founded_year = 1969,
      lineage_notes = ''Seattle Pilots (1969) became Milwaukee Brewers (1970), switched from AL to NL in 1998''\<rparr>),
    (''WSN'',
     \<lparr>canonical_id = ''WSN'', current_name = ''Washington Nationals'',
      lahman_ids = [''MON'', ''WAS''],
      relocations = [
          RelocationEvent_init 2005 ''Montreal'' ''Washington'' ''Montreal Expos'' ''Washington Nationals''],
      founded_year = 1969,
      lineage_notes = ''Montreal Expos (1969-2004) became Washington Nationals (2005-present)''\<rparr>),
    (''NYY'',
     \<lparr>canonical_id = ''NYY'', current_name = ''New York Yankees'',
      lahman_ids = [''BLA'', ''NYA''],
      relocations = [
          RelocationEvent_init 1903 ''Baltimore'' ''New York'' ''Baltimore Orioles'' ''New York Highlanders''],
      founded_year = 1901,
      lineage_notes = ''Original Baltimore Orioles (1901-1902) became NY Highlanders/Yankees. Different from modern Orioles.''\<rparr>),
    (''HOU'',
     \<lparr>canonical_id = ''HOU'', current_name = ''Houston Astros'',
      lahman_ids = [''HOU''],
      relocations = [],
      founded_year = 1962,
      lineage_notes = ''No city relocation, but switched from NL to AL in 2013''\<rparr>),
    (''FLA'',
     \<lparr>canonical_id = ''FLA'', current_name = ''Miami Marlins'',
      lahman_ids = [''FLO'', ''MIA''],
      relocations = [],
      founded_year = 1993,
      lineage_notes = ''Florida Marlins (1993-2011) became Miami Marlins (2012-present), same city''\<rparr>)
   ]"

text \<open>\<open>CorrectedFranchiseMapper._build_franchise_lineages\<close> (corrected_franchise_mapping.py).\<close>

definition CorrectedFranchiseMapper_lineages :: lineage_dict where
  "CorrectedFranchiseMapper_lineages =
   [
    (''ATL'',
     \<lparr>canonical_id = ''ATL'', current_name = ''Atlanta Braves'',
      lahman_ids = [''ATL''],
      relocations = [
          RelocationEvent_init 1953 ''Boston'' ''Milwaukee'' ''Boston Braves'' ''Milwaukee Braves'',
          RelocationEvent_init 1966 ''Milwaukee'' ''Atlanta'' ''Milwaukee Braves'' ''Atlanta Braves''],
      founded_year = 1876,
      lineage_notes = (''Franchise moved twice: Boston (1876-1952) '' @ arrow @ '' Milwaukee (1953-1965) '' @ arrow @ '' Atlanta (1966-present)'')\<rparr>),
    (''LAD'',
     \<lparr>canonical_id = ''LAD'', current_name = ''Los Angeles Dodgers'',
      lahman_ids = [''LAD''],
      relocations = [
          RelocationEvent_init 1958 ''Brooklyn'' ''Los Angeles'' ''Brooklyn Dodgers'' ''Los Angeles Dodgers''],
      founded_year = 1884,
      lineage_notes = ''Brooklyn era uses teamID BRO but franchID LAD in Lahman data''\<rparr>),
    (''SFG'',
     \<lparr>canonical_id = ''SFG'', current_name = ''San Francisco Giants'',
      lahman_ids = [''SFG''],
      relocations = [
          RelocationEvent_init 1958 ''New York'' ''San Francisco'' ''New York Giants'' ''San Francisco Giants''],
      founded_year = 1883,
      lineage_notes = ''Same year as Dodgers move to LA''\<rparr>),
    (''OAK'',
     \<lparr>canonical_id = ''OAK'', current_name = ''Oakland Athletics'',
      lahman_ids = [''OAK''],
      relocations = [
          RelocationEvent_init 1955 ''Philadelphia'' ''Kansas City'' ''Philadelphia Athletics'' ''Kansas City Athletics'',
          RelocationEvent_init 1968 ''Kansas City'' ''Oakland'' ''Kansas City Athletics'' ''Oakland Athletics''],
      founded_year = 1901,
      lineage_notes = ''Three-city franchise with planned move to Sacramento in 2025''\<rparr>),
    (''MIN'',
     \<lparr>canonical_id = ''MIN'', current_name = ''Minnesota Twins'',
      lahman_ids = [''MIN''],
      relocations = [
          RelocationEvent_init 1961 ''Washington'' ''Minneapolis-St. Paul'' ''Washington Senators'' ''Minnesota Twins''],
      founded_year = 1901,
      lineage_notes = ''Original Washington Senators franchise (1901-1960)''\<rparr>),
    (''TEX'',
     \<lparr>canonical_id = ''TEX'', current_name = ''Texas Rangers'',
      lahman_ids = [''TEX''],
      relocations = [
          RelocationEvent_init 1972 ''Washington'' ''Dallas-Fort Worth'' ''Washington Senators'' ''Texas Rangers''],
      founded_year = 1961,
      lineage_notes = ''Expansion Washington Senators franchise (1961-1971), different from original Senators''\<rparr>),
    (''BAL'',
     \<lparr>canonical_id = ''BAL'', current_name = ''Baltimore Orioles'',
      lahman_ids = [''BAL''],
      relocations = [
          RelocationEvent_init 1954 ''St. Louis'' ''Baltimore'' ''St. Louis Browns'' ''Baltimore Orioles''],
      founded_year = 1902,
      lineage_notes = ''St. Louis Browns became Baltimore Orioles''\<rparr>),
    (''MIL'',
     \<lparr>canonical_id = ''MIL'', current_name = ''Milwaukee Brewers'',
      lahman_ids = [''MIL''],
      relocations = [
          RelocationEvent_init 1970 ''Seattle'' ''Milwaukee'' ''Seattle Pilots'' ''Milwaukee Brewers''],
      founded_year = 1969,
      lineage_notes = ''Seattle Pilots (1969) became Milwaukee Brewers (1970), switched from AL to NL in 1998''\<rparr>),
    (''WSN'',
     \<lparr>canonical_id = ''WSN'', current_name = ''Washington Nationals'',
      lahman_ids = [''WSN''],
      relocations = [
          RelocationEvent_init 2005 ''Montreal'' ''Washington'' ''Montreal Expos'' ''Washington Nationals''],
      founded_year = 1969,
      lineage_notes = ''Montreal Expos (1969-2004) became Washington Nationals (2005-present)''\<rparr>),
    (''NYY'',
     \<lparr>canonical_id = ''NYY'', current_name = ''New York Yankees'',
      lahman_ids = [''NYY''],
      relocations = [
          RelocationEvent_init 1903 ''Baltimore'' ''New York'' ''Baltimore Orioles'' ''New York Highlanders''],
      founded_year = 1901,
      lineage_notes = ''Original Baltimore Orioles (1901-1902) became NY Highlanders/Yankees. Different from modern Orioles.''\<rparr>),
    (''ANA'',
     \<lparr>canonical_id = ''ANA'', current_name = ''Los Angeles Angels'',
      lahman_ids = [''ANA''],
      relocations = [],
      founded_year = 1961,
      lineage_notes = (''Los Angeles Angels (1961-1964) '' @ arrow @ '' California Angels (1965-1996) '' @ arrow @ '' Anaheim Angels (1997-2004) '' @ arrow @ '' Los Angeles Angels of Anaheim (2005-2015) '' @ arrow @ '' Los Angeles Angels (2016-present)'')\<rparr>),
    (''FLA'',
     \<lparr>canonical_id = ''FLA'', current_name = ''Miami Marlins'',
      lahman_ids = [''FLA''],
      relocations = [],
      founded_year = 1993,
      lineage_notes = ''Florida Marlins (1993-2011) became Miami Marlins (2012-present), same city''\<rparr>),
    (''BOS'',
     \<lparr>canonical_id = ''BOS'', current_name = ''Boston Red Sox'',
      lahman_ids = [''BOS''],
      relocations = [],
      founded_year = 1901,
      lineage_notes = ''Boston Red Sox, stable franchise''\<rparr>),
    (''CHC'',
     \<lparr>canonical_id = ''CHC'', current_name = ''Chicago Cubs'',
      lahman_ids = [''CHC''],
      relocations = [],
      founded_year = 1876,
      lineage_notes = ''Chicago Cubs, stable franchise''\<rparr>),
    (''CHW'',
     \<lparr>canonical_id = ''CHW'', current_name = ''Chicago White Sox'',
      lahman_ids = [''CHW''],
      relocations = [],
      founded_year = 1901,
      lineage_notes = ''Chicago White Sox, stable franchise''\<rparr>),
    (''CIN'',
     \<lparr>canonical_id = ''CIN'', current_name = ''Cincinnati Reds'',
      lahman_ids = [''CIN''],
      relocations = [],
      founded_year = 1882,
      lineage_notes = ''Cincinnati Reds, stable franchise''\<rparr>),
    (''CLE'',
     \<lparr>canonical_id = ''CLE'', current_name = ''Cleveland Guardians'',
      lahman_ids = [''CLE''],
      relocations = [],
      founded_year = 1901,
      lineage_notes = ''Cleveland franchise, name changed to Guardians in 2022''\<rparr>),
    (''DET'',
     \<lparr>canonical_id = ''DET'', current_name = ''Detroit Tigers'',
      lahman_ids = [''DET''],
      relocations = [],
      founded_year = 1901,
      lineage_notes = ''Detroit Tigers, stable franchise''\<rparr>),
    (''PHI'',
     \<lparr>canonical_id = ''PHI'', current_name = ''Philadelphia Phillies'',
      lahman_ids = [''PHI''],
      relocations = [],
      founded_year = 1883,
      lineage_notes = ''Philadelphia Phillies, stable franchise''\<rparr>),
    (''PIT'',
     \<lparr>canonical_id = ''PIT'', current_name = ''Pittsburgh Pirates'',
      lahman_ids = [''PIT''],
      relocations = [],
      founded_year = 1882,
      lineage_notes = ''Pittsburgh Pirates, stable franchise''\<rparr>),
    (''STL'',
     \<lparr>canonical_id = ''STL'', current_name = ''St. Louis Cardinals'',
      lahman_ids = [''STL''],
      relocations = [],
      founded_year = 1882,
      lineage_notes = ''St. Louis Cardinals, stable franchise''\<rparr>),
    (''ARI'',
     \<lparr>canonical_id = ''ARI'', current_name = ''Arizona Diamondbacks'',
      lahman_ids = [''ARI''],
      relocations = [],
      founded_year = 1998,
      lineage_notes = ''Arizona Diamondbacks expansion team''\<rparr>),
    (''COL'',
     \<lparr>canonical_id = ''COL'', current_name = ''Colorado Rockies'',
      lahman_ids = [''COL''],
      relocations = [],
      founded_year = 1993,
      lineage_notes = ''Colorado Rockies expansion team''\<rparr>),
    (''HOU'',
     \<lparr>canonical_id = ''HOU'', current_name = ''Houston Astros'',
      lahman_ids = [''HOU''],
      relocations = [],
      founded_year = 1962,
      lineage_notes = ''Houston Astros, switched from NL to AL in 2013''\<rparr>),
    (''KCR'',
     \<lparr>canonical_id = ''KCR'', current_name = ''Kansas City Royals'',
      lahman_ids = [''KCR''],
      relocations = [],
      founded_year = 1969,
      lineage_notes = ''Kansas City Royals expansion team''\<rparr>),
    (''NYM'',
     \<lparr>canonical_id = ''NYM'', current_name = ''New York Mets'',
      lahman_ids = [''NYM''],
      relocations = [],
      founded_year = 1962,
      lineage_notes = ''New York Mets expansion team''\<rparr>),
    (''SDP'',
     \<lparr>canonical_id = ''SDP'', current_name = ''San Diego Padres'',
      lahman_ids = [''SDP''],
      relocations = [],
      founded_year = 1969,
      lineage_notes = ''San Diego Padres expansion team''\<rparr>),
    (''SEA'',
     \<lparr>canonical_id = ''SEA'', current_name = ''Seattle Mariners'',
      lahman_ids = [''SEA''],
      relocations = [],
      founded_year = 1977,
      lineage_notes = ''Seattle Mariners expansion team''\<rparr>),
    (''TBD'',
     \<lparr>canonical_id = ''TBD'', current_name = ''Tampa Bay Rays'',
      lahman_ids = [''TBD''],
      relocations = [],
      founded_year = 1998,
      lineage_notes = ''Tampa Bay Rays expansion team''\<rparr>),
    (''TOR'',
     \<lparr>canonical_id = ''TOR'', current_name = ''Toronto Blue Jays'',
      lahman_ids = [''TOR''],
      relocations = [],
      founded_year = 1977,
      lineage_notes = ''Toronto Blue Jays expansion team''\<rparr>)
   ]"


section \<open>Season tables and the annotators\<close>

text \<open>
  A row of the season table, with the column types the loader produces
  (\<open>gather_mlb_wl.load_lahman_teams\<close>: \<open>yearID\<close>, \<open>W\<close>, \<open>L\<close> cast to int,
  \<open>G = W + L\<close>, \<open>W_pct\<close> a float). An int64 column holds no null; a cell of an object
  column is a string or null (\<open>None\<close>); the null of a float column is NaN.
  Rows are identified by their position (the default index of a table read from CSV).
\<close>

record row =
  yearID :: int
  teamID :: "string option"
  franchID :: "string option"
  lgID :: "string option"
  name :: "string option"
  W :: int
  L :: int
  G :: int
  W_pct :: pyfloat

text \<open>The columns \<open>create_annotated_dataset\<close> adds.\<close>

record annotated_row = row +
  canonical_franchise :: "string option"
  is_relocated_franchise :: bool
  relocation_year :: "int option"
  pre_relocation :: bool
  post_relocation :: bool
  years_since_relocation :: "int option"

text \<open>\<open>get_analysis_ready_data\<close> adds \<open>relocation_era\<close> as well.\<close>

record analysis_row = annotated_row +
  relocation_era :: string

text \<open>
  A boolean mask is a list of booleans, one per row; \<open>df.loc[mask, col] = v\<close> updates
  the rows the mask selects.
\<close>

definition loc_assign :: "bool list \<Rightarrow> ('r \<Rightarrow> 'r) \<Rightarrow> 'r list \<Rightarrow> 'r list" where
  "loc_assign msk f df = map2 (\<lambda>b r. if b then f r else r) msk df"

definition mask_and :: "bool list \<Rightarrow> bool list \<Rightarrow> bool list" where
  "mask_and m1 m2 = map2 (\<and>) m1 m2"

text \<open>\<open>Series.isin\<close> and \<open>Series.map(dict)\<close> on an object column: a null is in no
  list and among no keys, and maps to null, as does a key the dict lacks.\<close>

definition isin :: "string option \<Rightarrow> string list \<Rightarrow> bool" where
  "isin v xs = (case v of None \<Rightarrow> False | Some s \<Rightarrow> s \<in> set xs)"

definition in_keys :: "(string \<rightharpoonup> string) \<Rightarrow> string option \<Rightarrow> bool" where
  "in_keys d v = (case v of None \<Rightarrow> False | Some s \<Rightarrow> d s \<noteq> None)"

definition map_dict :: "(string \<rightharpoonup> string) \<Rightarrow> string option \<Rightarrow> string option" where
  "map_dict d v = (case v of None \<Rightarrow> None | Some s \<Rightarrow> d s)"

text \<open>
  \<open>max(lineage.relocations, key=lambda x: x.year)\<close> on a non-empty list, the first
  element being the initial candidate: a later element replaces the candidate only when
  its year is strictly greater.
\<close>

fun max_by_year :: "RelocationEvent \<Rightarrow> RelocationEvent list \<Rightarrow> RelocationEvent" where
  "max_by_year best [] = best"
| "max_by_year best (x # xs) = max_by_year (if year best < year x then x else best) xs"

text \<open>The lookup methods of both mapper classes.\<close>

definition get_canonical_franchise :: "mapper \<Rightarrow> string \<Rightarrow> string option" where
  "get_canonical_franchise mp lahman_id = lahman_to_canonical mp lahman_id"

definition get_franchise_info :: "mapper \<Rightarrow> string \<Rightarrow> FranchiseLineage option" where
  "get_franchise_info mp cid = map_of (lineages mp) cid"

definition mapper_is_relocated_franchise :: "mapper \<Rightarrow> string \<Rightarrow> bool" where
  "mapper_is_relocated_franchise mp cid =
     (case map_of (lineages mp) cid of
        None \<Rightarrow> False
      | Some lineage \<Rightarrow> 0 < length (relocations lineage))"

definition get_relocation_years :: "mapper \<Rightarrow> string \<Rightarrow> int list" where
  "get_relocation_years mp cid =
     (case map_of (lineages mp) cid of
        None \<Rightarrow> []
      | Some lineage \<Rightarrow> map year (relocations lineage))"

definition get_relocated_franchises :: "mapper \<Rightarrow> string list" where
  "get_relocated_franchises mp =
     map fst (filter (\<lambda>(cid, lineage). relocations lineage \<noteq> []) (lineages mp))"

subsection \<open>\<open>create_annotated_dataset\<close> (franchise_mapping.py)\<close>

definition annotated_defaults :: "(string \<rightharpoonup> string) \<Rightarrow> row \<Rightarrow> annotated_row" where
  "annotated_defaults d r =
     \<lparr>yearID = yearID r, teamID = teamID r, franchID = franchID r, lgID = lgID r,
      name = name r, W = W r, L = L r, G = G r, W_pct = W_pct r,
      canonical_franchise = map_dict d (franchID r),
      is_relocated_franchise = False, relocation_year = None,
      pre_relocation = False, post_relocation = False, years_since_relocation = None\<rparr>"

text \<open>One iteration of the loop over \<open>mapper.lineages.items()\<close>.\<close>

definition annotate_lineage ::
  "string \<Rightarrow> FranchiseLineage \<Rightarrow> annotated_row list \<Rightarrow> annotated_row list" where
  "annotate_lineage cid lineage df_annotated =
     (case relocations lineage of
        [] \<Rightarrow> df_annotated
      | r # rs \<Rightarrow>
          let franchise_mask = map (\<lambda>x. canonical_franchise x = Some cid) df_annotated;
              df1 = loc_assign franchise_mask (\<lambda>x. x\<lparr>is_relocated_franchise := True\<rparr>)
                      df_annotated;
              latest_relocation = max_by_year r rs;
              df2 = loc_assign franchise_mask
                      (\<lambda>x. x\<lparr>relocation_year := Some (year latest_relocation)\<rparr>) df1;
              pre_mask = mask_and franchise_mask
                      (map (\<lambda>x. yearID x < year latest_relocation) df2);
              post_mask = mask_and franchise_mask
                      (map (\<lambda>x. year latest_relocation \<le> yearID x) df2);
              df3 = loc_assign pre_mask (\<lambda>x. x\<lparr>pre_relocation := True\<rparr>) df2;
              df4 = loc_assign post_mask (\<lambda>x. x\<lparr>post_relocation := True\<rparr>) df3;
              df5 = loc_assign post_mask
                      (\<lambda>x. x\<lparr>years_since_relocation := Some (yearID x - year latest_relocation)\<rparr>)
                      df4
          in df5)"

definition create_annotated_dataset :: "row list \<Rightarrow> mapper \<Rightarrow> annotated_row list" where
  "create_annotated_dataset df mp =
     foldl (\<lambda>d (cid, lineage). annotate_lineage cid lineage d)
       (map (annotated_defaults (lahman_to_canonical mp)) df) (lineages mp)"

subsection \<open>\<open>CorrectedFranchiseMapper.get_analysis_ready_data\<close>\<close>

definition analysis_defaults :: "(string \<rightharpoonup> string) \<Rightarrow> row \<Rightarrow> analysis_row" where
  "analysis_defaults d r =
     \<lparr>yearID = yearID r, teamID = teamID r, franchID = franchID r, lgID = lgID r,
      name = name r, W = W r, L = L r, G = G r, W_pct = W_pct r,
      canonical_franchise = map_dict d (franchID r),
      is_relocated_franchise = False, relocation_year = None,
      pre_relocation = False, post_relocation = False, years_since_relocation = None,
      relocation_era = ''none''\<rparr>"

definition era_label :: "int \<Rightarrow> string" where
  "era_label y = ''around_'' @ str_int y"

text \<open>One iteration of the inner loop over \<open>lineage.relocations\<close>.\<close>

definition assign_era ::
  "bool list \<Rightarrow> analysis_row list \<Rightarrow> RelocationEvent \<Rightarrow> analysis_row list" where
  "assign_era franchise_mask mapped_data relocation =
     (let era_mask = mask_and franchise_mask
            (mask_and (map (\<lambda>x. year relocation - 3 \<le> yearID x) mapped_data)
                      (map (\<lambda>x. yearID x \<le> year relocation + 3) mapped_data))
      in loc_assign era_mask (\<lambda>x. x\<lparr>relocation_era := era_label (year relocation)\<rparr>)
           mapped_data)"

definition analysis_lineage ::
  "string \<Rightarrow> FranchiseLineage \<Rightarrow> analysis_row list \<Rightarrow> analysis_row list" where
  "analysis_lineage cid lineage mapped_data =
     (case relocations lineage of
        [] \<Rightarrow> mapped_data
      | r # rs \<Rightarrow>
          let franchise_mask = map (\<lambda>x. canonical_franchise x = Some cid) mapped_data;
              df1 = loc_assign franchise_mask (\<lambda>x. x\<lparr>is_relocated_franchise := True\<rparr>)
                      mapped_data;
              latest_relocation = max_by_year r rs;
              df2 = loc_assign franchise_mask
                      (\<lambda>x. x\<lparr>relocation_year := Some (year latest_relocation)\<rparr>) df1;
              pre_mask = mask_and franchise_mask
                      (map (\<lambda>x. yearID x < year latest_relocation) df2);
              post_mask = mask_and franchise_mask
                      (map (\<lambda>x. year latest_relocation \<le> yearID x) df2);
              df3 = loc_assign pre_mask (\<lambda>x. x\<lparr>pre_relocation := True\<rparr>) df2;
              df4 = loc_assign post_mask (\<lambda>x. x\<lparr>post_relocation := True\<rparr>) df3;
              df5 = loc_assign post_mask
                      (\<lambda>x. x\<lparr>years_since_relocation := Some (yearID x - year latest_relocation)\<rparr>)
                      df4
          in foldl (assign_era franchise_mask) df5 (relocations lineage))"

definition get_analysis_ready_data :: "mapper \<Rightarrow> row list \<Rightarrow> analysis_row list" where
  "get_analysis_ready_data mp df =
     (let mapped_data = filter (\<lambda>r. in_keys (lahman_to_canonical mp) (franchID r)) df
      in foldl (\<lambda>d (cid, lineage). analysis_lineage cid lineage d)
           (map (analysis_defaults (lahman_to_canonical mp)) mapped_data) (lineages mp))"

subsection \<open>The annotators as per-row transforms\<close>

text \<open>
  What one loop iteration does to one row, and what the whole loop does to it; the
  properties below show that the table-wide mask assignments compute exactly these.
\<close>

definition annotate_lineage_row ::
  "string \<Rightarrow> FranchiseLineage \<Rightarrow> 'a annotated_row_scheme \<Rightarrow> 'a annotated_row_scheme" where
  "annotate_lineage_row cid lineage x =
     (case relocations lineage of
        [] \<Rightarrow> x
      | r # rs \<Rightarrow>
          if canonical_franchise x = Some cid then
            x\<lparr>is_relocated_franchise := True,
              relocation_year := Some (year (max_by_year r rs)),
              pre_relocation := (yearID x < year (max_by_year r rs) \<or> pre_relocation x),
              post_relocation := (year (max_by_year r rs) \<le> yearID x \<or> post_relocation x),
              years_since_relocation :=
                (if year (max_by_year r rs) \<le> yearID x
                 then Some (yearID x - year (max_by_year r rs))
                 else years_since_relocation x)\<rparr>
          else x)"

text \<open>The window of three years on either side of a relocation, as the era mask tests it.\<close>

definition in_era_window :: "RelocationEvent \<Rightarrow> int \<Rightarrow> bool" where
  "in_era_window relocation y \<longleftrightarrow> year relocation - 3 \<le> y \<and> y \<le> year relocation + 3"

definition era_row :: "analysis_row \<Rightarrow> RelocationEvent \<Rightarrow> analysis_row" where
  "era_row x relocation =
     (if in_era_window relocation (yearID x)
      then x\<lparr>relocation_era := era_label (year relocation)\<rparr> else x)"

definition analysis_lineage_row ::
  "string \<Rightarrow> FranchiseLineage \<Rightarrow> analysis_row \<Rightarrow> analysis_row" where
  "analysis_lineage_row cid lineage x =
     (if canonical_franchise x = Some cid
      then foldl era_row (annotate_lineage_row cid lineage x) (relocations lineage)
      else x)"

definition annotate_row :: "mapper \<Rightarrow> row \<Rightarrow> annotated_row" where
  "annotate_row mp r =
     (let x = annotated_defaults (lahman_to_canonical mp) r in
      case canonical_franchise x of
        None \<Rightarrow> x
      | Some cid \<Rightarrow>
          (case map_of (lineages mp) cid of
             None \<Rightarrow> x
           | Some lineage \<Rightarrow> annotate_lineage_row cid lineage x))"

definition analysis_row_of :: "mapper \<Rightarrow> row \<Rightarrow> analysis_row" where
  "analysis_row_of mp r =
     (let x = analysis_defaults (lahman_to_canonical mp) r in
      case canonical_franchise x of
        None \<Rightarrow> x
      | Some cid \<Rightarrow>
          (case map_of (lineages mp) cid of
             None \<Rightarrow> x
           | Some lineage \<Rightarrow> analysis_lineage_row cid lineage x))"

text \<open>
  The partition the annotators are meant to establish on the rows of a relocated
  franchise, for the split year \<open>y\<close>.
\<close>

definition split_at :: "int \<Rightarrow> 'a annotated_row_scheme \<Rightarrow> bool" where
  "split_at y a \<longleftrightarrow>
     pre_relocation a = (yearID a < y) \<and>
     post_relocation a = (y \<le> yearID a) \<and>
     pre_relocation a \<noteq> post_relocation a \<and>
     years_since_relocation a = (if post_relocation a then Some (yearID a - y) else None)"

text \<open>
  Whether a row's raw identifier resolves to a franchise that has relocated:
  \<open>is_relocated_franchise(get_canonical_franchise(franchID))\<close>, false for a null or
  unknown identifier.
\<close>

definition resolves_to_relocated :: "mapper \<Rightarrow> 'a row_scheme \<Rightarrow> bool" where
  "resolves_to_relocated mp r =
     (case franchID r of
        None \<Rightarrow> False
      | Some s \<Rightarrow>
          (case get_canonical_franchise mp s of
             None \<Rightarrow> False
           | Some cid \<Rightarrow> mapper_is_relocated_franchise mp cid))"


section \<open>The validation checks (data_validation.py)\<close>

text \<open>
  The checks receive a DataFrame that may lack columns: \<open>columns\<close> lists the columns
  present, and a field of a row whose column is absent is never read. Reading an absent
  column raises \<open>KeyError\<close>, so a check that reads columns returns \<open>error + findings\<close>.
\<close>

record dataframe =
  columns :: "string list"
  rows :: "row list"

datatype cell =
  IntCell int | StrCell "string option" | FloatCell pyfloat | BoolCell bool | NoneCell

type_synonym pyrecord = "(string \<times> cell) list"

datatype detail = CountValue nat | RecordsValue "pyrecord list"

record ValidationResult =
  check_name :: string
  status :: string
  message :: string
  details :: "(string \<times> detail) list option"

definition result :: "string \<Rightarrow> string \<Rightarrow> string \<Rightarrow> ValidationResult" where
  "result n s m = \<lparr>check_name = n, status = s, message = m, details = None\<rparr>"

text \<open>How an f-string renders a list of column names, and a cell of an object column.\<close>

fun join :: "string \<Rightarrow> string list \<Rightarrow> string" where
  "join sep [] = []"
| "join sep [x] = x"
| "join sep (x # y # ys) = x @ sep @ join sep (y # ys)"

definition py_repr_str :: "string \<Rightarrow> string" where
  "py_repr_str s = [CHR 0x27] @ s @ [CHR 0x27]"

definition py_repr_list :: "string list \<Rightarrow> string" where
  "py_repr_list xs = ''['' @ join '', '' (map py_repr_str xs) @ '']''"

definition str_object :: "string option \<Rightarrow> string" where
  "str_object v = (case v of None \<Rightarrow> ''nan'' | Some s \<Rightarrow> s)"

text \<open>\<open>df[cols]\<close> for a list of columns: the \<open>KeyError\<close> names the absent ones.\<close>

definition select_error :: "dataframe \<Rightarrow> string list \<Rightarrow> error option" where
  "select_error df cols =
     (case filter (\<lambda>c. c \<notin> set (columns df)) cols of
        [] \<Rightarrow> None
      | m # ms \<Rightarrow> Some (KeyError (py_repr_list (m # ms) @ '' not in index'')))"

subsection \<open>\<open>DataValidator.validate_basic_data_quality\<close>\<close>

definition required_cols :: "string list" where
  "required_cols =
     [''yearID'', ''teamID'', ''franchID'', ''lgID'', ''name'', ''W'', ''L'', ''G'', ''W_pct'']"

definition critical_cols :: "string list" where
  "critical_cols = [''yearID'', ''franchID'', ''W'', ''L'']"

text \<open>\<open>df[col].isnull().sum()\<close>: an int64 column has no null.\<close>

definition null_count :: "string \<Rightarrow> row list \<Rightarrow> nat" where
  "null_count col rs =
     (if col = ''teamID'' then length (filter (\<lambda>r. teamID r = None) rs)
      else if col = ''franchID'' then length (filter (\<lambda>r. franchID r = None) rs)
      else if col = ''lgID'' then length (filter (\<lambda>r. lgID r = None) rs)
      else if col = ''name'' then length (filter (\<lambda>r. name r = None) rs)
      else if col = ''W_pct'' then length (filter (\<lambda>r. W_pct r = NaN) rs)
      else 0)"

definition g_mismatch :: "row \<Rightarrow> bool" where
  "g_mismatch r \<longleftrightarrow> 1 < \<bar>G r - (W r + L r)\<bar>"

definition pct_mismatch :: "row \<Rightarrow> bool" where
  "pct_mismatch r \<longleftrightarrow>
     fgt (fabs (fsub (W_pct r) (int_truediv (W r) (W r + L r)))) (Fin 0.01)"

definition calculation_accuracy :: "row list \<Rightarrow> ValidationResult" where
  "calculation_accuracy rs =
     (let g_errors = length (filter g_mismatch rs);
          pct_errors = length (filter pct_mismatch rs)
      in if 0 < g_errors \<or> 0 < pct_errors
         then result ''calculation_accuracy'' ''warning''
                (''Calculation mismatches: '' @ str_int (int g_errors) @ '' games, '' @
                 str_int (int pct_errors) @ '' win percentages'')
         else result ''calculation_accuracy'' ''pass''
                ''Win percentage calculations are accurate'')"

definition validate_basic_data_quality :: "dataframe \<Rightarrow> ValidationResult list" where
  "validate_basic_data_quality df =
     (let missing_cols = filter (\<lambda>col. col \<notin> set (columns df)) required_cols;
          r1 = (if missing_cols \<noteq> []
                then result ''required_columns'' ''fail''
                       (''Missing required columns: '' @ py_repr_list missing_cols)
                else result ''required_columns'' ''pass'' ''All required columns present'');
          null_counts = filter (\<lambda>(col, n). 0 < n)
                          (map (\<lambda>col. (col, null_count col (rows df)))
                             (filter (\<lambda>col. col \<in> set (columns df)) critical_cols));
          r2 = (if null_counts \<noteq> []
                then \<lparr>check_name = ''null_values'', status = ''fail'',
                      message = ''Null values found in critical columns'',
                      details = Some (map (\<lambda>(col, n). (col, CountValue n)) null_counts)\<rparr>
                else result ''null_values'' ''pass'' ''No null values in critical columns'');
          r3 = (if list_all (\<lambda>col. col \<in> set (columns df)) [''W'', ''L'', ''G'', ''W_pct'']
                then [calculation_accuracy (rows df)]
                else [])
      in [r1, r2] @ r3)"

subsection \<open>\<open>DataValidator.validate_historical_accuracy\<close>\<close>

text \<open>
  \<open>datetime.now().year\<close> is the parameter \<open>current_year\<close>. The minimum and maximum
  of an empty column are NaN, and the two comparisons with it are false.
\<close>

definition season_records :: "string list \<Rightarrow> row list \<Rightarrow> pyrecord list" where
  "season_records cols rs =
     map (\<lambda>r. map (\<lambda>c. (c,
            if c = ''yearID'' then IntCell (yearID r)
            else if c = ''teamID'' then StrCell (teamID r)
            else if c = ''name'' then StrCell (name r)
            else if c = ''G'' then IntCell (G r)
            else FloatCell (W_pct r))) cols) rs"

definition year_range_checks :: "int \<Rightarrow> row list \<Rightarrow> ValidationResult list" where
  "year_range_checks current_year rs =
     (if rs = [] then []
      else
        (let min_year = Min (set (map yearID rs)); max_year = Max (set (map yearID rs)) in
         (if min_year < 1871
          then [result ''year_range'' ''warning''
                  (''Data includes years before 1871 (first professional season): '' @
                   str_int min_year)]
          else []) @
         (if current_year < max_year
          then [result ''year_range'' ''fail''
                  (''Data includes future years: '' @ str_int max_year)]
          else [])))"

definition game_count_checks :: "dataframe \<Rightarrow> error + ValidationResult list" where
  "game_count_checks df =
     (let modern_era = filter (\<lambda>r. 1961 \<le> yearID r) (rows df) in
      if modern_era = [] then Inr []
      else
        let normal_modern = filter (\<lambda>r. yearID r \<notin> {1981, 1994, 2020}) modern_era in
        if normal_modern = [] then Inr []
        else if ''G'' \<notin> set (columns df) then Inl (KeyError ''G'')
        else
          let low_games = filter (\<lambda>r. G r < 160) normal_modern;
              high_games = filter (\<lambda>r. 164 < G r) normal_modern
          in
          case (if low_games \<noteq> [] \<or> high_games \<noteq> []
                then select_error df [''yearID'', ''teamID'', ''G''] else None) of
            Some e \<Rightarrow> Inl e
          | None \<Rightarrow> Inr
            ((if low_games \<noteq> []
              then [\<lparr>check_name = ''game_counts'', status = ''warning'',
                      message = str_int (int (length low_games)) @
                        '' modern seasons with unusually low game counts'',
                      details = Some [(''low_game_seasons'',
                        RecordsValue (season_records [''yearID'', ''teamID'', ''G''] low_games))]\<rparr>]
              else []) @
             (if high_games \<noteq> []
              then [\<lparr>check_name = ''game_counts'', status = ''warning'',
                      message = str_int (int (length high_games)) @
                        '' modern seasons with unusually high game counts'',
                      details = Some [(''high_game_seasons'',
                        RecordsValue (season_records [''yearID'', ''teamID'', ''G''] high_games))]\<rparr>]
              else [])))"

definition win_pct_checks :: "dataframe \<Rightarrow> error + ValidationResult list" where
  "win_pct_checks df =
     (if ''W_pct'' \<notin> set (columns df) then Inl (KeyError ''W_pct'')
      else
        let impossible_pct = filter (\<lambda>r. flt (W_pct r) (Fin 0) \<or> fgt (W_pct r) (Fin 1)) (rows df);
            extreme_records = filter (\<lambda>r. flt (W_pct r) (Fin 0.2) \<or> fgt (W_pct r) (Fin 0.8)) (rows df)
        in
        case (if impossible_pct \<noteq> []
              then select_error df [''yearID'', ''teamID'', ''W_pct''] else None) of
          Some e \<Rightarrow> Inl e
        | None \<Rightarrow>
        case (if extreme_records \<noteq> []
              then select_error df [''yearID'', ''teamID'', ''name'', ''W_pct''] else None) of
          Some e \<Rightarrow> Inl e
        | None \<Rightarrow> Inr
          ((if impossible_pct \<noteq> []
            then [\<lparr>check_name = ''win_percentages'', status = ''fail'',
                    message = str_int (int (length impossible_pct)) @
                      '' seasons with impossible win percentages'',
                    details = Some [(''impossible_records'',
                      RecordsValue (season_records [''yearID'', ''teamID'', ''W_pct'']
                        impossible_pct))]\<rparr>]
            else []) @
           (if extreme_records \<noteq> []
            then [\<lparr>check_name = ''extreme_records'', status = ''warning'',
                    message = str_int (int (length extreme_records)) @
                      '' seasons with extreme win percentages (< 20% or > 80%)'',
                    details = Some [(''extreme_seasons'',
                      RecordsValue (season_records [''yearID'', ''teamID'', ''name'', ''W_pct'']
                        extreme_records))]\<rparr>]
            else [])))"

definition validate_historical_accuracy ::
  "int \<Rightarrow> dataframe \<Rightarrow> error + ValidationResult list" where
  "validate_historical_accuracy current_year df =
     (if ''yearID'' \<notin> set (columns df) then Inl (KeyError ''yearID'')
      else
        (case game_count_checks df of
           Inl e \<Rightarrow> Inl e
         | Inr games \<Rightarrow>
             (case win_pct_checks df of
                Inl e \<Rightarrow> Inl e
              | Inr pcts \<Rightarrow> Inr (year_range_checks current_year (rows df) @ games @ pcts))))"

subsection \<open>\<open>DataValidator.validate_franchise_continuity\<close>\<close>

text \<open>
  \<open>sort_values('yearID')\<close> is modelled as a stable sort; the order pandas gives to rows
  of the same year is not specified by its default sorting algorithm. \<open>!=\<close> on two cells
  of an object column is true when either is null.
\<close>

definition object_ne :: "string option \<Rightarrow> string option \<Rightarrow> bool" where
  "object_ne a b \<longleftrightarrow> a = None \<or> b = None \<or> a \<noteq> b"

definition continuity_relocation ::
  "dataframe \<Rightarrow> string \<Rightarrow> row list \<Rightarrow> RelocationEvent \<Rightarrow> error + ValidationResult list" where
  "continuity_relocation df cid franchise_data relocation =
     (case (filter (\<lambda>r. yearID r = year relocation - 1) franchise_data,
            filter (\<lambda>r. yearID r = year relocation) franchise_data) of
        (pre # pres, post # posts) \<Rightarrow>
          if ''lgID'' \<notin> set (columns df) then Inl (KeyError ''lgID'')
          else Inr
            ((if cid = ''ATL'' \<and> year relocation = 1953 \<and> franchID pre = franchID post
              then [result ''franchise_id_continuity'' ''warning''
                      (cid @ '': franchID did not change at '' @ str_int (year relocation) @
                       '' relocation'')]
              else []) @
             (if object_ne (lgID pre) (lgID post) \<and> cid \<noteq> ''HOU''
              then [result ''league_continuity'' ''warning''
                      (cid @ '': League changed from '' @ str_object (lgID pre) @ '' to '' @
                       str_object (lgID post) @ '' at '' @ str_int (year relocation))]
              else []))
      | _ \<Rightarrow> Inr [])"

fun continuity_relocations ::
  "dataframe \<Rightarrow> string \<Rightarrow> row list \<Rightarrow> RelocationEvent list \<Rightarrow> ValidationResult list \<Rightarrow>
     error + ValidationResult list" where
  "continuity_relocations df cid franchise_data [] results = Inr results"
| "continuity_relocations df cid franchise_data (relocation # rest) results =
     (case continuity_relocation df cid franchise_data relocation of
        Inl e \<Rightarrow> Inl e
      | Inr found \<Rightarrow> continuity_relocations df cid franchise_data rest (results @ found))"

fun continuity_lineages ::
  "dataframe \<Rightarrow> lineage_dict \<Rightarrow> ValidationResult list \<Rightarrow> error + ValidationResult list" where
  "continuity_lineages df [] results = Inr results"
| "continuity_lineages df ((cid, lineage) # rest) results =
     (if ''franchID'' \<notin> set (columns df) then Inl (KeyError ''franchID'')
      else
        let franchise_data = filter (\<lambda>r. isin (franchID r) (lahman_ids lineage)) (rows df) in
        if franchise_data = [] then continuity_lineages df rest results
        else if ''yearID'' \<notin> set (columns df) then Inl (KeyError ''yearID'')
        else
          (case continuity_relocations df cid (sort_key yearID franchise_data)
                  (relocations lineage) results of
             Inl e \<Rightarrow> Inl e
           | Inr results' \<Rightarrow> continuity_lineages df rest results'))"

definition validate_franchise_continuity ::
  "dataframe \<Rightarrow> mapper \<Rightarrow> error + ValidationResult list" where
  "validate_franchise_continuity df mp = continuity_lineages df (lineages mp) []"

subsection \<open>\<open>DataValidator.validate_against_external_sources\<close>\<close>

type_synonym known_fact = "int \<times> string \<times> int \<times> int \<times> string"

definition known_facts :: "known_fact list" where
  "known_facts =
     [(1906, ''CHN'', 116, 36, ''Cubs record-setting season''),
      (1962, ''NYN'', 40, 120, ''Mets worst season''),
      (2001, ''SEA'', 116, 46, ''Mariners tied AL record''),
      (1899, ''CL4'', 20, 134, ''Cleveland Spiders worst record ever'')]"

fun check_fact :: "dataframe \<Rightarrow> known_fact \<Rightarrow> error + ValidationResult" where
  "check_fact df (y, team_id, exp_w, exp_l, description) =
     (if ''yearID'' \<notin> set (columns df) then Inl (KeyError ''yearID'')
      else if ''teamID'' \<notin> set (columns df) then Inl (KeyError ''teamID'')
      else
        (case filter (\<lambda>r. yearID r = y \<and> teamID r = Some team_id) (rows df) of
           [] \<Rightarrow>
             Inr (result ''historical_facts'' ''warning''
                    (''Missing data for known historical fact: '' @ description @ '' ('' @
                     str_int y @ '')''))
         | r # matching \<Rightarrow>
             if ''W'' \<notin> set (columns df) then Inl (KeyError ''W'')
             else if ''L'' \<notin> set (columns df) then Inl (KeyError ''L'')
             else if W r \<noteq> exp_w \<or> L r \<noteq> exp_l
             then Inr (result ''historical_facts'' ''fail''
                    (''Historical fact mismatch: '' @ description @ '' - Expected '' @
                     str_int exp_w @ ''-'' @ str_int exp_l @ '', got '' @
                     str_int (W r) @ ''-'' @ str_int (L r)))
             else Inr (result ''historical_facts'' ''pass''
                    (''Confirmed historical fact: '' @ description))))"

fun check_facts ::
  "dataframe \<Rightarrow> known_fact list \<Rightarrow> ValidationResult list \<Rightarrow> error + ValidationResult list" where
  "check_facts df [] results = Inr results"
| "check_facts df (kf # rest) results =
     (case check_fact df kf of
        Inl e \<Rightarrow> Inl e
      | Inr found \<Rightarrow> check_facts df rest (results @ [found]))"

definition validate_against_external_sources :: "dataframe \<Rightarrow> error + ValidationResult list" where
  "validate_against_external_sources df = check_facts df known_facts []"

subsection \<open>\<open>DataValidator.run_all_validations\<close>\<close>

text \<open>The dict literal evaluates its four values in order; the first exception leaves it.\<close>

definition run_all_validations ::
  "int \<Rightarrow> dataframe \<Rightarrow> mapper \<Rightarrow> error + (string \<times> ValidationResult list) list" where
  "run_all_validations current_year df mp =
     (let basic = validate_basic_data_quality df in
      case validate_historical_accuracy current_year df of
        Inl e \<Rightarrow> Inl e
      | Inr historical \<Rightarrow>
          (case validate_franchise_continuity df mp of
             Inl e \<Rightarrow> Inl e
           | Inr continuity \<Rightarrow>
               (case validate_against_external_sources df of
                  Inl e \<Rightarrow> Inl e
                | Inr external \<Rightarrow>
                    Inr [(''basic_quality'', basic),
                         (''historical_accuracy'', historical),
                         (''franchise_continuity'', continuity),
                         (''external_validation'', external)])))"


subsection \<open>\<open>check_data_completeness\<close>\<close>

definition MIN_SEASONS_PRE :: nat where
  "MIN_SEASONS_PRE = 10"

definition MIN_SEASONS_POST :: nat where
  "MIN_SEASONS_POST = 10"

text \<open>The dict appended to \<open>insufficient_data\<close> for one relocated franchise with data.\<close>

definition data_counts :: "string \<Rightarrow> int \<Rightarrow> nat \<Rightarrow> nat \<Rightarrow> pyrecord" where
  "data_counts cid y pre_count post_count =
     [(''franchise'', StrCell (Some cid)),
      (''relocation_year'', IntCell y),
      (''pre_seasons'', IntCell (int pre_count)),
      (''post_seasons'', IntCell (int post_count)),
      (''sufficient_for_analysis'',
         BoolCell (if pre_count < MIN_SEASONS_PRE \<or> post_count < MIN_SEASONS_POST
                   then False else True))]"

fun completeness_lineages ::
  "dataframe \<Rightarrow> lineage_dict \<Rightarrow> pyrecord list \<Rightarrow> error + pyrecord list" where
  "completeness_lineages df [] insufficient_data = Inr insufficient_data"
| "completeness_lineages df ((cid, lineage) # rest) insufficient_data =
     (case relocations lineage of
        [] \<Rightarrow> completeness_lineages df rest insufficient_data
      | r # rs \<Rightarrow>
          if ''franchID'' \<notin> set (columns df) then Inl (KeyError ''franchID'')
          else
            let franchise_data = filter (\<lambda>x. isin (franchID x) (lahman_ids lineage)) (rows df)
            in
            if franchise_data = [] then completeness_lineages df rest insufficient_data
            else
              let latest_relocation = max_by_year r rs in
              if ''yearID'' \<notin> set (columns df) then Inl (KeyError ''yearID'')
              else
                let pre_reloc = filter (\<lambda>x. yearID x < year latest_relocation) franchise_data;
                    post_reloc = filter (\<lambda>x. year latest_relocation \<le> yearID x) franchise_data
                in completeness_lineages df rest
                     (insufficient_data @
                      [data_counts cid (year latest_relocation) (length pre_reloc)
                         (length post_reloc)]))"

definition check_data_completeness ::
  "dataframe \<Rightarrow> mapper \<Rightarrow> error + ValidationResult list" where
  "check_data_completeness df mp =
     (case completeness_lineages df (lineages mp) [] of
        Inl e \<Rightarrow> Inl e
      | Inr insufficient_data \<Rightarrow>
          let insufficient_count =
                length (filter (\<lambda>d. map_of d ''sufficient_for_analysis'' = Some (BoolCell False))
                          insufficient_data)
          in Inr
            [if 0 < insufficient_count
             then \<lparr>check_name = ''statistical_sufficiency'', status = ''warning'',
                   message = str_int (int insufficient_count) @
                     '' franchises have insufficient data for robust statistical analysis'',
                   details = Some [(''franchise_data_counts'', RecordsValue insufficient_data)]\<rparr>
             else result ''statistical_sufficiency'' ''pass''
                    ''All relocated franchises have sufficient data for statistical analysis''])"

text \<open>
  The seasons of a lineage in a table, before and from its latest relocation year, as
  the check counts them: by raw identifier, with the year of the latest relocation.
\<close>

definition lineage_has_data :: "FranchiseLineage \<Rightarrow> row list \<Rightarrow> bool" where
  "lineage_has_data lineage rs \<longleftrightarrow>
     filter (\<lambda>x. isin (franchID x) (lahman_ids lineage)) rs \<noteq> []"

definition pre_seasons :: "FranchiseLineage \<Rightarrow> row list \<Rightarrow> nat" where
  "pre_seasons lineage rs =
     length (filter (\<lambda>x. yearID x < Max (year ` set (relocations lineage)))
               (filter (\<lambda>x. isin (franchID x) (lahman_ids lineage)) rs))"

definition post_seasons :: "FranchiseLineage \<Rightarrow> row list \<Rightarrow> nat" where
  "post_seasons lineage rs =
     length (filter (\<lambda>x. Max (year ` set (relocations lineage)) \<le> yearID x)
               (filter (\<lambda>x. isin (franchID x) (lahman_ids lineage)) rs))"

definition relocated_with_data :: "row list \<Rightarrow> string \<times> FranchiseLineage \<Rightarrow> bool" where
  "relocated_with_data rs p \<longleftrightarrow> relocations (snd p) \<noteq> [] \<and> lineage_has_data (snd p) rs"

subsection \<open>\<open>CorrectedFranchiseMapper.generate_relocation_summary\<close>\<close>

definition float_or_none :: "pyfloat list \<Rightarrow> cell" where
  "float_or_none xs = (if xs = [] then NoneCell else FloatCell (mean xs))"

definition relocation_summary ::
  "string \<Rightarrow> FranchiseLineage \<Rightarrow> RelocationEvent \<Rightarrow> analysis_row list \<Rightarrow> pyrecord" where
  "relocation_summary cid lineage latest_relocation franchise_data =
     (let pre_data = filter (\<lambda>x. pre_relocation x = True) franchise_data;
          post_data = filter (\<lambda>x. post_relocation x = True) franchise_data
      in [(''franchise'', StrCell (Some cid)),
          (''current_name'', StrCell (Some (current_name lineage))),
          (''relocation_year'', IntCell (year latest_relocation)),
          (''from_city'', StrCell (Some (from_city latest_relocation))),
          (''to_city'', StrCell (Some (to_city latest_relocation))),
          (''total_seasons'', IntCell (int (length franchise_data))),
          (''pre_relocation_seasons'', IntCell (int (length pre_data))),
          (''post_relocation_seasons'', IntCell (int (length post_data))),
          (''pre_relocation_avg_wpct'', float_or_none (map W_pct pre_data)),
          (''post_relocation_avg_wpct'', float_or_none (map W_pct post_data)),
          (''wpct_change'',
             (if pre_data \<noteq> [] \<and> post_data \<noteq> []
              then FloatCell (fsub (mean (map W_pct post_data)) (mean (map W_pct pre_data)))
              else NoneCell)),
          (''sufficient_data'', BoolCell (10 \<le> length pre_data \<and> 10 \<le> length post_data))])"

definition generate_relocation_summary :: "mapper \<Rightarrow> row list \<Rightarrow> pyrecord list" where
  "generate_relocation_summary mp df =
     (let analysis_data = get_analysis_ready_data mp df;
          relocated_only = filter (\<lambda>x. is_relocated_franchise x = True) analysis_data
      in concat (map (\<lambda>(cid, lineage).
           case relocations lineage of
             [] \<Rightarrow> []
           | r # rs \<Rightarrow>
               let franchise_data = filter (\<lambda>x. canonical_franchise x = Some cid) relocated_only
               in if franchise_data = [] then []
                  else [relocation_summary cid lineage (max_by_year r rs) franchise_data])
         (lineages mp)))"


section \<open>Effect sizes (final_data_validation.py)\<close>

text \<open>
  \<open>validate_relocation_analysis_readiness\<close> reads the analysis-ready table and builds
  one dict per relocated franchise with data. Its effect-size block is
  \<open>effect_size_entries\<close>, on the \<open>W_pct\<close> columns of the pre- and post-relocation rows;
  the test \<open>pre_avg_wpct is not None and post_avg_wpct is not None\<close> holds exactly when
  both lists of rows are non-empty.
\<close>

definition pooled_std :: "pyfloat list \<Rightarrow> pyfloat list \<Rightarrow> pyfloat" where
  "pooled_std pre post =
     fsqrt (fdiv (fadd (fmul (Fin (real (length pre) - 1)) (var pre))
                       (fmul (Fin (real (length post) - 1)) (var post)))
                 (Fin (real (length pre) + real (length post) - 2)))"

definition cohens_d :: "pyfloat list \<Rightarrow> pyfloat list \<Rightarrow> pyfloat" where
  "cohens_d pre post = fdiv (fsub (mean post) (mean pre)) (pooled_std pre post)"

definition effect_magnitude :: "pyfloat \<Rightarrow> string" where
  "effect_magnitude d =
     (if fge (fabs d) (Fin 0.8) then ''large''
      else if fge (fabs d) (Fin 0.5) then ''medium''
      else if fge (fabs d) (Fin 0.2) then ''small''
      else ''negligible'')"

definition effect_size_entries :: "pyfloat list \<Rightarrow> pyfloat list \<Rightarrow> pyrecord" where
  "effect_size_entries pre post =
     (if pre \<noteq> [] \<and> post \<noteq> []
      then
        if fgt (pooled_std pre post) (Fin 0)
        then [(''effect_size'', FloatCell (cohens_d pre post)),
              (''effect_magnitude'', StrCell (Some (effect_magnitude (cohens_d pre post))))]
        else [(''effect_size'', NoneCell),
              (''effect_magnitude'', StrCell (Some ''unknown''))]
      else [])"

text \<open>\<open>Series.max()\<close> of the \<open>years_since_relocation\<close> column, which skips nulls.\<close>

definition max_years_since :: "analysis_row list \<Rightarrow> cell" where
  "max_years_since post_data =
     (if post_data = [] then IntCell 0
      else
        (case concat (map (\<lambda>x. case years_since_relocation x of None \<Rightarrow> [] | Some y \<Rightarrow> [y])
                       post_data) of
           [] \<Rightarrow> FloatCell NaN
         | y # ys \<Rightarrow> FloatCell (Fin (real_of_int (Max (set (y # ys)))))))"

definition float_std_or_none :: "pyfloat list \<Rightarrow> cell" where
  "float_std_or_none xs = (if xs = [] then NoneCell else FloatCell (std xs))"

definition franchise_analysis ::
  "string \<Rightarrow> FranchiseLineage \<Rightarrow> RelocationEvent \<Rightarrow> analysis_row list \<Rightarrow> pyrecord" where
  "franchise_analysis cid lineage latest_relocation franchise_data =
     (let pre_data = filter (\<lambda>x. pre_relocation x = True) franchise_data;
          post_data = filter (\<lambda>x. post_relocation x = True) franchise_data
      in [(''franchise'', StrCell (Some cid)),
          (''name'', StrCell (Some (current_name lineage))),
          (''relocation_year'', IntCell (year latest_relocation)),
          (''pre_seasons'', IntCell (int (length pre_data))),
          (''post_seasons'', IntCell (int (length post_data))),
          (''pre_avg_wpct'', float_or_none (map W_pct pre_data)),
          (''post_avg_wpct'', float_or_none (map W_pct post_data)),
          (''pre_std'', float_std_or_none (map W_pct pre_data)),
          (''post_std'', float_std_or_none (map W_pct post_data)),
          (''sufficient_for_ttest'', BoolCell (10 \<le> length pre_data \<and> 10 \<le> length post_data)),
          (''years_since_relocation'', max_years_since post_data)] @
         effect_size_entries (map W_pct pre_data) (map W_pct post_data))"

definition relocated_franchise_analyses :: "mapper \<Rightarrow> analysis_row list \<Rightarrow> pyrecord list" where
  "relocated_franchise_analyses mp df =
     concat (map (\<lambda>(cid, lineage).
        case relocations lineage of
          [] \<Rightarrow> []
        | r # rs \<Rightarrow>
            let franchise_data = filter (\<lambda>x. canonical_franchise x = Some cid) df
            in if franchise_data = [] then []
               else [franchise_analysis cid lineage (max_by_year r rs) franchise_data])
       (lineages mp))"


section \<open>Properties of the registry\<close>

lemma add_lahman_ids_pairs:
  "add_lahman_ids cid ids m = insert_pairs (map (\<lambda>i. (i, cid)) ids) m"
  by (induction ids arbitrary: m) auto

lemma insert_pairs_append:
  "insert_pairs (ps @ qs) m =
     (case insert_pairs ps m of Inl e \<Rightarrow> Inl e | Inr m' \<Rightarrow> insert_pairs qs m')"
  by (induction ps arbitrary: m) auto

lemma add_lineages_pairs: "add_lineages ls m = insert_pairs (id_pairs ls) m"
proof (induction ls arbitrary: m)
  case Nil
  show ?case by (simp add: id_pairs_def)
next
  case (Cons a ls)
  obtain cid lineage where a: "a = (cid, lineage)" by (cases a)
  have "id_pairs (a # ls) = map (\<lambda>i. (i, cid)) (lahman_ids lineage) @ id_pairs ls"
    by (simp add: id_pairs_def a)
  then show ?case
    using Cons.IH by (simp add: a insert_pairs_append add_lahman_ids_pairs split: sum.splits)
qed

lemma map_fst_id_pairs: "map fst (id_pairs ls) = all_ids ls"
  by (induction ls) (auto simp: id_pairs_def all_ids_def comp_def)

lemma insert_pairs_Inr:
  "insert_pairs ps m = Inr m' \<longleftrightarrow>
     distinct (map fst ps) \<and> fst ` set ps \<inter> dom m = {} \<and> m' = m ++ map_of ps"
proof (induction ps arbitrary: m)
  case Nil
  show ?case by auto
next
  case (Cons p ps)
  obtain k v where p: "p = (k, v)" by (cases p)
  show ?case
  proof (cases "m k")
    case (Some c)
    then show ?thesis by (auto simp: p)
  next
    case None
    have step: "insert_pairs (p # ps) m = insert_pairs ps (m(k \<mapsto> v))"
      using None by (simp add: p)
    have guard: "distinct (map fst ps) \<and> fst ` set ps \<inter> dom (m(k \<mapsto> v)) = {} \<longleftrightarrow>
        distinct (map fst (p # ps)) \<and> fst ` set (p # ps) \<inter> dom m = {}"
      using None by (auto simp: p domIff)
    have upd: "m(k \<mapsto> v) ++ map_of ps = m ++ map_of (p # ps)" if "k \<notin> fst ` set ps"
      using that by (simp add: p map_add_upd_left dom_map_of_conv_image_fst)
    have "k \<notin> fst ` set ps" if "distinct (map fst (p # ps))"
      using that by (simp add: p)
    with upd have "distinct (map fst (p # ps)) \<Longrightarrow>
        m(k \<mapsto> v) ++ map_of ps = m ++ map_of (p # ps)"
      by blast
    with guard show ?thesis
      unfolding step Cons.IH by metis
  qed
qed


lemma build_lahman_mapping_Inr_iff:
  "build_lahman_mapping ls = Inr m \<longleftrightarrow> distinct (all_ids ls) \<and> m = map_of (id_pairs ls)"
  by (simp add: build_lahman_mapping_def add_lineages_pairs insert_pairs_Inr map_fst_id_pairs)















lemma distinct_FranchiseMapper_ids: "distinct (all_ids FranchiseMapper_lineages)"
  by (simp add: FranchiseMapper_lineages_def all_ids_def)

lemma distinct_CorrectedFranchiseMapper_ids: "distinct (all_ids CorrectedFranchiseMapper_lineages)"
  by (simp add: CorrectedFranchiseMapper_lineages_def all_ids_def)



section \<open>Properties of the annotators\<close>

lemma loc_assign_map:
  "loc_assign (map p xs) f (map g xs) = map (\<lambda>x. if p x then f (g x) else g x) xs"
  by (induction xs) (simp_all add: loc_assign_def)

lemma loc_assign_same:
  "loc_assign (map p xs) f xs = map (\<lambda>x. if p x then f x else x) xs"
  using loc_assign_map [of p xs f "\<lambda>x. x"] by simp

lemma mask_and_map: "mask_and (map p xs) (map q xs) = map (\<lambda>x. p x \<and> q x) xs"
  by (induction xs) (simp_all add: mask_and_def)

lemma annotate_lineage_rows:
  "annotate_lineage cid lineage df = map (annotate_lineage_row cid lineage) df"
proof (cases "relocations lineage")
  case Nil
  then have "annotate_lineage_row cid lineage x = x" for x :: annotated_row
    by (simp add: annotate_lineage_row_def)
  then have "map (annotate_lineage_row cid lineage) df = df"
    by (simp add: map_idI)
  with Nil show ?thesis by (simp add: annotate_lineage_def)
next
  case (Cons r rs)
  show ?thesis
    unfolding annotate_lineage_def Cons list.case Let_def loc_assign_same loc_assign_map
      mask_and_map map_map comp_def
    by (rule map_cong [OF refl]) (simp add: annotate_lineage_row_def Cons)
qed

lemma assign_era_map:
  "assign_era (map p xs) (map g xs) relocation
     = map (\<lambda>x. if p x then era_row (g x) relocation else g x) xs"
  unfolding assign_era_def Let_def mask_and_map map_map comp_def loc_assign_map
  by (rule map_cong [OF refl]) (simp add: era_row_def in_era_window_def)

lemma foldl_assign_era_map:
  "foldl (assign_era (map p xs)) (map g xs) rels
     = map (\<lambda>x. if p x then foldl era_row (g x) rels else g x) xs"
proof (induction rels arbitrary: g)
  case Nil
  show ?case by simp
next
  case (Cons a rels)
  have "foldl (assign_era (map p xs)) (map g xs) (a # rels)
      = foldl (assign_era (map p xs))
          (map (\<lambda>x. if p x then era_row (g x) a else g x) xs) rels"
    by (simp add: assign_era_map)
  also have "\<dots> = map (\<lambda>x. if p x
      then foldl era_row (if p x then era_row (g x) a else g x) rels
      else (if p x then era_row (g x) a else g x)) xs"
    by (rule Cons.IH)
  also have "\<dots> = map (\<lambda>x. if p x then foldl era_row (g x) (a # rels) else g x) xs"
    by (rule map_cong [OF refl]) simp
  finally show ?case .
qed

lemma analysis_lineage_rows:
  "analysis_lineage cid lineage df = map (analysis_lineage_row cid lineage) df"
proof (cases "relocations lineage")
  case Nil
  then have "analysis_lineage_row cid lineage x = x" for x
    by (simp add: analysis_lineage_row_def annotate_lineage_row_def)
  then have "map (analysis_lineage_row cid lineage) df = df"
    by (simp add: map_idI)
  with Nil show ?thesis by (simp add: analysis_lineage_def)
next
  case (Cons r rs)
  show ?thesis
    unfolding analysis_lineage_def Cons list.case Let_def loc_assign_same loc_assign_map
      mask_and_map map_map comp_def foldl_assign_era_map
    by (rule map_cong [OF refl]) (simp add: analysis_lineage_row_def annotate_lineage_row_def Cons)
qed

lemma foldl_map_rows:
  "foldl (\<lambda>d (cid, lineage). map (F cid lineage) d) init ls
     = map (\<lambda>x. foldl (\<lambda>x (cid, lineage). F cid lineage x) x ls) init"
proof (induction ls arbitrary: init)
  case Nil
  show ?case by simp
next
  case (Cons a ls)
  obtain cid lineage where a: "a = (cid, lineage)" by (cases a)
  show ?case by (simp add: a Cons.IH comp_def)
qed

lemma foldl_lineage_rows:
  fixes F :: "string \<Rightarrow> FranchiseLineage \<Rightarrow> 'a annotated_row_scheme \<Rightarrow> 'a annotated_row_scheme"
  assumes other: "\<And>k lin x. canonical_franchise x \<noteq> Some k \<Longrightarrow> F k lin x = x"
    and keep: "\<And>k lin x. canonical_franchise (F k lin x) = canonical_franchise x"
  shows "distinct (map fst ls) \<Longrightarrow>
     foldl (\<lambda>x (k, lin). F k lin x) x ls
       = (case canonical_franchise x of
            None \<Rightarrow> x
          | Some c \<Rightarrow> (case map_of ls c of None \<Rightarrow> x | Some lin \<Rightarrow> F c lin x))"
proof (induction ls arbitrary: x)
  case Nil
  show ?case by (simp split: option.splits)
next
  case (Cons a ls)
  obtain k lin where a: "a = (k, lin)" by (cases a)
  from Cons.prems have d: "distinct (map fst ls)" and k: "k \<notin> fst ` set ls" by (simp_all add: a)
  have step: "foldl (\<lambda>x (k, lin). F k lin x) x (a # ls)
      = (case canonical_franchise (F k lin x) of
            None \<Rightarrow> F k lin x
          | Some c \<Rightarrow> (case map_of ls c of None \<Rightarrow> F k lin x | Some l \<Rightarrow> F c l (F k lin x)))"
    by (simp add: a Cons.IH [OF d])
  show ?case
  proof (cases "canonical_franchise x = Some k")
    case True
    from k have "map_of ls k = None" by (simp add: map_of_eq_None_iff)
    with True show ?thesis unfolding step by (simp add: keep a)
  next
    case False
    then have "F k lin x = x" by (rule other)
    with False show ?thesis unfolding step by (auto simp: a split: option.splits)
  qed
qed

lemma canonical_franchise_era_rows [simp]:
  "canonical_franchise (foldl era_row x rels) = canonical_franchise x"
  by (induction rels arbitrary: x) (simp_all add: era_row_def)

lemma canonical_franchise_annotate_lineage_row [simp]:
  "canonical_franchise (annotate_lineage_row k lin x) = canonical_franchise x"
  by (simp add: annotate_lineage_row_def split: list.splits)

lemma canonical_franchise_analysis_lineage_row [simp]:
  "canonical_franchise (analysis_lineage_row k lin x) = canonical_franchise x"
  by (simp add: analysis_lineage_row_def)

text \<open>
  The two annotators are maps of a per-row transform. The hypothesis is the invariant of
  a Python dict: the keys of \<open>lineages\<close> are distinct.
\<close>

lemma create_annotated_dataset_rows:
  assumes "distinct (map fst (lineages mp))"
  shows "create_annotated_dataset df mp = map (annotate_row mp) df"
proof -
  have "foldl (\<lambda>x (k, lin). annotate_lineage_row k lin x) x (lineages mp)
      = (case canonical_franchise x of
            None \<Rightarrow> x
          | Some c \<Rightarrow> (case map_of (lineages mp) c of
               None \<Rightarrow> x | Some lin \<Rightarrow> annotate_lineage_row c lin x))"
    for x :: annotated_row
    by (rule foldl_lineage_rows [OF _ _ assms])
      (simp_all add: annotate_lineage_row_def split: list.splits)
  then show ?thesis
    by (simp add: create_annotated_dataset_def annotate_lineage_rows foldl_map_rows
        annotate_row_def Let_def comp_def)
qed

lemma get_analysis_ready_data_rows:
  assumes "distinct (map fst (lineages mp))"
  shows "get_analysis_ready_data mp df
     = map (analysis_row_of mp) (filter (\<lambda>r. in_keys (lahman_to_canonical mp) (franchID r)) df)"
proof -
  have "foldl (\<lambda>x (k, lin). analysis_lineage_row k lin x) x (lineages mp)
      = (case canonical_franchise x of
            None \<Rightarrow> x
          | Some c \<Rightarrow> (case map_of (lineages mp) c of
               None \<Rightarrow> x | Some lin \<Rightarrow> analysis_lineage_row c lin x))"
    for x
    by (rule foldl_lineage_rows [OF _ _ assms]) (simp_all add: analysis_lineage_row_def)
  then show ?thesis
    by (simp add: get_analysis_ready_data_def analysis_lineage_rows foldl_map_rows
        analysis_row_of_def Let_def comp_def)
qed


lemma year_max_by_year_fold: "year (max_by_year r rs) = fold max (map year rs) (year r)"
proof (induction rs arbitrary: r)
  case Nil
  show ?case by simp
next
  case (Cons x rs)
  have "year (if year r < year x then x else r) = max (year x) (year r)" by simp
  then show ?case by (simp add: Cons.IH)
qed

lemma year_max_by_year: "year (max_by_year r rs) = Max (year ` set (r # rs))"
proof -
  have "Max (set (year r # map year rs)) = fold max (map year rs) (year r)"
    by (rule Max.set_eq_fold)
  then show ?thesis by (simp add: year_max_by_year_fold)
qed

lemma yearID_era_rows [simp]: "yearID (foldl era_row x rels) = yearID x"
  by (induction rels arbitrary: x) (simp_all add: era_row_def)

lemma pre_relocation_era_rows [simp]: "pre_relocation (foldl era_row x rels) = pre_relocation x"
  by (induction rels arbitrary: x) (simp_all add: era_row_def)

lemma post_relocation_era_rows [simp]: "post_relocation (foldl era_row x rels) = post_relocation x"
  by (induction rels arbitrary: x) (simp_all add: era_row_def)

lemma years_since_relocation_era_rows [simp]:
  "years_since_relocation (foldl era_row x rels) = years_since_relocation x"
  by (induction rels arbitrary: x) (simp_all add: era_row_def)

lemma relocation_year_era_rows [simp]:
  "relocation_year (foldl era_row x rels) = relocation_year x"
  by (induction rels arbitrary: x) (simp_all add: era_row_def)

lemma is_relocated_franchise_era_rows [simp]:
  "is_relocated_franchise (foldl era_row x rels) = is_relocated_franchise x"
  by (induction rels arbitrary: x) (simp_all add: era_row_def)

lemma split_at_annotate_lineage_row:
  assumes "relocations lineage \<noteq> []" "canonical_franchise x = Some cid"
    "\<not> pre_relocation x" "\<not> post_relocation x" "years_since_relocation x = None"
  shows "split_at (Max (year ` set (relocations lineage))) (annotate_lineage_row cid lineage x)"
proof -
  from assms(1) obtain r rs where rel: "relocations lineage = r # rs"
    by (cases "relocations lineage") auto
  show ?thesis
    using assms(2-5)
    by (simp add: split_at_def annotate_lineage_row_def rel year_max_by_year [symmetric]
        del: set_simps)
qed

lemma split_at_annotate_row:
  assumes "canonical_franchise (annotate_row mp r) = Some cid"
    "map_of (lineages mp) cid = Some lineage" "relocations lineage \<noteq> []"
  shows "split_at (Max (year ` set (relocations lineage))) (annotate_row mp r)"
proof -
  let ?x = "annotated_defaults (lahman_to_canonical mp) r"
  from assms(1) have c: "canonical_franchise ?x = Some cid"
    by (simp add: annotate_row_def Let_def split: option.splits)
  with assms(2) have "annotate_row mp r = annotate_lineage_row cid lineage ?x"
    by (simp add: annotate_row_def Let_def)
  moreover have "split_at (Max (year ` set (relocations lineage))) (annotate_lineage_row cid lineage ?x)"
    by (rule split_at_annotate_lineage_row [OF assms(3) c]) (simp_all add: annotated_defaults_def)
  ultimately show ?thesis by simp
qed

lemma split_at_era_rows: "split_at y (foldl era_row x rels) = split_at y x"
  by (simp add: split_at_def)

lemma split_at_analysis_row_of:
  assumes "canonical_franchise (analysis_row_of mp r) = Some cid"
    "map_of (lineages mp) cid = Some lineage" "relocations lineage \<noteq> []"
  shows "split_at (Max (year ` set (relocations lineage))) (analysis_row_of mp r)"
proof -
  let ?x = "analysis_defaults (lahman_to_canonical mp) r"
  from assms(1) have c: "canonical_franchise ?x = Some cid"
    by (simp add: analysis_row_of_def Let_def split: option.splits)
  with assms(2) have "analysis_row_of mp r
      = foldl era_row (annotate_lineage_row cid lineage ?x) (relocations lineage)"
    by (simp add: analysis_row_of_def Let_def analysis_lineage_row_def)
  moreover have "split_at (Max (year ` set (relocations lineage))) (annotate_lineage_row cid lineage ?x)"
    by (rule split_at_annotate_lineage_row [OF assms(3) c]) (simp_all add: analysis_defaults_def)
  ultimately show ?thesis by (simp add: split_at_era_rows)
qed

text \<open>
  C2. In the output of either annotator, every row whose canonical franchise has a
  lineage with at least one relocation is split at the maximum relocation year of that
  lineage: \<open>pre_relocation\<close> holds iff the row's year is strictly below it,
  \<open>post_relocation\<close> iff the year is at or above it, exactly one of the two holds, and
  \<open>years_since_relocation\<close> is set exactly on the post rows, to the year minus that
  maximum. The keys of \<open>lineages\<close> are distinct, as the keys of a dict are.
\<close>

theorem relocated_rows_partition:
  assumes "distinct (map fst (lineages mp))"
    and "map_of (lineages mp) cid = Some lineage"
    and "relocations lineage \<noteq> []"
  shows "(\<forall>a \<in> set (get_analysis_ready_data mp df). canonical_franchise a = Some cid \<longrightarrow>
            split_at (Max (year ` set (relocations lineage))) a) \<and>
         (\<forall>a \<in> set (create_annotated_dataset df mp). canonical_franchise a = Some cid \<longrightarrow>
            split_at (Max (year ` set (relocations lineage))) a)"
proof (intro conjI ballI impI)
  fix a
  assume "a \<in> set (get_analysis_ready_data mp df)" and c: "canonical_franchise a = Some cid"
  then obtain r where "a = analysis_row_of mp r"
    by (auto simp: get_analysis_ready_data_rows [OF assms(1)])
  with c assms(2,3) show "split_at (Max (year ` set (relocations lineage))) a"
    using split_at_analysis_row_of by blast
next
  fix a
  assume "a \<in> set (create_annotated_dataset df mp)" and c: "canonical_franchise a = Some cid"
  then obtain r where "a = annotate_row mp r"
    by (auto simp: create_annotated_dataset_rows [OF assms(1)])
  with c assms(2,3) show "split_at (Max (year ` set (relocations lineage))) a"
    using split_at_annotate_row by blast
qed


lemma init_mapper_Inr:
  "init_mapper ls = Inr mp \<longleftrightarrow>
     distinct (all_ids ls) \<and> mp = \<lparr>lineages = ls, lahman_to_canonical = map_of (id_pairs ls)\<rparr>"
proof (cases "build_lahman_mapping ls")
  case (Inl e)
  then have "\<not> distinct (all_ids ls)"
    using build_lahman_mapping_Inr_iff [of ls] by auto
  with Inl show ?thesis by (simp add: init_mapper_def)
next
  case (Inr m)
  then show ?thesis
    using build_lahman_mapping_Inr_iff [of ls m] by (auto simp: init_mapper_def)
qed

lemma init_FranchiseMapper:
  "init_mapper FranchiseMapper_lineages
     = Inr \<lparr>lineages = FranchiseMapper_lineages,
            lahman_to_canonical = map_of (id_pairs FranchiseMapper_lineages)\<rparr>"
  by (simp add: init_mapper_Inr distinct_FranchiseMapper_ids)

lemma init_CorrectedFranchiseMapper:
  "init_mapper CorrectedFranchiseMapper_lineages
     = Inr \<lparr>lineages = CorrectedFranchiseMapper_lineages,
            lahman_to_canonical = map_of (id_pairs CorrectedFranchiseMapper_lineages)\<rparr>"
  by (simp add: init_mapper_Inr distinct_CorrectedFranchiseMapper_ids)

lemma distinct_FranchiseMapper_keys: "distinct (map fst FranchiseMapper_lineages)"
  by (simp add: FranchiseMapper_lineages_def)

lemma distinct_CorrectedFranchiseMapper_keys: "distinct (map fst CorrectedFranchiseMapper_lineages)"
  by (simp add: CorrectedFranchiseMapper_lineages_def)

lemma FranchiseMapper_LAD:
  "map_of (id_pairs FranchiseMapper_lineages) ''LAD'' = Some ''LAD''"
  "map_of FranchiseMapper_lineages ''LAD'' =
     Some \<lparr>canonical_id = ''LAD'', current_name = ''Los Angeles Dodgers'',
       lahman_ids = [''BRO'', ''LAD'', ''LAN''],
       relocations = [RelocationEvent_init 1958 ''Brooklyn'' ''Los Angeles'' ''Brooklyn Dodgers''
                        ''Los Angeles Dodgers''],
       founded_year = 1884,
       lineage_notes = ''Brooklyn era uses teamID BRO but franchID LAD in Lahman data''\<rparr>"
  by (simp_all add: FranchiseMapper_lineages_def id_pairs_def)

lemma CorrectedFranchiseMapper_LAD:
  "map_of (id_pairs CorrectedFranchiseMapper_lineages) ''LAD'' = Some ''LAD''"
  "map_of CorrectedFranchiseMapper_lineages ''LAD'' =
     Some \<lparr>canonical_id = ''LAD'', current_name = ''Los Angeles Dodgers'',
       lahman_ids = [''LAD''],
       relocations = [RelocationEvent_init 1958 ''Brooklyn'' ''Los Angeles'' ''Brooklyn Dodgers''
                        ''Los Angeles Dodgers''],
       founded_year = 1884,
       lineage_notes = ''Brooklyn era uses teamID BRO but franchID LAD in Lahman data''\<rparr>"
  by (simp_all add: CorrectedFranchiseMapper_lineages_def id_pairs_def)

theorem relocated_rows_partition_witness:
  "(\<exists>mp lineage a b.
      init_mapper CorrectedFranchiseMapper_lineages = Inr mp \<and>
      distinct (map fst (lineages mp)) \<and>
      map_of (lineages mp) ''LAD'' = Some lineage \<and>
      relocations lineage \<noteq> [] \<and> Max (year ` set (relocations lineage)) = 1958 \<and>
      get_analysis_ready_data mp
        [\<lparr>yearID = 1957, teamID = Some ''BRO'', franchID = Some ''LAD'', lgID = Some ''NL'',
          name = Some ''Brooklyn Dodgers'', W = 84, L = 70, G = 154, W_pct = Fin 0.545\<rparr>,
         \<lparr>yearID = 1958, teamID = Some ''LAN'', franchID = Some ''LAD'', lgID = Some ''NL'',
          name = Some ''Los Angeles Dodgers'', W = 71, L = 83, G = 154, W_pct = Fin 0.461\<rparr>]
        = [a, b] \<and>
      canonical_franchise a = Some ''LAD'' \<and> canonical_franchise b = Some ''LAD'' \<and>
      split_at 1958 a \<and> split_at 1958 b \<and>
      pre_relocation a \<and> \<not> post_relocation a \<and> years_since_relocation a = None \<and>
      \<not> pre_relocation b \<and> post_relocation b \<and> years_since_relocation b = Some 0)
   \<and> (\<exists>mp lineage a b.
      init_mapper FranchiseMapper_lineages = Inr mp \<and>
      distinct (map fst (lineages mp)) \<and>
      map_of (lineages mp) ''LAD'' = Some lineage \<and>
      relocations lineage \<noteq> [] \<and> Max (year ` set (relocations lineage)) = 1958 \<and>
      create_annotated_dataset
        [\<lparr>yearID = 1957, teamID = Some ''BRO'', franchID = Some ''LAD'', lgID = Some ''NL'',
          name = Some ''Brooklyn Dodgers'', W = 84, L = 70, G = 154, W_pct = Fin 0.545\<rparr>,
         \<lparr>yearID = 1958, teamID = Some ''LAN'', franchID = Some ''LAD'', lgID = Some ''NL'',
          name = Some ''Los Angeles Dodgers'', W = 71, L = 83, G = 154, W_pct = Fin 0.461\<rparr>] mp
        = [a, b] \<and>
      canonical_franchise a = Some ''LAD'' \<and> canonical_franchise b = Some ''LAD'' \<and>
      split_at 1958 a \<and> split_at 1958 b \<and>
      pre_relocation a \<and> \<not> post_relocation a \<and> years_since_relocation a = None \<and>
      \<not> pre_relocation b \<and> post_relocation b \<and> years_since_relocation b = Some 0)"
proof -
  let ?df = "[\<lparr>yearID = 1957, teamID = Some ''BRO'', franchID = Some ''LAD'', lgID = Some ''NL'',
          name = Some ''Brooklyn Dodgers'', W = 84, L = 70, G = 154, W_pct = Fin 0.545\<rparr>,
         \<lparr>yearID = 1958, teamID = Some ''LAN'', franchID = Some ''LAD'', lgID = Some ''NL'',
          name = Some ''Los Angeles Dodgers'', W = 71, L = 83, G = 154, W_pct = Fin 0.461\<rparr>]"
  let ?C = "\<lparr>lineages = CorrectedFranchiseMapper_lineages,
            lahman_to_canonical = map_of (id_pairs CorrectedFranchiseMapper_lineages)\<rparr>"
  let ?F = "\<lparr>lineages = FranchiseMapper_lineages,
            lahman_to_canonical = map_of (id_pairs FranchiseMapper_lineages)\<rparr>"
  let ?LC = "\<lparr>canonical_id = ''LAD'', current_name = ''Los Angeles Dodgers'',
       lahman_ids = [''LAD''],
       relocations = [RelocationEvent_init 1958 ''Brooklyn'' ''Los Angeles'' ''Brooklyn Dodgers''
                        ''Los Angeles Dodgers''],
       founded_year = 1884,
       lineage_notes = ''Brooklyn era uses teamID BRO but franchID LAD in Lahman data''\<rparr>"
  let ?LF = "\<lparr>canonical_id = ''LAD'', current_name = ''Los Angeles Dodgers'',
       lahman_ids = [''BRO'', ''LAD'', ''LAN''],
       relocations = [RelocationEvent_init 1958 ''Brooklyn'' ''Los Angeles'' ''Brooklyn Dodgers''
                        ''Los Angeles Dodgers''],
       founded_year = 1884,
       lineage_notes = ''Brooklyn era uses teamID BRO but franchID LAD in Lahman data''\<rparr>"
  have dC: "distinct (map fst (lineages ?C))" by (simp add: distinct_CorrectedFranchiseMapper_keys)
  have dF: "distinct (map fst (lineages ?F))" by (simp add: distinct_FranchiseMapper_keys)
  have lC: "map_of (lineages ?C) ''LAD'' = Some ?LC" by (simp add: CorrectedFranchiseMapper_LAD)
  have lF: "map_of (lineages ?F) ''LAD'' = Some ?LF" by (simp add: FranchiseMapper_LAD)
  have rC: "relocations ?LC \<noteq> []" and rF: "relocations ?LF \<noteq> []" by simp_all
  have mC: "Max (year ` set (relocations ?LC)) = 1958"
    and mF: "Max (year ` set (relocations ?LF)) = 1958"
    by (simp_all add: RelocationEvent_init_def)
  obtain a b where eC: "get_analysis_ready_data ?C ?df = [a, b]"
    and cC: "canonical_franchise a = Some ''LAD''" "canonical_franchise b = Some ''LAD''"
    and vC: "pre_relocation a" "\<not> post_relocation a" "years_since_relocation a = None"
      "\<not> pre_relocation b" "post_relocation b" "years_since_relocation b = Some 0"
    by (simp add: get_analysis_ready_data_rows [OF dC] in_keys_def CorrectedFranchiseMapper_LAD
        analysis_row_of_def analysis_defaults_def map_dict_def Let_def analysis_lineage_row_def
        annotate_lineage_row_def RelocationEvent_init_def era_row_def in_era_window_def)
  obtain c d where eF: "create_annotated_dataset ?df ?F = [c, d]"
    and cF: "canonical_franchise c = Some ''LAD''" "canonical_franchise d = Some ''LAD''"
    and vF: "pre_relocation c" "\<not> post_relocation c" "years_since_relocation c = None"
      "\<not> pre_relocation d" "post_relocation d" "years_since_relocation d = Some 0"
    by (simp add: create_annotated_dataset_rows [OF dF] FranchiseMapper_LAD
        annotate_row_def annotated_defaults_def map_dict_def Let_def
        annotate_lineage_row_def RelocationEvent_init_def)
  from relocated_rows_partition [OF dC lC rC, of ?df] eC cC
  have sC: "split_at 1958 a" "split_at 1958 b" unfolding mC by simp_all
  from relocated_rows_partition [OF dF lF rF, of ?df] eF cF
  have sF: "split_at 1958 c" "split_at 1958 d" unfolding mF by simp_all
  have "\<exists>mp lineage a b.
      init_mapper CorrectedFranchiseMapper_lineages = Inr mp \<and>
      distinct (map fst (lineages mp)) \<and>
      map_of (lineages mp) ''LAD'' = Some lineage \<and>
      relocations lineage \<noteq> [] \<and> Max (year ` set (relocations lineage)) = 1958 \<and>
      get_analysis_ready_data mp ?df = [a, b] \<and>
      canonical_franchise a = Some ''LAD'' \<and> canonical_franchise b = Some ''LAD'' \<and>
      split_at 1958 a \<and> split_at 1958 b \<and>
      pre_relocation a \<and> \<not> post_relocation a \<and> years_since_relocation a = None \<and>
      \<not> pre_relocation b \<and> post_relocation b \<and> years_since_relocation b = Some 0"
    using init_CorrectedFranchiseMapper dC lC rC mC eC cC sC vC by blast
  moreover have "\<exists>mp lineage a b.
      init_mapper FranchiseMapper_lineages = Inr mp \<and>
      distinct (map fst (lineages mp)) \<and>
      map_of (lineages mp) ''LAD'' = Some lineage \<and>
      relocations lineage \<noteq> [] \<and> Max (year ` set (relocations lineage)) = 1958 \<and>
      create_annotated_dataset ?df mp = [a, b] \<and>
      canonical_franchise a = Some ''LAD'' \<and> canonical_franchise b = Some ''LAD'' \<and>
      split_at 1958 a \<and> split_at 1958 b \<and>
      pre_relocation a \<and> \<not> post_relocation a \<and> years_since_relocation a = None \<and>
      \<not> pre_relocation b \<and> post_relocation b \<and> years_since_relocation b = Some 0"
    using init_FranchiseMapper dF lF rF mF eF cF sF vF by blast
  ultimately show ?thesis by blast
qed


lemma era_row_outside: "\<not> in_era_window a (yearID y) \<Longrightarrow> era_row y a = y"
  by (simp add: era_row_def)

lemma era_row_inside:
  "in_era_window a (yearID y) \<Longrightarrow> relocation_era (era_row y a) = era_label (year a)"
  by (simp add: era_row_def)

lemma relocation_era_rows_last:
  "relocation_era (foldl era_row x rels)
     = (case filter (\<lambda>rel. in_era_window rel (yearID x)) rels of
          [] \<Rightarrow> relocation_era x
        | m # ms \<Rightarrow> era_label (year (last (m # ms))))"
proof (induction rels rule: rev_induct)
  case Nil
  show ?case by simp
next
  case (snoc a rels)
  have step: "foldl era_row x (rels @ [a]) = era_row (foldl era_row x rels) a" by simp
  show ?case
  proof (cases "in_era_window a (yearID x)")
    case True
    then have e: "relocation_era (foldl era_row x (rels @ [a])) = era_label (year a)"
      unfolding step by (intro era_row_inside) simp
    from True have f: "filter (\<lambda>rel. in_era_window rel (yearID x)) (rels @ [a])
        = filter (\<lambda>rel. in_era_window rel (yearID x)) rels @ [a]"
      by simp
    show ?thesis
      unfolding e f by (cases "filter (\<lambda>rel. in_era_window rel (yearID x)) rels") simp_all
  next
    case False
    then have "era_row (foldl era_row x rels) a = foldl era_row x rels"
      by (intro era_row_outside) simp
    moreover from False have "filter (\<lambda>rel. in_era_window rel (yearID x)) (rels @ [a])
        = filter (\<lambda>rel. in_era_window rel (yearID x)) rels"
      by simp
    ultimately show ?thesis unfolding step using snoc.IH by simp
  qed
qed

lemma CorrectedFranchiseMapper_ATL:
  "map_of (id_pairs CorrectedFranchiseMapper_lineages) ''ATL'' = Some ''ATL''"
  "\<exists>lineage. map_of CorrectedFranchiseMapper_lineages ''ATL'' = Some lineage \<and>
     relocations lineage =
       [RelocationEvent_init 1953 ''Boston'' ''Milwaukee'' ''Boston Braves'' ''Milwaukee Braves'',
        RelocationEvent_init 1966 ''Milwaukee'' ''Atlanta'' ''Milwaukee Braves'' ''Atlanta Braves'']"
  by (simp_all add: CorrectedFranchiseMapper_lineages_def id_pairs_def)

lemma era_label_1953: "era_label 1953 = ''around_1953''"
  by (simp add: era_label_def str_int_def str_nat.simps digit_char_def)

lemma era_label_1966: "era_label 1966 = ''around_1966''"
  by (simp add: era_label_def str_int_def str_nat.simps digit_char_def)

text \<open>Every row of the ATL lineage, as the corrected mapper annotates it.\<close>

lemma CorrectedFranchiseMapper_ATL_row:
  assumes "init_mapper CorrectedFranchiseMapper_lineages = Inr mp" "franchID r = Some ''ATL''"
  shows "get_analysis_ready_data mp [r] =
     [(analysis_defaults (lahman_to_canonical mp) r)
        \<lparr>is_relocated_franchise := True,
         relocation_year := Some 1966,
         pre_relocation := yearID r < 1966,
         post_relocation := 1966 \<le> yearID r,
         years_since_relocation := (if 1966 \<le> yearID r then Some (yearID r - 1966) else None),
         relocation_era :=
           (if 1963 \<le> yearID r \<and> yearID r \<le> 1969 then ''around_1966''
            else if 1950 \<le> yearID r \<and> yearID r \<le> 1956 then ''around_1953''
            else ''none'')\<rparr>]"
proof -
  from assms(1) have mp: "lineages mp = CorrectedFranchiseMapper_lineages"
    "lahman_to_canonical mp = map_of (id_pairs CorrectedFranchiseMapper_lineages)"
    by (simp_all add: init_mapper_Inr)
  have d: "distinct (map fst (lineages mp))"
    by (simp add: mp distinct_CorrectedFranchiseMapper_keys)
  from CorrectedFranchiseMapper_ATL(2) obtain lineage where
    lin: "map_of (lineages mp) ''ATL'' = Some lineage"
    and rel: "relocations lineage =
       [RelocationEvent_init 1953 ''Boston'' ''Milwaukee'' ''Boston Braves'' ''Milwaukee Braves'',
        RelocationEvent_init 1966 ''Milwaukee'' ''Atlanta'' ''Milwaukee Braves'' ''Atlanta Braves'']"
    unfolding mp by blast
  have key: "lahman_to_canonical mp ''ATL'' = Some ''ATL''"
    by (simp add: mp CorrectedFranchiseMapper_ATL(1))
  have "get_analysis_ready_data mp [r] = [analysis_row_of mp r]"
    by (simp add: get_analysis_ready_data_rows [OF d] assms(2) in_keys_def key)
  also have "analysis_row_of mp r
      = foldl era_row (annotate_lineage_row ''ATL'' lineage
          (analysis_defaults (lahman_to_canonical mp) r)) (relocations lineage)"
    by (simp add: analysis_row_of_def Let_def analysis_defaults_def map_dict_def assms(2) key lin
        analysis_lineage_row_def)
  also have "\<dots> = (analysis_defaults (lahman_to_canonical mp) r)
        \<lparr>is_relocated_franchise := True,
         relocation_year := Some 1966,
         pre_relocation := yearID r < 1966,
         post_relocation := 1966 \<le> yearID r,
         years_since_relocation := (if 1966 \<le> yearID r then Some (yearID r - 1966) else None),
         relocation_era :=
           (if 1963 \<le> yearID r \<and> yearID r \<le> 1969 then ''around_1966''
            else if 1950 \<le> yearID r \<and> yearID r \<le> 1956 then ''around_1953''
            else ''none'')\<rparr>"
    by (simp add: rel annotate_lineage_row_def RelocationEvent_init_def era_row_def
        in_era_window_def analysis_defaults_def map_dict_def assms(2) key
        era_label_1953 era_label_1966)
  finally show ?thesis .
qed

lemma get_analysis_ready_data_append:
  assumes "distinct (map fst (lineages mp))"
  shows "get_analysis_ready_data mp (xs @ ys)
     = get_analysis_ready_data mp xs @ get_analysis_ready_data mp ys"
  by (simp add: get_analysis_ready_data_rows [OF assms])


lemma relocation_era_analysis_row_of:
  assumes "canonical_franchise (analysis_row_of mp r) = Some cid"
    "map_of (lineages mp) cid = Some lineage"
  shows "relocation_era (analysis_row_of mp r)
     = (case filter (\<lambda>rel. in_era_window rel (yearID r)) (relocations lineage) of
          [] \<Rightarrow> ''none''
        | m # ms \<Rightarrow> era_label (year (last (m # ms))))"
proof -
  let ?x = "analysis_defaults (lahman_to_canonical mp) r"
  from assms(1) have c: "canonical_franchise ?x = Some cid"
    by (simp add: analysis_row_of_def Let_def split: option.splits)
  with assms(2) have a: "analysis_row_of mp r
      = foldl era_row (annotate_lineage_row cid lineage ?x) (relocations lineage)"
    by (simp add: analysis_row_of_def Let_def analysis_lineage_row_def)
  have y: "yearID (annotate_lineage_row cid lineage ?x) = yearID r"
    by (simp add: annotate_lineage_row_def analysis_defaults_def split: list.splits)
  have e: "relocation_era (annotate_lineage_row cid lineage ?x) = ''none''"
    by (simp add: annotate_lineage_row_def analysis_defaults_def split: list.splits)
  show ?thesis unfolding a relocation_era_rows_last y e ..
qed

lemma relocation_year_analysis_row_of:
  assumes "canonical_franchise (analysis_row_of mp r) = Some cid"
    "map_of (lineages mp) cid = Some lineage" "relocations lineage \<noteq> []"
  shows "relocation_year (analysis_row_of mp r) = Some (Max (year ` set (relocations lineage)))"
proof -
  let ?x = "analysis_defaults (lahman_to_canonical mp) r"
  from assms(3) obtain e es where rel: "relocations lineage = e # es"
    by (cases "relocations lineage") auto
  from assms(1) have c: "canonical_franchise ?x = Some cid"
    by (simp add: analysis_row_of_def Let_def split: option.splits)
  with assms(2) have a: "analysis_row_of mp r
      = foldl era_row (annotate_lineage_row cid lineage ?x) (relocations lineage)"
    by (simp add: analysis_row_of_def Let_def analysis_lineage_row_def)
  have "relocation_year (annotate_lineage_row cid lineage ?x)
      = Some (Max (year ` set (relocations lineage)))"
    using c by (simp add: annotate_lineage_row_def rel year_max_by_year [symmetric] del: set_simps)
  then show ?thesis unfolding a relocation_year_era_rows .
qed

lemma yearID_analysis_row_of: "yearID (analysis_row_of mp r) = yearID r"
  by (simp add: analysis_row_of_def Let_def analysis_lineage_row_def annotate_lineage_row_def
      analysis_defaults_def split: option.splits list.splits)

text \<open>
  The label of a year, among relocations of the years 1953 and 1966: the windows are
  1950 to 1956 and 1963 to 1969.
\<close>

lemma era_1953_1966:
  assumes "year ` set rels = {1953, 1966}"
  shows "(case filter (\<lambda>rel. in_era_window rel y) rels of
            [] \<Rightarrow> ''none''
          | m # ms \<Rightarrow> era_label (year (last (m # ms))))
       = (if 1950 \<le> y \<and> y \<le> 1956 then ''around_1953''
          else if 1963 \<le> y \<and> y \<le> 1969 then ''around_1966'' else ''none'')"
proof (cases "filter (\<lambda>rel. in_era_window rel y) rels")
  case Nil
  then have out: "\<forall>rel \<in> set rels. \<not> in_era_window rel y"
    by (simp add: filter_empty_conv)
  have "1953 \<in> year ` set rels" "1966 \<in> year ` set rels"
    unfolding assms by simp_all
  then obtain a b where a: "1953 = year a" "a \<in> set rels" and b: "1966 = year b" "b \<in> set rels"
    by (elim imageE)
  from out a(2) have na: "\<not> in_era_window a y" by (rule bspec)
  from out b(2) have nb: "\<not> in_era_window b y" by (rule bspec)
  from na have c1: "\<not> (1950 \<le> y \<and> y \<le> 1956)"
    unfolding in_era_window_def a(1) [symmetric] by simp
  from nb have c2: "\<not> (1963 \<le> y \<and> y \<le> 1969)"
    unfolding in_era_window_def b(1) [symmetric] by simp
  show ?thesis unfolding Nil list.case using c1 c2 by simp
next
  case (Cons m ms)
  have "last (m # ms) \<in> set (m # ms)" by (rule last_in_set) simp
  then have "last (m # ms) \<in> set (filter (\<lambda>rel. in_era_window rel y) rels)"
    unfolding Cons .
  then have l: "last (m # ms) \<in> set rels" "in_era_window (last (m # ms)) y" by simp_all
  from l(1) have "year (last (m # ms)) \<in> year ` set rels" by (rule imageI)
  then have "year (last (m # ms)) = 1953 \<or> year (last (m # ms)) = 1966"
    unfolding assms by simp
  then show ?thesis
  proof
    assume h: "year (last (m # ms)) = 1953"
    from l(2) have c: "1950 \<le> y \<and> y \<le> 1956" unfolding in_era_window_def h by simp
    have "era_label (year (last (m # ms))) = ''around_1953''"
      unfolding h by (rule era_label_1953)
    then show ?thesis unfolding Cons list.case using c by simp
  next
    assume h: "year (last (m # ms)) = 1966"
    from l(2) have c: "1963 \<le> y \<and> y \<le> 1969" unfolding in_era_window_def h by simp
    then have n: "\<not> (1950 \<le> y \<and> y \<le> 1956)" by simp
    have "era_label (year (last (m # ms))) = ''around_1966''"
      unfolding h by (rule era_label_1966)
    then show ?thesis unfolding Cons list.case using c n by simp
  qed
qed

text \<open>
  C3, as amended. In the output of \<open>get_analysis_ready_data\<close>, every row of a lineage
  with at least one relocation has the maximum relocation year as its
  \<open>relocation_year\<close>, and its \<open>relocation_era\<close> is the label of the last relocation, in
  the order of the lineage's list, whose window of three years on either side contains
  the row's year; it is \<open>none\<close> when no window contains the year. For every lineage whose
  relocation years are 1953 and 1966, as those of the ATL lineage of the corrected mapper
  are, 1966 is the only split year: the row of 1960 is pre-relocation, the row of 1970 is
  post-relocation with \<open>years_since_relocation = 4\<close>, the row of 1955 has era
  \<open>around_1953\<close> and the row of 1965 has era \<open>around_1966\<close>. The windows of 1953 and 1966
  are 1950 to 1956 and 1963 to 1969: they share no year, 1965 lies in the second only,
  and no label is overwritten. The keys of \<open>lineages\<close> are distinct, as the keys of a
  dict are.
\<close>

theorem two_relocations_annotation:
  assumes "distinct (map fst (lineages mp))"
    and "map_of (lineages mp) cid = Some lineage"
    and "relocations lineage \<noteq> []"
  shows "(\<forall>a \<in> set (get_analysis_ready_data mp df). canonical_franchise a = Some cid \<longrightarrow>
            relocation_year a = Some (Max (year ` set (relocations lineage))) \<and>
            relocation_era a =
              (case filter (\<lambda>rel. year rel - 3 \<le> yearID a \<and> yearID a \<le> year rel + 3)
                      (relocations lineage) of
                 [] \<Rightarrow> ''none''
               | m # ms \<Rightarrow> ''around_'' @ str_int (year (last (m # ms)))) \<and>
            (year ` set (relocations lineage) = {1953, 1966} \<longrightarrow>
               relocation_year a = Some 1966 \<and>
               pre_relocation a = (yearID a < 1966) \<and>
               post_relocation a = (1966 \<le> yearID a) \<and>
               years_since_relocation a =
                 (if 1966 \<le> yearID a then Some (yearID a - 1966) else None) \<and>
               relocation_era a =
                 (if 1950 \<le> yearID a \<and> yearID a \<le> 1956 then ''around_1953''
                  else if 1963 \<le> yearID a \<and> yearID a \<le> 1969 then ''around_1966''
                  else ''none'') \<and>
               (yearID a = 1960 \<longrightarrow>
                  pre_relocation a \<and> \<not> post_relocation a \<and> relocation_era a = ''none'') \<and>
               (yearID a = 1970 \<longrightarrow>
                  post_relocation a \<and> \<not> pre_relocation a \<and>
                  years_since_relocation a = Some 4 \<and> relocation_era a = ''none'') \<and>
               (yearID a = 1955 \<longrightarrow> pre_relocation a \<and> relocation_era a = ''around_1953'') \<and>
               (yearID a = 1965 \<longrightarrow> pre_relocation a \<and> relocation_era a = ''around_1966'')))
       \<and> (\<exists>atl. map_of CorrectedFranchiseMapper_lineages ''ATL'' = Some atl \<and>
             map year (relocations atl) = [1953, 1966])"
proof (intro conjI ballI impI)
  fix a
  assume "a \<in> set (get_analysis_ready_data mp df)" and c: "canonical_franchise a = Some cid"
  then obtain r where a: "a = analysis_row_of mp r"
    by (auto simp: get_analysis_ready_data_rows [OF assms(1)])
  note c' = c [unfolded a]
  show y: "relocation_year a = Some (Max (year ` set (relocations lineage)))"
    unfolding a by (rule relocation_year_analysis_row_of [OF c' assms(2,3)])
  have e: "relocation_era a =
      (case filter (\<lambda>rel. in_era_window rel (yearID a)) (relocations lineage) of
         [] \<Rightarrow> ''none''
       | m # ms \<Rightarrow> era_label (year (last (m # ms))))"
    unfolding a yearID_analysis_row_of by (rule relocation_era_analysis_row_of [OF c' assms(2)])
  then show "relocation_era a =
      (case filter (\<lambda>rel. year rel - 3 \<le> yearID a \<and> yearID a \<le> year rel + 3)
              (relocations lineage) of
         [] \<Rightarrow> ''none''
       | m # ms \<Rightarrow> ''around_'' @ str_int (year (last (m # ms))))"
    unfolding in_era_window_def era_label_def .
  have s: "split_at (Max (year ` set (relocations lineage))) a"
    unfolding a by (rule split_at_analysis_row_of [OF c' assms(2,3)])
  assume h: "year ` set (relocations lineage) = {1953, 1966}"
  then have m: "Max (year ` set (relocations lineage)) = 1966" by simp
  from y m show "relocation_year a = Some 1966" by simp
  from s m show pre: "pre_relocation a = (yearID a < 1966)"
    and post: "post_relocation a = (1966 \<le> yearID a)"
    and since: "years_since_relocation a =
       (if 1966 \<le> yearID a then Some (yearID a - 1966) else None)"
    by (simp_all add: split_at_def)
  from e show era: "relocation_era a =
       (if 1950 \<le> yearID a \<and> yearID a \<le> 1956 then ''around_1953''
        else if 1963 \<le> yearID a \<and> yearID a \<le> 1969 then ''around_1966''
        else ''none'')"
    by (simp only: era_1953_1966 [OF h])
  {
    assume "yearID a = 1960"
    with pre post era show "pre_relocation a" "\<not> post_relocation a" "relocation_era a = ''none''"
      by simp_all
  }
  {
    assume "yearID a = 1970"
    with pre post since era show "post_relocation a" "\<not> pre_relocation a"
      "years_since_relocation a = Some 4" "relocation_era a = ''none''"
      by simp_all
  }
  {
    assume "yearID a = 1955"
    with pre era show "pre_relocation a" "relocation_era a = ''around_1953''" by simp_all
  }
  {
    assume "yearID a = 1965"
    with pre era show "pre_relocation a" "relocation_era a = ''around_1966''" by simp_all
  }
next
  from CorrectedFranchiseMapper_ATL(2) obtain atl where
    "map_of CorrectedFranchiseMapper_lineages ''ATL'' = Some atl"
    "relocations atl =
       [RelocationEvent_init 1953 ''Boston'' ''Milwaukee'' ''Boston Braves'' ''Milwaukee Braves'',
        RelocationEvent_init 1966 ''Milwaukee'' ''Atlanta'' ''Milwaukee Braves'' ''Atlanta Braves'']"
    by blast
  then have "map_of CorrectedFranchiseMapper_lineages ''ATL'' = Some atl \<and>
      map year (relocations atl) = [1953, 1966]"
    by (simp add: RelocationEvent_init_def)
  then show "\<exists>atl. map_of CorrectedFranchiseMapper_lineages ''ATL'' = Some atl \<and>
      map year (relocations atl) = [1953, 1966]"
    by (rule exI)
qed

text \<open>
  Against C3 as stated: the row of 1965 is not in the overlap of the two windows. The era
  loop's iteration for the relocation of 1953 leaves that row as it is.
\<close>

theorem atl_1965_outside_1953_window:
  "\<not> in_era_window
       (RelocationEvent_init 1953 ''Boston'' ''Milwaukee'' ''Boston Braves'' ''Milwaukee Braves'')
       1965
   \<and> assign_era [True]
       [\<lparr>yearID = 1965, teamID = Some ''ML1'', franchID = Some ''ATL'', lgID = Some ''NL'',
         name = Some ''Milwaukee Braves'', W = 86, L = 76, G = 162, W_pct = Fin 0.531,
         canonical_franchise = Some ''ATL'', is_relocated_franchise = True,
         relocation_year = Some 1966, pre_relocation = True, post_relocation = False,
         years_since_relocation = None, relocation_era = ''none''\<rparr>]
       (RelocationEvent_init 1953 ''Boston'' ''Milwaukee'' ''Boston Braves'' ''Milwaukee Braves'')
     = [\<lparr>yearID = 1965, teamID = Some ''ML1'', franchID = Some ''ATL'', lgID = Some ''NL'',
         name = Some ''Milwaukee Braves'', W = 86, L = 76, G = 162, W_pct = Fin 0.531,
         canonical_franchise = Some ''ATL'', is_relocated_franchise = True,
         relocation_year = Some 1966, pre_relocation = True, post_relocation = False,
         years_since_relocation = None, relocation_era = ''none''\<rparr>]"
  by (simp add: in_era_window_def RelocationEvent_init_def assign_era_def mask_and_def
      loc_assign_def)


lemma era_label_1956: "era_label 1956 = ''around_1956''"
  by (simp add: era_label_def str_int_def str_nat.simps digit_char_def)

lemma canonical_franchise_analysis_row_of:
  "canonical_franchise (analysis_row_of mp r) = map_dict (lahman_to_canonical mp) (franchID r)"
  by (simp add: analysis_row_of_def Let_def analysis_defaults_def split: option.splits)

theorem two_relocations_annotation_witness:
  "(\<exists>mp atl.
      init_mapper CorrectedFranchiseMapper_lineages = Inr mp \<and>
      distinct (map fst (lineages mp)) \<and>
      map_of (lineages mp) ''ATL'' = Some atl \<and>
      relocations atl \<noteq> [] \<and> year ` set (relocations atl) = {1953, 1966} \<and>
      map (\<lambda>a. (yearID a, relocation_year a, pre_relocation a, post_relocation a,
                years_since_relocation a, relocation_era a))
        (get_analysis_ready_data mp
          [\<lparr>yearID = 1960, teamID = Some ''ML1'', franchID = Some ''ATL'', lgID = Some ''NL'',
            name = Some ''Milwaukee Braves'', W = 88, L = 66, G = 154, W_pct = Fin 0.571\<rparr>,
           \<lparr>yearID = 1970, teamID = Some ''ATL'', franchID = Some ''ATL'', lgID = Some ''NL'',
            name = Some ''Atlanta Braves'', W = 76, L = 86, G = 162, W_pct = Fin 0.469\<rparr>,
           \<lparr>yearID = 1955, teamID = Some ''ML1'', franchID = Some ''ATL'', lgID = Some ''NL'',
            name = Some ''Milwaukee Braves'', W = 85, L = 69, G = 154, W_pct = Fin 0.552\<rparr>,
           \<lparr>yearID = 1965, teamID = Some ''ML1'', franchID = Some ''ATL'', lgID = Some ''NL'',
            name = Some ''Milwaukee Braves'', W = 86, L = 76, G = 162, W_pct = Fin 0.531\<rparr>])
      = [(1960, Some 1966, True, False, None, ''none''),
         (1970, Some 1966, False, True, Some 4, ''none''),
         (1955, Some 1966, True, False, None, ''around_1953''),
         (1965, Some 1966, True, False, None, ''around_1966'')])
   \<and> (\<exists>mp lineage.
      init_mapper
        [(''BSN'',
          \<lparr>canonical_id = ''BSN'', current_name = ''Braves'', lahman_ids = [''BSN''],
           relocations = [RelocationEvent_init 1953 ''Boston'' ''Milwaukee'' ''Braves'' ''Braves'',
                          RelocationEvent_init 1956 ''Milwaukee'' ''Atlanta'' ''Braves'' ''Braves''],
           founded_year = 1876, lineage_notes = []\<rparr>)] = Inr mp \<and>
      distinct (map fst (lineages mp)) \<and>
      map_of (lineages mp) ''BSN'' = Some lineage \<and>
      relocations lineage \<noteq> [] \<and> map year (relocations lineage) = [1953, 1956] \<and>
      map (\<lambda>a. (yearID a, relocation_year a, relocation_era a))
        (get_analysis_ready_data mp
          [\<lparr>yearID = 1955, teamID = Some ''BSN'', franchID = Some ''BSN'', lgID = Some ''NL'',
            name = Some ''Braves'', W = 85, L = 69, G = 154, W_pct = Fin 0.552\<rparr>,
           \<lparr>yearID = 1952, teamID = Some ''BSN'', franchID = Some ''BSN'', lgID = Some ''NL'',
            name = Some ''Braves'', W = 64, L = 89, G = 153, W_pct = Fin 0.418\<rparr>])
      = [(1955, Some 1956, ''around_1956''), (1952, Some 1956, ''around_1953'')])"
proof (rule conjI)
  define df where "df =
          [\<lparr>yearID = 1960, teamID = Some ''ML1'', franchID = Some ''ATL'', lgID = Some ''NL'',
            name = Some ''Milwaukee Braves'', W = 88, L = 66, G = 154, W_pct = Fin 0.571\<rparr>,
           \<lparr>yearID = 1970, teamID = Some ''ATL'', franchID = Some ''ATL'', lgID = Some ''NL'',
            name = Some ''Atlanta Braves'', W = 76, L = 86, G = 162, W_pct = Fin 0.469\<rparr>,
           \<lparr>yearID = 1955, teamID = Some ''ML1'', franchID = Some ''ATL'', lgID = Some ''NL'',
            name = Some ''Milwaukee Braves'', W = 85, L = 69, G = 154, W_pct = Fin 0.552\<rparr>,
           \<lparr>yearID = 1965, teamID = Some ''ML1'', franchID = Some ''ATL'', lgID = Some ''NL'',
            name = Some ''Milwaukee Braves'', W = 86, L = 76, G = 162, W_pct = Fin 0.531\<rparr>]"
  define C where "C = \<lparr>lineages = CorrectedFranchiseMapper_lineages,
            lahman_to_canonical = map_of (id_pairs CorrectedFranchiseMapper_lineages)\<rparr>"
  have i: "init_mapper CorrectedFranchiseMapper_lineages = Inr C"
    unfolding C_def by (rule init_CorrectedFranchiseMapper)
  have d: "distinct (map fst (lineages C))"
    by (simp add: C_def distinct_CorrectedFranchiseMapper_keys)
  from CorrectedFranchiseMapper_ATL(2) obtain atl where
    lin: "map_of (lineages C) ''ATL'' = Some atl"
    and rel: "relocations atl =
       [RelocationEvent_init 1953 ''Boston'' ''Milwaukee'' ''Boston Braves'' ''Milwaukee Braves'',
        RelocationEvent_init 1966 ''Milwaukee'' ''Atlanta'' ''Milwaukee Braves'' ''Atlanta Braves'']"
    unfolding C_def by auto
  from rel have ne: "relocations atl \<noteq> []" by simp
  from rel have ys: "year ` set (relocations atl) = {1953, 1966}"
    by (simp add: RelocationEvent_init_def)
  have key: "lahman_to_canonical C ''ATL'' = Some ''ATL''"
    by (simp add: C_def CorrectedFranchiseMapper_ATL(1))
  have out: "get_analysis_ready_data C df = map (analysis_row_of C) df"
    by (simp add: get_analysis_ready_data_rows [OF d] df_def in_keys_def key)
  have can: "canonical_franchise a = Some ''ATL''" if "a \<in> set (get_analysis_ready_data C df)" for a
    using that unfolding out
    by (auto simp: df_def canonical_franchise_analysis_row_of map_dict_def key)
  have years: "map yearID (get_analysis_ready_data C df) = [1960, 1970, 1955, 1965]"
    unfolding out by (simp add: df_def yearID_analysis_row_of)
  note t = conjunct1 [OF two_relocations_annotation [OF d lin ne, of df]]
  have "map (\<lambda>a. (yearID a, relocation_year a, pre_relocation a, post_relocation a,
                years_since_relocation a, relocation_era a)) (get_analysis_ready_data C df)
      = map (\<lambda>a. (yearID a, Some 1966, yearID a < 1966, 1966 \<le> yearID a,
                (if 1966 \<le> yearID a then Some (yearID a - 1966) else None),
                (if 1950 \<le> yearID a \<and> yearID a \<le> 1956 then ''around_1953''
                 else if 1963 \<le> yearID a \<and> yearID a \<le> 1969 then ''around_1966''
                 else ''none''))) (get_analysis_ready_data C df)"
  proof (rule map_cong [OF refl])
    fix a
    assume a: "a \<in> set (get_analysis_ready_data C df)"
    note q = bspec [OF t a, THEN mp, OF can [OF a], THEN conjunct2, THEN conjunct2, THEN mp, OF ys]
    note q1 = q [THEN conjunct1]
    note q2 = q [THEN conjunct2, THEN conjunct1]
    note q3 = q [THEN conjunct2, THEN conjunct2, THEN conjunct1]
    note q4 = q [THEN conjunct2, THEN conjunct2, THEN conjunct2, THEN conjunct1]
    note q5 = q [THEN conjunct2, THEN conjunct2, THEN conjunct2, THEN conjunct2, THEN conjunct1]
    show "(yearID a, relocation_year a, pre_relocation a, post_relocation a,
                years_since_relocation a, relocation_era a)
      = (yearID a, Some 1966, yearID a < 1966, 1966 \<le> yearID a,
                (if 1966 \<le> yearID a then Some (yearID a - 1966) else None),
                (if 1950 \<le> yearID a \<and> yearID a \<le> 1956 then ''around_1953''
                 else if 1963 \<le> yearID a \<and> yearID a \<le> 1969 then ''around_1966''
                 else ''none''))"
      unfolding q1 q2 q3 q4 q5 by (rule refl)
  qed
  also have "\<dots> = map (\<lambda>y. (y, Some 1966, y < 1966, 1966 \<le> y,
                (if 1966 \<le> y then Some (y - 1966) else None),
                (if 1950 \<le> y \<and> y \<le> 1956 then ''around_1953''
                 else if 1963 \<le> y \<and> y \<le> 1969 then ''around_1966''
                 else ''none''))) (map yearID (get_analysis_ready_data C df))"
    by (simp add: comp_def)
  also have "\<dots> = [(1960, Some 1966, True, False, None, ''none''),
         (1970, Some 1966, False, True, Some 4, ''none''),
         (1955, Some 1966, True, False, None, ''around_1953''),
         (1965, Some 1966, True, False, None, ''around_1966'')]"
    unfolding years by simp
  finally have r: "map (\<lambda>a. (yearID a, relocation_year a, pre_relocation a, post_relocation a,
                years_since_relocation a, relocation_era a)) (get_analysis_ready_data C df)
      = [(1960, Some 1966, True, False, None, ''none''),
         (1970, Some 1966, False, True, Some 4, ''none''),
         (1955, Some 1966, True, False, None, ''around_1953''),
         (1965, Some 1966, True, False, None, ''around_1966'')]" .
  show "\<exists>mp atl.
      init_mapper CorrectedFranchiseMapper_lineages = Inr mp \<and>
      distinct (map fst (lineages mp)) \<and>
      map_of (lineages mp) ''ATL'' = Some atl \<and>
      relocations atl \<noteq> [] \<and> year ` set (relocations atl) = {1953, 1966} \<and>
      map (\<lambda>a. (yearID a, relocation_year a, pre_relocation a, post_relocation a,
                years_since_relocation a, relocation_era a))
        (get_analysis_ready_data mp
          [\<lparr>yearID = 1960, teamID = Some ''ML1'', franchID = Some ''ATL'', lgID = Some ''NL'',
            name = Some ''Milwaukee Braves'', W = 88, L = 66, G = 154, W_pct = Fin 0.571\<rparr>,
           \<lparr>yearID = 1970, teamID = Some ''ATL'', franchID = Some ''ATL'', lgID = Some ''NL'',
            name = Some ''Atlanta Braves'', W = 76, L = 86, G = 162, W_pct = Fin 0.469\<rparr>,
           \<lparr>yearID = 1955, teamID = Some ''ML1'', franchID = Some ''ATL'', lgID = Some ''NL'',
            name = Some ''Milwaukee Braves'', W = 85, L = 69, G = 154, W_pct = Fin 0.552\<rparr>,
           \<lparr>yearID = 1965, teamID = Some ''ML1'', franchID = Some ''ATL'', lgID = Some ''NL'',
            name = Some ''Milwaukee Braves'', W = 86, L = 76, G = 162, W_pct = Fin 0.531\<rparr>])
      = [(1960, Some 1966, True, False, None, ''none''),
         (1970, Some 1966, False, True, Some 4, ''none''),
         (1955, Some 1966, True, False, None, ''around_1953''),
         (1965, Some 1966, True, False, None, ''around_1966'')]"
    unfolding df_def [symmetric]
    by (rule exI, rule exI, rule conjI, rule i, rule conjI, rule d, rule conjI, rule lin,
        rule conjI, rule ne, rule conjI, rule ys, rule r)
next
  define L where "L =
          \<lparr>canonical_id = ''BSN'', current_name = ''Braves'', lahman_ids = [''BSN''],
           relocations = [RelocationEvent_init 1953 ''Boston'' ''Milwaukee'' ''Braves'' ''Braves'',
                          RelocationEvent_init 1956 ''Milwaukee'' ''Atlanta'' ''Braves'' ''Braves''],
           founded_year = 1876, lineage_notes = []\<rparr>"
  define M where "M = \<lparr>lineages = [(''BSN'', L)],
      lahman_to_canonical = map_of (id_pairs [(''BSN'', L)])\<rparr>"
  define df where "df =
          [\<lparr>yearID = 1955, teamID = Some ''BSN'', franchID = Some ''BSN'', lgID = Some ''NL'',
            name = Some ''Braves'', W = 85, L = 69, G = 154, W_pct = Fin 0.552\<rparr>,
           \<lparr>yearID = 1952, teamID = Some ''BSN'', franchID = Some ''BSN'', lgID = Some ''NL'',
            name = Some ''Braves'', W = 64, L = 89, G = 153, W_pct = Fin 0.418\<rparr>]"
  have i: "init_mapper [(''BSN'', L)] = Inr M"
    by (simp add: init_mapper_Inr M_def all_ids_def L_def)
  have d: "distinct (map fst (lineages M))" by (simp add: M_def)
  have lin: "map_of (lineages M) ''BSN'' = Some L" by (simp add: M_def)
  have ne: "relocations L \<noteq> []" by (simp add: L_def)
  have ys: "map year (relocations L) = [1953, 1956]"
    by (simp add: L_def RelocationEvent_init_def)
  have key: "lahman_to_canonical M ''BSN'' = Some ''BSN''"
    by (simp add: M_def id_pairs_def L_def)
  have out: "get_analysis_ready_data M df = map (analysis_row_of M) df"
    by (simp add: get_analysis_ready_data_rows [OF d] df_def in_keys_def key)
  have can: "canonical_franchise a = Some ''BSN''" if "a \<in> set (get_analysis_ready_data M df)" for a
    using that unfolding out
    by (auto simp: df_def canonical_franchise_analysis_row_of map_dict_def key)
  have years: "map yearID (get_analysis_ready_data M df) = [1955, 1952]"
    unfolding out by (simp add: df_def yearID_analysis_row_of)
  have mx: "Max (year ` set (relocations L)) = 1956"
    by (simp add: L_def RelocationEvent_init_def)
  note t = conjunct1 [OF two_relocations_annotation [OF d lin ne, of df]]
  have "map (\<lambda>a. (yearID a, relocation_year a, relocation_era a)) (get_analysis_ready_data M df)
      = map (\<lambda>a. (yearID a, Some 1956,
            (case filter (\<lambda>rel. year rel - 3 \<le> yearID a \<and> yearID a \<le> year rel + 3)
                    (relocations L) of
               [] \<Rightarrow> ''none''
             | m # ms \<Rightarrow> ''around_'' @ str_int (year (last (m # ms))))))
          (get_analysis_ready_data M df)"
  proof (rule map_cong [OF refl])
    fix a
    assume a: "a \<in> set (get_analysis_ready_data M df)"
    note q = bspec [OF t a, THEN mp, OF can [OF a]]
    note q1 = q [THEN conjunct1, unfolded mx]
    note q2 = q [THEN conjunct2, THEN conjunct1]
    show "(yearID a, relocation_year a, relocation_era a)
      = (yearID a, Some 1956,
            (case filter (\<lambda>rel. year rel - 3 \<le> yearID a \<and> yearID a \<le> year rel + 3)
                    (relocations L) of
               [] \<Rightarrow> ''none''
             | m # ms \<Rightarrow> ''around_'' @ str_int (year (last (m # ms)))))"
      unfolding q1 q2 by (rule refl)
  qed
  also have "\<dots> = map (\<lambda>y. (y, Some 1956,
            (case filter (\<lambda>rel. year rel - 3 \<le> y \<and> y \<le> year rel + 3) (relocations L) of
               [] \<Rightarrow> ''none''
             | m # ms \<Rightarrow> ''around_'' @ str_int (year (last (m # ms))))))
          (map yearID (get_analysis_ready_data M df))"
    by (simp add: comp_def)
  also have "\<dots> = [(1955, Some 1956, ''around_1956''), (1952, Some 1956, ''around_1953'')]"
    unfolding years
    using era_label_1956 era_label_1953
    by (simp add: L_def RelocationEvent_init_def era_label_def)
  finally have r: "map (\<lambda>a. (yearID a, relocation_year a, relocation_era a))
        (get_analysis_ready_data M df)
      = [(1955, Some 1956, ''around_1956''), (1952, Some 1956, ''around_1953'')]" .
  show "\<exists>mp lineage.
      init_mapper
        [(''BSN'',
          \<lparr>canonical_id = ''BSN'', current_name = ''Braves'', lahman_ids = [''BSN''],
           relocations = [RelocationEvent_init 1953 ''Boston'' ''Milwaukee'' ''Braves'' ''Braves'',
                          RelocationEvent_init 1956 ''Milwaukee'' ''Atlanta'' ''Braves'' ''Braves''],
           founded_year = 1876, lineage_notes = []\<rparr>)] = Inr mp \<and>
      distinct (map fst (lineages mp)) \<and>
      map_of (lineages mp) ''BSN'' = Some lineage \<and>
      relocations lineage \<noteq> [] \<and> map year (relocations lineage) = [1953, 1956] \<and>
      map (\<lambda>a. (yearID a, relocation_year a, relocation_era a))
        (get_analysis_ready_data mp
          [\<lparr>yearID = 1955, teamID = Some ''BSN'', franchID = Some ''BSN'', lgID = Some ''NL'',
            name = Some ''Braves'', W = 85, L = 69, G = 154, W_pct = Fin 0.552\<rparr>,
           \<lparr>yearID = 1952, teamID = Some ''BSN'', franchID = Some ''BSN'', lgID = Some ''NL'',
            name = Some ''Braves'', W = 64, L = 89, G = 153, W_pct = Fin 0.418\<rparr>])
      = [(1955, Some 1956, ''around_1956''), (1952, Some 1956, ''around_1953'')]"
    unfolding df_def [symmetric] L_def [symmetric]
    by (rule exI, rule exI, rule conjI, rule i, rule conjI, rule d, rule conjI, rule lin,
        rule conjI, rule ne, rule conjI, rule ys, rule r)
qed

lemma truncate_annotated_defaults [simp]: "row.truncate (annotated_defaults d r) = r"
  by (simp add: annotated_defaults_def row.truncate_def)

lemma truncate_analysis_defaults [simp]: "row.truncate (analysis_defaults d r) = r"
  by (simp add: analysis_defaults_def row.truncate_def)

lemma truncate_annotate_lineage_row [simp]:
  "row.truncate (annotate_lineage_row k lin x) = row.truncate x"
  by (simp add: annotate_lineage_row_def row.truncate_def split: list.splits)

lemma truncate_era_rows [simp]: "row.truncate (foldl era_row x rels) = row.truncate x"
  by (induction rels arbitrary: x) (simp_all add: era_row_def row.truncate_def)

lemma truncate_annotate_row [simp]: "row.truncate (annotate_row mp r) = r"
  by (simp add: annotate_row_def Let_def split: option.splits)

lemma truncate_analysis_row_of [simp]: "row.truncate (analysis_row_of mp r) = r"
  by (simp add: analysis_row_of_def Let_def analysis_lineage_row_def split: option.splits)

lemma resolves_to_relocated_truncate:
  "resolves_to_relocated mp (row.truncate a) = resolves_to_relocated mp a"
  by (simp add: resolves_to_relocated_def row.truncate_def)

lemma annotate_row_not_relocated:
  assumes "\<not> resolves_to_relocated mp r"
  shows "annotate_row mp r = annotated_defaults (lahman_to_canonical mp) r"
proof (cases "canonical_franchise (annotated_defaults (lahman_to_canonical mp) r)")
  case None
  then show ?thesis by (simp add: annotate_row_def Let_def)
next
  case (Some cid)
  then obtain s where s: "franchID r = Some s" "lahman_to_canonical mp s = Some cid"
    by (auto simp: annotated_defaults_def map_dict_def split: option.splits)
  show ?thesis
  proof (cases "map_of (lineages mp) cid")
    case None
    with Some show ?thesis by (simp add: annotate_row_def Let_def)
  next
    case (Some lineage)
    with assms s have "relocations lineage = []"
      by (simp add: resolves_to_relocated_def get_canonical_franchise_def
          mapper_is_relocated_franchise_def)
    with Some \<open>canonical_franchise (annotated_defaults (lahman_to_canonical mp) r) = Some cid\<close>
    show ?thesis by (simp add: annotate_row_def Let_def annotate_lineage_row_def)
  qed
qed

lemma analysis_row_of_not_relocated:
  assumes "\<not> resolves_to_relocated mp r"
  shows "analysis_row_of mp r = analysis_defaults (lahman_to_canonical mp) r"
proof (cases "canonical_franchise (analysis_defaults (lahman_to_canonical mp) r)")
  case None
  then show ?thesis by (simp add: analysis_row_of_def Let_def)
next
  case (Some cid)
  then obtain s where s: "franchID r = Some s" "lahman_to_canonical mp s = Some cid"
    by (auto simp: analysis_defaults_def map_dict_def split: option.splits)
  show ?thesis
  proof (cases "map_of (lineages mp) cid")
    case None
    with Some show ?thesis by (simp add: analysis_row_of_def Let_def)
  next
    case (Some lineage)
    with assms s have "relocations lineage = []"
      by (simp add: resolves_to_relocated_def get_canonical_franchise_def
          mapper_is_relocated_franchise_def)
    with Some \<open>canonical_franchise (analysis_defaults (lahman_to_canonical mp) r) = Some cid\<close>
    show ?thesis
      by (simp add: analysis_row_of_def Let_def analysis_lineage_row_def annotate_lineage_row_def)
  qed
qed

text \<open>
  C4, as amended. \<open>create_annotated_dataset\<close> keeps every input row, in order and with
  its input columns unchanged; \<open>get_analysis_ready_data\<close> keeps, in order and unchanged,
  exactly the rows whose raw identifier is a key of the identifier map, and drops the
  others. In the output of either, a row whose identifier does not resolve to a franchise
  with a relocation (a null or unknown identifier, or a lineage with no relocation) has
  every relocation field at its default: \<open>is_relocated_franchise\<close>, \<open>pre_relocation\<close>
  and \<open>post_relocation\<close> false, \<open>relocation_year\<close> and \<open>years_since_relocation\<close>
  absent and, where the column exists, \<open>relocation_era\<close> equal to \<open>none\<close>.
\<close>

theorem annotators_row_retention:
  assumes "distinct (map fst (lineages mp))"
  shows "map row.truncate (create_annotated_dataset df mp) = df \<and>
         (\<forall>a \<in> set (create_annotated_dataset df mp). \<not> resolves_to_relocated mp a \<longrightarrow>
            a = annotated_defaults (lahman_to_canonical mp) (row.truncate a)) \<and>
         map row.truncate (get_analysis_ready_data mp df)
           = filter (\<lambda>r. in_keys (lahman_to_canonical mp) (franchID r)) df \<and>
         (\<forall>a \<in> set (get_analysis_ready_data mp df). \<not> resolves_to_relocated mp a \<longrightarrow>
            a = analysis_defaults (lahman_to_canonical mp) (row.truncate a))"
proof (intro conjI ballI impI)
  show "map row.truncate (create_annotated_dataset df mp) = df"
    by (simp add: create_annotated_dataset_rows [OF assms] comp_def)
  show "map row.truncate (get_analysis_ready_data mp df)
           = filter (\<lambda>r. in_keys (lahman_to_canonical mp) (franchID r)) df"
    by (simp add: get_analysis_ready_data_rows [OF assms] comp_def)
next
  fix a
  assume "a \<in> set (create_annotated_dataset df mp)" and n: "\<not> resolves_to_relocated mp a"
  then obtain r where a: "a = annotate_row mp r"
    by (auto simp: create_annotated_dataset_rows [OF assms])
  with n have "\<not> resolves_to_relocated mp r"
    using resolves_to_relocated_truncate [of mp a] by simp
  then show "a = annotated_defaults (lahman_to_canonical mp) (row.truncate a)"
    by (simp add: a annotate_row_not_relocated)
next
  fix a
  assume "a \<in> set (get_analysis_ready_data mp df)" and n: "\<not> resolves_to_relocated mp a"
  then obtain r where a: "a = analysis_row_of mp r"
    by (auto simp: get_analysis_ready_data_rows [OF assms])
  with n have "\<not> resolves_to_relocated mp r"
    using resolves_to_relocated_truncate [of mp a] by simp
  then show "a = analysis_defaults (lahman_to_canonical mp) (row.truncate a)"
    by (simp add: a analysis_row_of_not_relocated)
qed

text \<open>
  Against C4 as stated: the corrected mapper's annotator filters. A season of the
  Baltimore Orioles of 1882-1899 (raw identifier BLO, in no lineage) is dropped.
\<close>

theorem analysis_ready_data_drops_unmapped:
  "\<exists>mp. init_mapper CorrectedFranchiseMapper_lineages = Inr mp \<and>
     get_analysis_ready_data mp
       [\<lparr>yearID = 1899, teamID = Some ''BLN'', franchID = Some ''BLO'', lgID = Some ''NL'',
         name = Some ''Baltimore Orioles'', W = 86, L = 62, G = 148, W_pct = Fin 0.581\<rparr>]
     = []"
proof -
  have "map_of (id_pairs CorrectedFranchiseMapper_lineages) ''BLO'' = None"
    by (simp add: CorrectedFranchiseMapper_lineages_def id_pairs_def)
  then have "get_analysis_ready_data
       \<lparr>lineages = CorrectedFranchiseMapper_lineages,
         lahman_to_canonical = map_of (id_pairs CorrectedFranchiseMapper_lineages)\<rparr>
       [\<lparr>yearID = 1899, teamID = Some ''BLN'', franchID = Some ''BLO'', lgID = Some ''NL'',
         name = Some ''Baltimore Orioles'', W = 86, L = 62, G = 148, W_pct = Fin 0.581\<rparr>]
     = []"
    by (simp add: get_analysis_ready_data_rows distinct_CorrectedFranchiseMapper_keys in_keys_def)
  with init_CorrectedFranchiseMapper show ?thesis by blast
qed

lemma FranchiseMapper_HOU:
  "map_of (id_pairs FranchiseMapper_lineages) ''HOU'' = Some ''HOU''"
  "\<exists>lineage. map_of FranchiseMapper_lineages ''HOU'' = Some lineage \<and> relocations lineage = []"
  "map_of (id_pairs FranchiseMapper_lineages) ''BLO'' = None"
  by (simp_all add: FranchiseMapper_lineages_def id_pairs_def)

lemma CorrectedFranchiseMapper_HOU:
  "map_of (id_pairs CorrectedFranchiseMapper_lineages) ''HOU'' = Some ''HOU''"
  "\<exists>lineage. map_of CorrectedFranchiseMapper_lineages ''HOU'' = Some lineage \<and>
     relocations lineage = []"
  "map_of (id_pairs CorrectedFranchiseMapper_lineages) ''BLO'' = None"
  by (simp_all add: CorrectedFranchiseMapper_lineages_def id_pairs_def)

theorem annotators_row_retention_witness:
  "(\<exists>mp. init_mapper FranchiseMapper_lineages = Inr mp \<and> distinct (map fst (lineages mp)) \<and>
      create_annotated_dataset
        [\<lparr>yearID = 1899, teamID = Some ''BLN'', franchID = Some ''BLO'', lgID = Some ''NL'',
          name = Some ''Baltimore Orioles'', W = 86, L = 62, G = 148, W_pct = Fin 0.581\<rparr>,
         \<lparr>yearID = 2013, teamID = Some ''HOU'', franchID = Some ''HOU'', lgID = Some ''AL'',
          name = Some ''Houston Astros'', W = 51, L = 111, G = 162, W_pct = Fin 0.315\<rparr>] mp
      = [\<lparr>yearID = 1899, teamID = Some ''BLN'', franchID = Some ''BLO'', lgID = Some ''NL'',
          name = Some ''Baltimore Orioles'', W = 86, L = 62, G = 148, W_pct = Fin 0.581,
          canonical_franchise = None, is_relocated_franchise = False, relocation_year = None,
          pre_relocation = False, post_relocation = False, years_since_relocation = None\<rparr>,
         \<lparr>yearID = 2013, teamID = Some ''HOU'', franchID = Some ''HOU'', lgID = Some ''AL'',
          name = Some ''Houston Astros'', W = 51, L = 111, G = 162, W_pct = Fin 0.315,
          canonical_franchise = Some ''HOU'', is_relocated_franchise = False,
          relocation_year = None, pre_relocation = False, post_relocation = False,
          years_since_relocation = None\<rparr>])
   \<and> (\<exists>mp. init_mapper CorrectedFranchiseMapper_lineages = Inr mp \<and>
      distinct (map fst (lineages mp)) \<and>
      get_analysis_ready_data mp
        [\<lparr>yearID = 1899, teamID = Some ''BLN'', franchID = Some ''BLO'', lgID = Some ''NL'',
          name = Some ''Baltimore Orioles'', W = 86, L = 62, G = 148, W_pct = Fin 0.581\<rparr>,
         \<lparr>yearID = 2013, teamID = Some ''HOU'', franchID = Some ''HOU'', lgID = Some ''AL'',
          name = Some ''Houston Astros'', W = 51, L = 111, G = 162, W_pct = Fin 0.315\<rparr>]
      = [\<lparr>yearID = 2013, teamID = Some ''HOU'', franchID = Some ''HOU'', lgID = Some ''AL'',
          name = Some ''Houston Astros'', W = 51, L = 111, G = 162, W_pct = Fin 0.315,
          canonical_franchise = Some ''HOU'', is_relocated_franchise = False,
          relocation_year = None, pre_relocation = False, post_relocation = False,
          years_since_relocation = None, relocation_era = ''none''\<rparr>])"
proof -
  let ?blo = "\<lparr>yearID = 1899, teamID = Some ''BLN'', franchID = Some ''BLO'', lgID = Some ''NL'',
          name = Some ''Baltimore Orioles'', W = 86, L = 62, G = 148, W_pct = Fin 0.581\<rparr>"
  let ?hou = "\<lparr>yearID = 2013, teamID = Some ''HOU'', franchID = Some ''HOU'', lgID = Some ''AL'',
          name = Some ''Houston Astros'', W = 51, L = 111, G = 162, W_pct = Fin 0.315\<rparr>"
  let ?F = "\<lparr>lineages = FranchiseMapper_lineages,
            lahman_to_canonical = map_of (id_pairs FranchiseMapper_lineages)\<rparr>"
  let ?C = "\<lparr>lineages = CorrectedFranchiseMapper_lineages,
            lahman_to_canonical = map_of (id_pairs CorrectedFranchiseMapper_lineages)\<rparr>"
  have dF: "distinct (map fst (lineages ?F))" by (simp add: distinct_FranchiseMapper_keys)
  have dC: "distinct (map fst (lineages ?C))" by (simp add: distinct_CorrectedFranchiseMapper_keys)
  note tF = annotators_row_retention [OF dF, of "[?blo, ?hou]"]
  note tC = annotators_row_retention [OF dC, of "[?blo, ?hou]"]
  have nF: "\<not> resolves_to_relocated ?F a" if "row.truncate a = ?blo \<or> row.truncate a = ?hou"
    for a :: annotated_row
  proof -
    from FranchiseMapper_HOU(2) obtain lineage where
      "map_of FranchiseMapper_lineages ''HOU'' = Some lineage" "relocations lineage = []"
      by blast
    with that show ?thesis
      unfolding resolves_to_relocated_truncate [of ?F a, symmetric]
      by (auto simp: resolves_to_relocated_def get_canonical_franchise_def
          mapper_is_relocated_franchise_def FranchiseMapper_HOU)
  qed
  have nC: "\<not> resolves_to_relocated ?C a" if "row.truncate a = ?hou" for a :: analysis_row
  proof -
    from CorrectedFranchiseMapper_HOU(2) obtain lineage where
      "map_of CorrectedFranchiseMapper_lineages ''HOU'' = Some lineage" "relocations lineage = []"
      by blast
    with that show ?thesis
      unfolding resolves_to_relocated_truncate [of ?C a, symmetric]
      by (auto simp: resolves_to_relocated_def get_canonical_franchise_def
          mapper_is_relocated_franchise_def CorrectedFranchiseMapper_HOU)
  qed
  from tF obtain a b where oF: "create_annotated_dataset [?blo, ?hou] ?F = [a, b]"
    and "row.truncate a = ?blo" "row.truncate b = ?hou"
    by (auto simp: map_eq_Cons_conv)
  with tF nF have "a = annotated_defaults (lahman_to_canonical ?F) ?blo"
    "b = annotated_defaults (lahman_to_canonical ?F) ?hou"
    by auto
  with oF have eF: "create_annotated_dataset [?blo, ?hou] ?F =
      [annotated_defaults (lahman_to_canonical ?F) ?blo,
       annotated_defaults (lahman_to_canonical ?F) ?hou]"
    by simp
  have kC: "filter (\<lambda>r. in_keys (lahman_to_canonical ?C) (franchID r)) [?blo, ?hou] = [?hou]"
    by (simp add: in_keys_def CorrectedFranchiseMapper_HOU)
  from tC obtain c where oC: "get_analysis_ready_data ?C [?blo, ?hou] = [c]"
    and "row.truncate c = ?hou"
    unfolding kC by (auto simp: map_eq_Cons_conv)
  with tC nC have "c = analysis_defaults (lahman_to_canonical ?C) ?hou"
    by auto
  with oC have eC: "get_analysis_ready_data ?C [?blo, ?hou] =
      [analysis_defaults (lahman_to_canonical ?C) ?hou]"
    by simp
  have "create_annotated_dataset [?blo, ?hou] ?F
      = [\<lparr>yearID = 1899, teamID = Some ''BLN'', franchID = Some ''BLO'', lgID = Some ''NL'',
          name = Some ''Baltimore Orioles'', W = 86, L = 62, G = 148, W_pct = Fin 0.581,
          canonical_franchise = None, is_relocated_franchise = False, relocation_year = None,
          pre_relocation = False, post_relocation = False, years_since_relocation = None\<rparr>,
         \<lparr>yearID = 2013, teamID = Some ''HOU'', franchID = Some ''HOU'', lgID = Some ''AL'',
          name = Some ''Houston Astros'', W = 51, L = 111, G = 162, W_pct = Fin 0.315,
          canonical_franchise = Some ''HOU'', is_relocated_franchise = False,
          relocation_year = None, pre_relocation = False, post_relocation = False,
          years_since_relocation = None\<rparr>]"
    unfolding eF by (simp add: annotated_defaults_def map_dict_def FranchiseMapper_HOU)
  moreover have "get_analysis_ready_data ?C [?blo, ?hou]
      = [\<lparr>yearID = 2013, teamID = Some ''HOU'', franchID = Some ''HOU'', lgID = Some ''AL'',
          name = Some ''Houston Astros'', W = 51, L = 111, G = 162, W_pct = Fin 0.315,
          canonical_franchise = Some ''HOU'', is_relocated_franchise = False,
          relocation_year = None, pre_relocation = False, post_relocation = False,
          years_since_relocation = None, relocation_era = ''none''\<rparr>]"
    unfolding eC by (simp add: analysis_defaults_def map_dict_def CorrectedFranchiseMapper_HOU)
  ultimately show ?thesis
    using init_FranchiseMapper init_CorrectedFranchiseMapper dF dC by blast
qed


section \<open>Properties of the validation checks\<close>

lemma check_facts_results:
  assumes "\<forall>kf \<in> set fs. \<exists>res. check_fact df kf = Inr res"
  shows "\<exists>rs. check_facts df fs acc = Inr (acc @ rs) \<and> length rs = length fs \<and>
           (\<forall>i < length fs. check_fact df (fs ! i) = Inr (rs ! i))"
  using assms
proof (induction fs arbitrary: acc)
  case Nil
  show ?case by simp
next
  case (Cons kf fs)
  from Cons.prems obtain res where res: "check_fact df kf = Inr res" by auto
  from Cons.prems have "\<forall>kf \<in> set fs. \<exists>res. check_fact df kf = Inr res" by simp
  from Cons.IH [OF this, of "acc @ [res]"] obtain rs where
    rs: "check_facts df fs (acc @ [res]) = Inr ((acc @ [res]) @ rs)" "length rs = length fs"
      "\<forall>i < length fs. check_fact df (fs ! i) = Inr (rs ! i)"
    by blast
  have "check_facts df (kf # fs) acc = Inr (acc @ res # rs)"
    using res rs(1) by simp
  moreover have "length (res # rs) = length (kf # fs)" using rs(2) by simp
  moreover have "\<forall>i < length (kf # fs). check_fact df ((kf # fs) ! i) = Inr ((res # rs) ! i)"
    using res rs(3) by (auto simp: nth_Cons split: nat.splits)
  ultimately show ?case by blast
qed

lemma check_fact_result:
  assumes "{''yearID'', ''teamID'', ''W'', ''L''} \<subseteq> set (columns df)"
  shows "\<exists>res. check_fact df (y, t, w, l, d) = Inr res \<and>
     check_name res = ''historical_facts'' \<and>
     (case filter (\<lambda>r. yearID r = y \<and> teamID r = Some t) (rows df) of
        [] \<Rightarrow> status res = ''warning''
      | r # rest \<Rightarrow>
          if W r \<noteq> w \<or> L r \<noteq> l
          then status res = ''fail'' \<and>
               message res = ''Historical fact mismatch: '' @ d @ '' - Expected '' @ str_int w @
                 ''-'' @ str_int l @ '', got '' @ str_int (W r) @ ''-'' @ str_int (L r)
          else status res = ''pass'')"
  using assms by (simp add: result_def split: list.splits)

text \<open>
  C6. On a table that has the columns the check reads, the check returns one finding per
  fixed fact, in order, each named \<open>historical_facts\<close>: a warning when no row has the
  fact's year and team identifier; otherwise, for the first such row, a fail whose message
  cites the expected record when its wins or losses differ from the expected ones, and a
  pass when both are equal. In particular, when the first row of 1906 for CHN has 116 wins,
  36 losses give a pass for the first fact and 40 losses give a fail whose message cites
  the expected 116-36.
\<close>

theorem external_fact_check:
  assumes "{''yearID'', ''teamID'', ''W'', ''L''} \<subseteq> set (columns df)"
  shows "\<exists>fs. validate_against_external_sources df = Inr fs \<and> length fs = length known_facts \<and>
     (\<forall>i y t w l d. i < length known_facts \<and> known_facts ! i = (y, t, w, l, d) \<longrightarrow>
         check_name (fs ! i) = ''historical_facts'' \<and>
         (case filter (\<lambda>r. yearID r = y \<and> teamID r = Some t) (rows df) of
            [] \<Rightarrow> status (fs ! i) = ''warning''
          | r # rest \<Rightarrow>
              if W r \<noteq> w \<or> L r \<noteq> l
              then status (fs ! i) = ''fail'' \<and>
                   (\<exists>pre post. message (fs ! i) =
                      pre @ ''Expected '' @ str_int w @ ''-'' @ str_int l @ post)
              else status (fs ! i) = ''pass'')) \<and>
     (\<forall>r rest. filter (\<lambda>r. yearID r = 1906 \<and> teamID r = Some ''CHN'') (rows df) = r # rest \<and>
         W r = 116 \<longrightarrow>
         (L r = 36 \<longrightarrow> status (fs ! 0) = ''pass'') \<and>
         (L r = 40 \<longrightarrow> status (fs ! 0) = ''fail'' \<and>
            message (fs ! 0) = ''Historical fact mismatch: Cubs record-setting season - '' @
              ''Expected 116-36, got 116-40''))"
proof -
  have "\<forall>kf \<in> set known_facts. \<exists>res. check_fact df kf = Inr res"
  proof
    fix kf :: known_fact
    obtain y t w l d where "kf = (y, t, w, l, d)" by (cases kf)
    with check_fact_result [OF assms, of y t w l d]
    show "\<exists>res. check_fact df kf = Inr res" by blast
  qed
  from check_facts_results [OF this, of "[]"] obtain fs where
    fs: "validate_against_external_sources df = Inr fs" "length fs = length known_facts"
      "\<forall>i < length known_facts. check_fact df (known_facts ! i) = Inr (fs ! i)"
    by (auto simp: validate_against_external_sources_def)
  have gen: "check_name (fs ! i) = ''historical_facts'' \<and>
         (case filter (\<lambda>r. yearID r = y \<and> teamID r = Some t) (rows df) of
            [] \<Rightarrow> status (fs ! i) = ''warning''
          | r # rest \<Rightarrow>
              if W r \<noteq> w \<or> L r \<noteq> l
              then status (fs ! i) = ''fail'' \<and>
                   message (fs ! i) = ''Historical fact mismatch: '' @ d @ '' - Expected '' @
                     str_int w @ ''-'' @ str_int l @ '', got '' @ str_int (W r) @ ''-'' @
                     str_int (L r)
              else status (fs ! i) = ''pass'')"
    if "i < length known_facts \<and> known_facts ! i = (y, t, w, l, d)" for i y t w l d
  proof -
    from that fs(3) have "check_fact df (y, t, w, l, d) = Inr (fs ! i)" by metis
    with check_fact_result [OF assms, of y t w l d] show ?thesis by simp
  qed
  have cite: "\<exists>pre post. ''Historical fact mismatch: '' @ d @ '' - Expected '' @
        str_int w @ ''-'' @ str_int l @ '', got '' @ a @ ''-'' @ b
      = pre @ ''Expected '' @ str_int w @ ''-'' @ str_int l @ post" for d w l a b
    by (intro exI [of _ "''Historical fact mismatch: '' @ d @ '' - ''"]
        exI [of _ "'', got '' @ a @ ''-'' @ b"]) simp
  have part1: "check_name (fs ! i) = ''historical_facts'' \<and>
         (case filter (\<lambda>r. yearID r = y \<and> teamID r = Some t) (rows df) of
            [] \<Rightarrow> status (fs ! i) = ''warning''
          | r # rest \<Rightarrow>
              if W r \<noteq> w \<or> L r \<noteq> l
              then status (fs ! i) = ''fail'' \<and>
                   (\<exists>pre post. message (fs ! i) =
                      pre @ ''Expected '' @ str_int w @ ''-'' @ str_int l @ post)
              else status (fs ! i) = ''pass'')"
    if "i < length known_facts \<and> known_facts ! i = (y, t, w, l, d)" for i y t w l d
    using gen [OF that] cite by (auto split: list.splits)
  have first: "0 < length known_facts \<and>
      known_facts ! 0 = (1906, ''CHN'', 116, 36, ''Cubs record-setting season'')"
    by (simp add: known_facts_def)
  have s116: "str_int 116 = ''116''" and s36: "str_int 36 = ''36''" and s40: "str_int 40 = ''40''"
    by (simp_all add: str_int_def str_nat.simps digit_char_def)
  have part2: "(L r = 36 \<longrightarrow> status (fs ! 0) = ''pass'') \<and>
         (L r = 40 \<longrightarrow> status (fs ! 0) = ''fail'' \<and>
            message (fs ! 0) = ''Historical fact mismatch: Cubs record-setting season - '' @
              ''Expected 116-36, got 116-40'')"
    if "filter (\<lambda>r. yearID r = 1906 \<and> teamID r = Some ''CHN'') (rows df) = r # rest \<and> W r = 116"
    for r rest
    using gen [OF first] that by (auto simp: s116 s36 s40)
  from fs(1,2) part1 part2 show ?thesis by blast
qed

theorem external_fact_check_witness:
  "{''yearID'', ''teamID'', ''W'', ''L''} \<subseteq>
     set [''yearID'', ''teamID'', ''franchID'', ''lgID'', ''name'', ''W'', ''L'', ''G'', ''W_pct'']
   \<and> (\<exists>fs. validate_against_external_sources
        \<lparr>columns = [''yearID'', ''teamID'', ''franchID'', ''lgID'', ''name'', ''W'', ''L'', ''G'',
                    ''W_pct''],
         rows = [\<lparr>yearID = 1906, teamID = Some ''CHN'', franchID = Some ''CHC'',
                  lgID = Some ''NL'', name = Some ''Chicago Cubs'', W = 116, L = 36, G = 152,
                  W_pct = Fin 0.763\<rparr>]\<rparr> = Inr fs \<and>
        map status fs = [''pass'', ''warning'', ''warning'', ''warning''])
   \<and> (\<exists>fs. validate_against_external_sources
        \<lparr>columns = [''yearID'', ''teamID'', ''franchID'', ''lgID'', ''name'', ''W'', ''L'', ''G'',
                    ''W_pct''],
         rows = [\<lparr>yearID = 1906, teamID = Some ''CHN'', franchID = Some ''CHC'',
                  lgID = Some ''NL'', name = Some ''Chicago Cubs'', W = 116, L = 40, G = 156,
                  W_pct = Fin 0.744\<rparr>]\<rparr> = Inr fs \<and>
        map status fs = [''fail'', ''warning'', ''warning'', ''warning''] \<and>
        message (fs ! 0)
          = ''Historical fact mismatch: Cubs record-setting season - Expected 116-36, got 116-40'')"
proof -
  let ?cols = "[''yearID'', ''teamID'', ''franchID'', ''lgID'', ''name'', ''W'', ''L'', ''G'',
                ''W_pct'']"
  let ?r = "\<lparr>yearID = 1906, teamID = Some ''CHN'', franchID = Some ''CHC'',
             lgID = Some ''NL'', name = Some ''Chicago Cubs'', W = 116, L = 36, G = 152,
             W_pct = Fin 0.763\<rparr>"
  let ?q = "\<lparr>yearID = 1906, teamID = Some ''CHN'', franchID = Some ''CHC'',
             lgID = Some ''NL'', name = Some ''Chicago Cubs'', W = 116, L = 40, G = 156,
             W_pct = Fin 0.744\<rparr>"
  have c: "{''yearID'', ''teamID'', ''W'', ''L''} \<subseteq> set ?cols" by simp
  have cr: "{''yearID'', ''teamID'', ''W'', ''L''} \<subseteq> set (columns \<lparr>columns = ?cols, rows = [?r]\<rparr>)"
    and cq: "{''yearID'', ''teamID'', ''W'', ''L''} \<subseteq> set (columns \<lparr>columns = ?cols, rows = [?q]\<rparr>)"
    by simp_all
  have s: "str_int 116 = ''116''" "str_int 36 = ''36''" "str_int 40 = ''40''"
    by (simp_all add: str_int_def str_nat.simps digit_char_def)
  from external_fact_check [OF cr]
  have "\<exists>fs. validate_against_external_sources \<lparr>columns = ?cols, rows = [?r]\<rparr> = Inr fs"
    by (elim exE conjE) (rule exI)
  then obtain fs where
    fs: "validate_against_external_sources \<lparr>columns = ?cols, rows = [?r]\<rparr> = Inr fs" ..
  have sr: "map status fs = [''pass'', ''warning'', ''warning'', ''warning'']"
    using fs by (auto simp: validate_against_external_sources_def known_facts_def result_def)
  have one: "\<exists>fs. validate_against_external_sources
      \<lparr>columns = ?cols, rows = [?r]\<rparr> = Inr fs \<and>
      map status fs = [''pass'', ''warning'', ''warning'', ''warning'']"
    by (rule exI [of _ fs], rule conjI, rule fs, rule sr)
  from external_fact_check [OF cq]
  have "\<exists>gs. validate_against_external_sources \<lparr>columns = ?cols, rows = [?q]\<rparr> = Inr gs"
    by (elim exE conjE) (rule exI)
  then obtain gs where
    gs: "validate_against_external_sources \<lparr>columns = ?cols, rows = [?q]\<rparr> = Inr gs" ..
  have sq: "map status gs = [''fail'', ''warning'', ''warning'', ''warning''] \<and>
      message (gs ! 0)
        = ''Historical fact mismatch: Cubs record-setting season - Expected 116-36, got 116-40''"
    using gs by (auto simp: validate_against_external_sources_def known_facts_def result_def s)
  have two: "\<exists>fs. validate_against_external_sources
      \<lparr>columns = ?cols, rows = [?q]\<rparr> = Inr fs \<and>
      map status fs = [''fail'', ''warning'', ''warning'', ''warning''] \<and>
      message (fs ! 0)
        = ''Historical fact mismatch: Cubs record-setting season - Expected 116-36, got 116-40''"
    by (rule exI [of _ gs], rule conjI, rule gs, rule sq)
  show ?thesis
    by (rule conjI, rule c, rule conjI, rule one, rule two)
qed


lemma calculation_accuracy_name [simp]:
  "check_name (calculation_accuracy rs) = ''calculation_accuracy''"
  by (simp add: calculation_accuracy_def Let_def result_def)








lemma select_error_None: "set cols \<subseteq> set (columns df) \<Longrightarrow> select_error df cols = None"
proof -
  assume "set cols \<subseteq> set (columns df)"
  then have "filter (\<lambda>c. c \<notin> set (columns df)) cols = []"
    by (auto simp: filter_empty_conv)
  then show ?thesis by (simp add: select_error_def)
qed

lemma game_count_checks_Inr:
  assumes "{''yearID'', ''teamID'', ''G''} \<subseteq> set (columns df)"
  shows "\<exists>found. game_count_checks df = Inr found"
proof -
  from assms have "select_error df [''yearID'', ''teamID'', ''G''] = None"
    by (intro select_error_None) simp
  with assms show ?thesis by (simp add: game_count_checks_def Let_def)
qed

lemma win_pct_checks_Inr:
  assumes "{''yearID'', ''teamID'', ''name'', ''W_pct''} \<subseteq> set (columns df)"
  shows "\<exists>found. win_pct_checks df = Inr found"
proof -
  from assms have "select_error df [''yearID'', ''teamID'', ''W_pct''] = None"
    "select_error df [''yearID'', ''teamID'', ''name'', ''W_pct''] = None"
    by (simp_all add: select_error_None)
  with assms show ?thesis by (simp add: win_pct_checks_def Let_def)
qed

lemma win_pct_checks_KeyError:
  "''W_pct'' \<notin> set (columns df) \<Longrightarrow> win_pct_checks df = Inl (KeyError ''W_pct'')"
  by (simp add: win_pct_checks_def)

lemma continuity_relocation_Inr:
  assumes "''lgID'' \<in> set (columns df)"
  shows "\<exists>found. continuity_relocation df cid fd a = Inr found"
  using assms
  by (cases "filter (\<lambda>r. yearID r = year a - 1) fd"; cases "filter (\<lambda>r. yearID r = year a) fd")
    (simp_all add: continuity_relocation_def)

lemma continuity_relocations_Inr:
  assumes "''lgID'' \<in> set (columns df)"
  shows "\<exists>found. continuity_relocations df cid fd rels acc = Inr found"
proof (induction rels arbitrary: acc)
  case Nil
  show ?case by simp
next
  case (Cons a rels)
  from continuity_relocation_Inr [OF assms] obtain found where
    "continuity_relocation df cid fd a = Inr found"
    by blast
  with Cons.IH [of "acc @ found"] show ?case by simp
qed

lemma continuity_lineages_Inr:
  assumes "{''franchID'', ''yearID'', ''lgID''} \<subseteq> set (columns df)"
  shows "\<exists>found. continuity_lineages df ls acc = Inr found"
proof (induction ls arbitrary: acc)
  case Nil
  show ?case by simp
next
  case (Cons a ls)
  obtain cid lineage where a: "a = (cid, lineage)" by (cases a)
  let ?fd = "filter (\<lambda>r. isin (franchID r) (lahman_ids lineage)) (rows df)"
  from assms have lg: "''lgID'' \<in> set (columns df)" by simp
  from continuity_relocations_Inr [OF lg, of cid "sort_key yearID ?fd" "relocations lineage" acc]
  obtain found where
    "continuity_relocations df cid (sort_key yearID ?fd) (relocations lineage) acc = Inr found"
    by blast
  with assms Cons.IH [of acc] Cons.IH [of found] show ?case
    by (simp add: a Let_def)
qed

text \<open>
  When every required column is present, \<open>run_all_validations\<close> returns the four
  groups of findings.
\<close>

lemma run_all_validations_completes:
  assumes "set required_cols \<subseteq> set (columns df)"
  shows "\<exists>res. run_all_validations current_year df mp = Inr res \<and>
     map fst res = [''basic_quality'', ''historical_accuracy'', ''franchise_continuity'',
                    ''external_validation'']"
proof -
  from assms have c: "''yearID'' \<in> set (columns df)" "''teamID'' \<in> set (columns df)"
    "''franchID'' \<in> set (columns df)" "''lgID'' \<in> set (columns df)"
    "''name'' \<in> set (columns df)" "''W'' \<in> set (columns df)" "''L'' \<in> set (columns df)"
    "''G'' \<in> set (columns df)" "''W_pct'' \<in> set (columns df)"
    by (simp_all add: required_cols_def)
  from c obtain games where g: "game_count_checks df = Inr games"
    using game_count_checks_Inr [of df] by auto
  from c obtain pcts where p: "win_pct_checks df = Inr pcts"
    using win_pct_checks_Inr [of df] by auto
  from c obtain cont where k: "validate_franchise_continuity df mp = Inr cont"
    using continuity_lineages_Inr [of df "lineages mp" "[]"]
    by (auto simp: validate_franchise_continuity_def)
  have "\<forall>kf \<in> set known_facts. \<exists>res. check_fact df kf = Inr res"
  proof
    fix kf :: known_fact
    obtain y t w l d where "kf = (y, t, w, l, d)" by (cases kf)
    with check_fact_result [of df y t w l d] c
    show "\<exists>res. check_fact df kf = Inr res" by auto
  qed
  from check_facts_results [OF this, of "[]"] obtain ext where
    e: "validate_against_external_sources df = Inr ext"
    by (auto simp: validate_against_external_sources_def)
  show ?thesis
    by (simp add: run_all_validations_def Let_def validate_historical_accuracy_def c g p k e)
qed

text \<open>
  C5 does not hold of the code. On a table that lacks the column \<open>W_pct\<close> (the columns
  of a raw Lahman \<open>Teams.csv\<close>, which \<open>run_comprehensive_validation\<close> is handed by
  \<open>enhanced_gather_mlb_wl.main\<close>), the schema check reports the missing column as a
  fail finding, but \<open>validate_historical_accuracy\<close> then reads the column and raises
  \<open>KeyError\<close>, so \<open>run_all_validations\<close> returns no finding at all. The same happens,
  with key \<open>yearID\<close>, on a table without that column.
\<close>

theorem run_all_validations_aborts:
  "run_all_validations current_year
     \<lparr>columns = [''yearID'', ''lgID'', ''teamID'', ''franchID'', ''G'', ''W'', ''L'', ''name''],
      rows = rs\<rparr> mp
   = Inl (KeyError ''W_pct'')
   \<and> hd (validate_basic_data_quality
        \<lparr>columns = [''yearID'', ''lgID'', ''teamID'', ''franchID'', ''G'', ''W'', ''L'', ''name''],
         rows = rs\<rparr>)
     = result ''required_columns'' ''fail''
         (''Missing required columns: ['' @ [CHR 0x27] @ ''W_pct'' @ [CHR 0x27] @ '']'')
   \<and> run_all_validations current_year
       \<lparr>columns = [''teamID'', ''franchID'', ''lgID'', ''name'', ''W'', ''L'', ''G'', ''W_pct''],
        rows = rs\<rparr> mp
     = Inl (KeyError ''yearID'')"
proof -
  let ?df = "\<lparr>columns = [''yearID'', ''lgID'', ''teamID'', ''franchID'', ''G'', ''W'', ''L'',
                          ''name''], rows = rs\<rparr>"
  have "{''yearID'', ''teamID'', ''G''} \<subseteq> set (columns ?df)" by simp
  from game_count_checks_Inr [OF this] obtain games where "game_count_checks ?df = Inr games"
    by blast
  moreover have "win_pct_checks ?df = Inl (KeyError ''W_pct'')"
    by (rule win_pct_checks_KeyError) simp
  ultimately have "validate_historical_accuracy current_year ?df = Inl (KeyError ''W_pct'')"
    by (simp add: validate_historical_accuracy_def)
  then have a: "run_all_validations current_year ?df mp = Inl (KeyError ''W_pct'')"
    by (simp add: run_all_validations_def Let_def)
  have b: "hd (validate_basic_data_quality ?df)
     = result ''required_columns'' ''fail''
         (''Missing required columns: ['' @ [CHR 0x27] @ ''W_pct'' @ [CHR 0x27] @ '']'')"
    by (simp add: validate_basic_data_quality_def Let_def required_cols_def py_repr_list_def
        py_repr_str_def)
  have c: "run_all_validations current_year
       \<lparr>columns = [''teamID'', ''franchID'', ''lgID'', ''name'', ''W'', ''L'', ''G'', ''W_pct''],
        rows = rs\<rparr> mp
     = Inl (KeyError ''yearID'')"
    by (simp add: run_all_validations_def Let_def validate_historical_accuracy_def)
  show ?thesis by (rule conjI, rule a, rule conjI, rule b, rule c)
qed


section \<open>Properties of the sufficiency check\<close>

lemma completeness_lineages_result:
  assumes "''franchID'' \<in> set (columns df)" "''yearID'' \<in> set (columns df)"
  shows "completeness_lineages df ls acc
     = Inr (acc @ map (\<lambda>(cid, lineage).
               data_counts cid (Max (year ` set (relocations lineage)))
                 (pre_seasons lineage (rows df)) (post_seasons lineage (rows df)))
             (filter (relocated_with_data (rows df)) ls))"
proof (induction ls arbitrary: acc)
  case Nil
  show ?case by simp
next
  case (Cons a ls)
  obtain cid lineage where a: "a = (cid, lineage)" by (cases a)
  show ?case
  proof (cases "relocations lineage")
    case Nil
    then show ?thesis by (simp add: a Cons.IH relocated_with_data_def)
  next
    case (Cons r rs)
    have y: "year (max_by_year r rs) = Max (year ` set (relocations lineage))"
      unfolding Cons by (rule year_max_by_year)
    show ?thesis
    proof (cases "lineage_has_data lineage (rows df)")
      case True
      with Cons assms show ?thesis
        by (simp add: a Cons.IH relocated_with_data_def lineage_has_data_def Let_def y
            pre_seasons_def post_seasons_def del: set_simps)
    next
      case False
      with Cons assms show ?thesis
        by (simp add: a Cons.IH relocated_with_data_def lineage_has_data_def Let_def)
    qed
  qed
qed

lemma data_counts_sufficient:
  "map_of (data_counts cid y p q) ''sufficient_for_analysis''
     = Some (BoolCell (10 \<le> p \<and> 10 \<le> q))"
  by (auto simp: data_counts_def MIN_SEASONS_PRE_def MIN_SEASONS_POST_def)

lemma insufficient_filter:
  "filter (\<lambda>d. map_of d ''sufficient_for_analysis'' = Some (BoolCell False))
     (map (\<lambda>(cid, lineage).
               data_counts cid (Max (year ` set (relocations lineage)))
                 (pre_seasons lineage rs) (post_seasons lineage rs)) ps) = []
   \<longleftrightarrow> \<not> (\<exists>p \<in> set ps. pre_seasons (snd p) rs < 10 \<or> post_seasons (snd p) rs < 10)"
  by (auto simp: filter_empty_conv data_counts_sufficient split: prod.splits)

lemma bex_filter: "(\<exists>p \<in> set (filter R xs). Q p) \<longleftrightarrow> (\<exists>p \<in> set xs. R p \<and> Q p)"
  by auto

lemma relocation_summary_sufficient:
  "map_of (relocation_summary cid lineage latest franchise_data) ''sufficient_data''
     = Some (BoolCell (10 \<le> length (filter pre_relocation franchise_data) \<and>
                       10 \<le> length (filter post_relocation franchise_data)))"
  by (simp add: relocation_summary_def Let_def)

text \<open>
  C8. On a table that has the columns the check reads, the sufficiency check records, for
  every lineage with at least one relocation and with rows in the table, the seasons
  strictly before the latest relocation year and the seasons at or after it, and marks
  the franchise sufficient exactly when both counts are at least 10. Its single finding
  is a warning when some such franchise is below that bar and a pass when all of them
  clear it. A franchise with 8 and 12 seasons is marked insufficient, one with 10 and 10
  sufficient. The flag \<open>sufficient_data\<close> of the relocation summary is the same test on
  the rows annotated as pre- and post-relocation.
\<close>

theorem statistical_sufficiency_check:
  assumes "{''franchID'', ''yearID''} \<subseteq> set (columns df)"
  shows "(\<exists>f. check_data_completeness df mp = Inr [f] \<and>
            check_name f = ''statistical_sufficiency'' \<and>
            status f = (if \<exists>p \<in> set (lineages mp). relocated_with_data (rows df) p \<and>
                             (pre_seasons (snd p) (rows df) < 10 \<or>
                              post_seasons (snd p) (rows df) < 10)
                        then ''warning'' else ''pass'')) \<and>
         completeness_lineages df (lineages mp) []
           = Inr (map (\<lambda>(cid, lineage).
                    data_counts cid (Max (year ` set (relocations lineage)))
                      (pre_seasons lineage (rows df)) (post_seasons lineage (rows df)))
                  (filter (relocated_with_data (rows df)) (lineages mp))) \<and>
         (\<forall>cid y p q. map_of (data_counts cid y p q) ''sufficient_for_analysis''
                         = Some (BoolCell (10 \<le> p \<and> 10 \<le> q))) \<and>
         (\<forall>cid y. map_of (data_counts cid y 8 12) ''sufficient_for_analysis''
                     = Some (BoolCell False) \<and>
                   map_of (data_counts cid y 10 10) ''sufficient_for_analysis''
                     = Some (BoolCell True)) \<and>
         (\<forall>cid lineage latest franchise_data.
            map_of (relocation_summary cid lineage latest franchise_data) ''sufficient_data''
              = Some (BoolCell (10 \<le> length (filter pre_relocation franchise_data) \<and>
                                10 \<le> length (filter post_relocation franchise_data))))"
proof -
  from assms have c: "''franchID'' \<in> set (columns df)" "''yearID'' \<in> set (columns df)"
    by simp_all
  let ?entry = "\<lambda>(cid, lineage).
                    data_counts cid (Max (year ` set (relocations lineage)))
                      (pre_seasons lineage (rows df)) (post_seasons lineage (rows df))"
  let ?data = "map ?entry (filter (relocated_with_data (rows df)) (lineages mp))"
  have loop: "completeness_lineages df (lineages mp) [] = Inr ?data"
    using completeness_lineages_result [OF c, of "lineages mp" "[]"] by simp
  have "filter (\<lambda>d. map_of d ''sufficient_for_analysis'' = Some (BoolCell False)) ?data \<noteq> []
      \<longleftrightarrow> (\<exists>p \<in> set (filter (relocated_with_data (rows df)) (lineages mp)).
             pre_seasons (snd p) (rows df) < 10 \<or> post_seasons (snd p) (rows df) < 10)"
    unfolding insufficient_filter by (rule not_not)
  also have "\<dots> \<longleftrightarrow> (\<exists>p \<in> set (lineages mp). relocated_with_data (rows df) p \<and>
             (pre_seasons (snd p) (rows df) < 10 \<or> post_seasons (snd p) (rows df) < 10))"
    by (rule bex_filter)
  finally have cnt: "0 < length (filter (\<lambda>d. map_of d ''sufficient_for_analysis'' = Some (BoolCell False))
        ?data)
      \<longleftrightarrow> (\<exists>p \<in> set (lineages mp). relocated_with_data (rows df) p \<and>
             (pre_seasons (snd p) (rows df) < 10 \<or> post_seasons (snd p) (rows df) < 10))"
    by (simp only: length_greater_0_conv)
  have "\<exists>f. check_data_completeness df mp = Inr [f] \<and>
            check_name f = ''statistical_sufficiency'' \<and>
            status f = (if \<exists>p \<in> set (lineages mp). relocated_with_data (rows df) p \<and>
                             (pre_seasons (snd p) (rows df) < 10 \<or>
                              post_seasons (snd p) (rows df) < 10)
                        then ''warning'' else ''pass'')"
    unfolding check_data_completeness_def loop sum.case Let_def cnt
    by (simp add: result_def)
  with loop data_counts_sufficient relocation_summary_sufficient show ?thesis
    by simp
qed


lemma filter_isin_const:
  assumes "\<And>y. franchID (mk y) = Some s"
  shows "filter (\<lambda>x. isin (franchID x) ids) (map mk ys) = (if s \<in> set ids then map mk ys else [])"
  by (induction ys) (simp_all add: isin_def assms)

lemma lineage_has_data_const:
  assumes "\<And>y. franchID (mk y) = Some s" "ys \<noteq> []"
  shows "lineage_has_data lineage (map mk ys) \<longleftrightarrow> s \<in> set (lahman_ids lineage)"
  unfolding lineage_has_data_def filter_isin_const [of mk s, OF assms(1)] using assms(2) by simp

lemma seasons_const:
  assumes "\<And>y. franchID (mk y) = Some s" "\<And>y. yearID (mk y) = y"
    "s \<in> set (lahman_ids lineage)" "year ` set (relocations lineage) = {m}"
  shows "pre_seasons lineage (map mk ys) = length (filter (\<lambda>y. y < m) ys)"
    and "post_seasons lineage (map mk ys) = length (filter (\<lambda>y. m \<le> y) ys)"
  unfolding pre_seasons_def post_seasons_def filter_isin_const [of mk s, OF assms(1)]
  using assms(2,3,4) by (simp_all add: filter_map comp_def)

lemma FranchiseMapper_LAD_only:
  "\<forall>p \<in> set FranchiseMapper_lineages. ''LAD'' \<in> set (lahman_ids (snd p)) \<longrightarrow>
     year ` set (relocations (snd p)) = {1958}"
  by (simp add: FranchiseMapper_lineages_def RelocationEvent_init_def)

lemma FranchiseMapper_LAD_entry:
  "\<exists>p \<in> set FranchiseMapper_lineages. ''LAD'' \<in> set (lahman_ids (snd p)) \<and>
     relocations (snd p) \<noteq> []"
  by (simp add: FranchiseMapper_lineages_def)

theorem statistical_sufficiency_check_witness:
  "{''franchID'', ''yearID''} \<subseteq>
     set [''yearID'', ''teamID'', ''franchID'', ''lgID'', ''name'', ''W'', ''L'', ''G'', ''W_pct'']
   \<and> (\<exists>mp f. init_mapper FranchiseMapper_lineages = Inr mp \<and>
        check_data_completeness
          \<lparr>columns = [''yearID'', ''teamID'', ''franchID'', ''lgID'', ''name'', ''W'', ''L'', ''G'',
                      ''W_pct''],
           rows = map (\<lambda>y. \<lparr>yearID = y, teamID = Some ''LAN'', franchID = Some ''LAD'',
                             lgID = Some ''NL'', name = Some ''Los Angeles Dodgers'', W = 81,
                             L = 81, G = 162, W_pct = Fin 0.5\<rparr>)
                    [1950, 1951, 1952, 1953, 1954, 1955, 1956, 1957,
                     1958, 1959, 1960, 1961, 1962, 1963, 1964, 1965, 1966, 1967, 1968, 1969]\<rparr>
          mp = Inr [f] \<and>
        status f = ''warning'')
   \<and> (\<exists>mp f. init_mapper FranchiseMapper_lineages = Inr mp \<and>
        check_data_completeness
          \<lparr>columns = [''yearID'', ''teamID'', ''franchID'', ''lgID'', ''name'', ''W'', ''L'', ''G'',
                      ''W_pct''],
           rows = map (\<lambda>y. \<lparr>yearID = y, teamID = Some ''LAN'', franchID = Some ''LAD'',
                             lgID = Some ''NL'', name = Some ''Los Angeles Dodgers'', W = 81,
                             L = 81, G = 162, W_pct = Fin 0.5\<rparr>)
                    [1948, 1949, 1950, 1951, 1952, 1953, 1954, 1955, 1956, 1957,
                     1958, 1959, 1960, 1961, 1962, 1963, 1964, 1965, 1966, 1967]\<rparr>
          mp = Inr [f] \<and>
        status f = ''pass'')"
proof -
  define cols where "cols = [''yearID'', ''teamID'', ''franchID'', ''lgID'', ''name'', ''W'', ''L'',
      ''G'', ''W_pct'']"
  define mk where "mk = (\<lambda>y. \<lparr>yearID = y, teamID = Some ''LAN'', franchID = Some ''LAD'',
                             lgID = Some ''NL'', name = Some ''Los Angeles Dodgers'', W = 81,
                             L = 81, G = 162, W_pct = Fin 0.5\<rparr>)"
  define short :: "int list" where "short = [1950, 1951, 1952, 1953, 1954, 1955, 1956, 1957,
                     1958, 1959, 1960, 1961, 1962, 1963, 1964, 1965, 1966, 1967, 1968, 1969]"
  define even :: "int list" where "even = [1948, 1949, 1950, 1951, 1952, 1953, 1954, 1955, 1956,
                     1957, 1958, 1959, 1960, 1961, 1962, 1963, 1964, 1965, 1966, 1967]"
  define F where "F = \<lparr>lineages = FranchiseMapper_lineages,
            lahman_to_canonical = map_of (id_pairs FranchiseMapper_lineages)\<rparr>"
  have init: "init_mapper FranchiseMapper_lineages = Inr F"
    unfolding F_def by (rule init_FranchiseMapper)
  have lin: "lineages F = FranchiseMapper_lineages" by (simp add: F_def)
  have fr: "franchID (mk y) = Some ''LAD''" and yr: "yearID (mk y) = y" for y
    by (simp_all add: mk_def)
  have ne: "short \<noteq> []" "even \<noteq> []" by (simp_all add: short_def even_def)
  have c: "{''franchID'', ''yearID''} \<subseteq> set cols" by (simp add: cols_def)
  have cs: "{''franchID'', ''yearID''} \<subseteq> set (columns \<lparr>columns = cols, rows = map mk short\<rparr>)"
    and ce: "{''franchID'', ''yearID''} \<subseteq> set (columns \<lparr>columns = cols, rows = map mk even\<rparr>)"
    using c by simp_all
  have n8: "length (filter (\<lambda>y. y < 1958) short) = 8"
    and n12: "length (filter (\<lambda>y. 1958 \<le> y) short) = 12"
    and n10: "length (filter (\<lambda>y. y < 1958) even) = 10"
    and m10: "length (filter (\<lambda>y. 1958 \<le> y) even) = 10"
    by (simp_all add: short_def even_def)
  have below: "\<exists>p \<in> set (lineages F). relocated_with_data (map mk short) p \<and>
      (pre_seasons (snd p) (map mk short) < 10 \<or> post_seasons (snd p) (map mk short) < 10)"
  proof -
    from FranchiseMapper_LAD_entry obtain p where
      p: "p \<in> set FranchiseMapper_lineages" "''LAD'' \<in> set (lahman_ids (snd p))"
        "relocations (snd p) \<noteq> []"
      by blast
    with FranchiseMapper_LAD_only have m: "year ` set (relocations (snd p)) = {1958}" by blast
    have "lineage_has_data (snd p) (map mk short)"
      using lineage_has_data_const [of mk "''LAD''" short "snd p", OF fr ne(1)] p(2) by simp
    moreover have "pre_seasons (snd p) (map mk short) = 8"
      using seasons_const(1) [of mk "''LAD''" "snd p" 1958 short, OF fr yr p(2) m] n8 by simp
    ultimately show ?thesis
      using p(1,3) unfolding lin relocated_with_data_def by (intro bexI [of _ p]) simp_all
  qed
  have clear: "\<not> (\<exists>p \<in> set (lineages F). relocated_with_data (map mk even) p \<and>
      (pre_seasons (snd p) (map mk even) < 10 \<or> post_seasons (snd p) (map mk even) < 10))"
  proof
    assume "\<exists>p \<in> set (lineages F). relocated_with_data (map mk even) p \<and>
      (pre_seasons (snd p) (map mk even) < 10 \<or> post_seasons (snd p) (map mk even) < 10)"
    then obtain p where p: "p \<in> set FranchiseMapper_lineages"
      "lineage_has_data (snd p) (map mk even)"
      "pre_seasons (snd p) (map mk even) < 10 \<or> post_seasons (snd p) (map mk even) < 10"
      unfolding lin relocated_with_data_def by blast
    from p(2) have i: "''LAD'' \<in> set (lahman_ids (snd p))"
      using lineage_has_data_const [of mk "''LAD''" even "snd p", OF fr ne(2)] by simp
    with p(1) FranchiseMapper_LAD_only have m: "year ` set (relocations (snd p)) = {1958}"
      by blast
    have "pre_seasons (snd p) (map mk even) = 10" "post_seasons (snd p) (map mk even) = 10"
      using seasons_const [of mk "''LAD''" "snd p" 1958 even, OF fr yr i m] n10 m10 by simp_all
    with p(3) show False by simp
  qed
  from conjunct1 [OF statistical_sufficiency_check [OF cs, of F]] below
  have "\<exists>f. check_data_completeness \<lparr>columns = cols, rows = map mk short\<rparr> F = Inr [f] \<and>
      status f = ''warning''"
    by (auto simp del: list.map)
  then obtain f where
    f: "check_data_completeness \<lparr>columns = cols, rows = map mk short\<rparr> F = Inr [f] \<and>
      status f = ''warning''" ..
  from conjunct1 [OF statistical_sufficiency_check [OF ce, of F]] clear
  have "\<exists>f. check_data_completeness \<lparr>columns = cols, rows = map mk even\<rparr> F = Inr [f] \<and>
      status f = ''pass''"
    by (auto simp del: list.map)
  then obtain g where
    g: "check_data_completeness \<lparr>columns = cols, rows = map mk even\<rparr> F = Inr [g] \<and>
      status g = ''pass''" ..
  show ?thesis
    unfolding cols_def [symmetric] mk_def [symmetric] short_def [symmetric] even_def [symmetric]
    by (rule conjI, rule c, rule conjI, rule exI [of _ F], rule exI [of _ f], rule conjI,
        rule init, rule f, rule exI [of _ F], rule exI [of _ g], rule conjI,
        rule init, rule g)
qed


section \<open>Properties of the effect size\<close>

lemma fadd_commute: "fadd a b = fadd b a"
  by (cases a; cases b) simp_all

lemma fsub_swap: "fsub a b = fneg (fsub b a)"
  by (cases a; cases b) (simp_all add: fsub_def)

lemma fdiv_fneg: "fdiv (fneg a) s = fneg (fdiv a s)"
  by (cases a; cases s) simp_all

lemma fabs_fneg: "fabs (fneg a) = fabs a"
  by (cases a) simp_all

lemma pooled_std_commute: "pooled_std a b = pooled_std b a"
  by (simp add: pooled_std_def fadd_commute [of "fmul (Fin (real (length a) - 1)) (var a)"]
      add.commute)

lemma cohens_d_swap: "cohens_d post pre = fneg (cohens_d pre post)"
proof -
  have "cohens_d post pre = fdiv (fneg (fsub (mean post) (mean pre))) (pooled_std pre post)"
    unfolding cohens_d_def pooled_std_commute [of post pre]
    by (subst fsub_swap) (rule refl)
  then show ?thesis by (simp add: fdiv_fneg cohens_d_def)
qed

lemma effect_magnitude_fneg: "effect_magnitude (fneg d) = effect_magnitude d"
  by (simp add: effect_magnitude_def fabs_fneg)

lemma effect_magnitude_Fin:
  "effect_magnitude (Fin x) =
     (if \<bar>x\<bar> < 0.2 then ''negligible'' else if \<bar>x\<bar> < 0.5 then ''small''
      else if \<bar>x\<bar> < 0.8 then ''medium'' else ''large'')"
  by (simp add: effect_magnitude_def fge_def)

text \<open>A sum of floats is finite only if every summand is.\<close>

lemma foldl_fadd_NaN: "foldl fadd NaN xs = NaN"
  by (induction xs) simp_all

lemma foldl_fadd_Fin:
  "foldl fadd a xs = Fin s \<Longrightarrow> (\<exists>r. a = Fin r) \<and> (\<forall>x \<in> set xs. \<exists>r. x = Fin r)"
proof (induction xs arbitrary: a)
  case Nil
  then show ?case by simp
next
  case (Cons x xs)
  from Cons.prems have "foldl fadd (fadd a x) xs = Fin s" by simp
  from Cons.IH [OF this] obtain r where r: "fadd a x = Fin r"
    and rest: "\<forall>x \<in> set xs. \<exists>r. x = Fin r"
    by blast
  from r have "(\<exists>r. a = Fin r) \<and> (\<exists>r. x = Fin r)"
    by (cases a; cases x) simp_all
  with rest show ?case by simp
qed

lemma foldl_fadd_all_Fin:
  "\<forall>x \<in> set xs. \<exists>r. x = Fin r \<Longrightarrow> \<exists>s. foldl fadd (Fin a) xs = Fin s"
proof (induction xs arbitrary: a)
  case Nil
  show ?case by simp
next
  case (Cons x xs)
  from Cons.prems obtain r where "x = Fin r" by auto
  with Cons show ?case by simp
qed

lemma foldl_fadd_mem_NaN: "NaN \<in> set xs \<Longrightarrow> foldl fadd a xs = NaN"
proof (induction xs arbitrary: a)
  case Nil
  then show ?case by simp
next
  case (Cons x xs)
  show ?case
  proof (cases "x = NaN")
    case True
    have "fadd a NaN = NaN" by (cases a) simp_all
    with True show ?thesis by (simp add: foldl_fadd_NaN)
  next
    case False
    with Cons show ?thesis by simp
  qed
qed

lemma foldl_fadd_PInf: "foldl fadd a xs = PInf \<Longrightarrow> a = PInf \<or> PInf \<in> set xs"
proof (induction xs arbitrary: a)
  case Nil
  then show ?case by simp
next
  case (Cons x xs)
  from Cons.prems have "foldl fadd (fadd a x) xs = PInf" by simp
  from Cons.IH [OF this] have "fadd a x = PInf \<or> PInf \<in> set xs" .
  moreover have "a = PInf \<or> x = PInf" if "fadd a x = PInf"
    using that by (cases a; cases x) simp_all
  ultimately show ?case by auto
qed

lemma foldl_fadd_NInf: "foldl fadd a xs = NInf \<Longrightarrow> a = NInf \<or> NInf \<in> set xs"
proof (induction xs arbitrary: a)
  case Nil
  then show ?case by simp
next
  case (Cons x xs)
  from Cons.prems have "foldl fadd (fadd a x) xs = NInf" by simp
  from Cons.IH [OF this] have "fadd a x = NInf \<or> NInf \<in> set xs" .
  moreover have "a = NInf \<or> x = NInf" if "fadd a x = NInf"
    using that by (cases a; cases x) simp_all
  ultimately show ?case by auto
qed


lemma fsum_all_Fin: "\<forall>x \<in> set xs. \<exists>r. x = Fin r \<Longrightarrow> \<exists>s. fsum xs = Fin s"
  unfolding fsum_def by (rule foldl_fadd_all_Fin)

lemma fsum_mem_NaN: "NaN \<in> set xs \<Longrightarrow> fsum xs = NaN"
  unfolding fsum_def by (rule foldl_fadd_mem_NaN)

lemma squares_NaN:
  assumes "v \<noteq> []" "m = NaN \<or> (m = PInf \<and> PInf \<in> set v) \<or> (m = NInf \<and> NInf \<in> set v)"
  shows "fsum (map (\<lambda>x. fmul (fsub x m) (fsub x m)) v) = NaN"
proof -
  have "\<exists>x \<in> set v. fmul (fsub x m) (fsub x m) = NaN"
    using assms(2)
  proof (elim disjE conjE)
    assume m: "m = NaN"
    from assms(1) obtain x where x: "x \<in> set v" by (cases v) auto
    have sub: "fsub y NaN = NaN" for y by (cases y) (simp_all add: fsub_def)
    from x m show ?thesis by (auto simp: sub)
  next
    assume "m = PInf" "PInf \<in> set v"
    moreover have "fmul (fsub PInf PInf) (fsub PInf PInf) = NaN" by (simp add: fsub_def)
    ultimately show ?thesis by blast
  next
    assume "m = NInf" "NInf \<in> set v"
    moreover have "fmul (fsub NInf NInf) (fsub NInf NInf) = NaN" by (simp add: fsub_def)
    ultimately show ?thesis by blast
  qed
  then have "NaN \<in> set (map (\<lambda>x. fmul (fsub x m) (fsub x m)) v)" by force
  then show ?thesis by (rule fsum_mem_NaN)
qed

lemma var_cases:
  "var xs = NaN \<or>
   (\<exists>q. var xs = Fin q \<and> 2 \<le> length (dropna xs) \<and> (\<forall>x \<in> set (dropna xs). \<exists>r. x = Fin r))"
proof (cases "length (dropna xs) \<le> 1")
  case True
  then show ?thesis by (simp add: var_def Let_def)
next
  case False
  define v where "v = dropna xs"
  define n where "n = length v"
  define m where "m = fdiv (fsum v) (Fin (real n))"
  from False have n: "2 \<le> n" and ne: "v \<noteq> []" by (auto simp: v_def n_def)
  have var: "var xs = fdiv (fsum (map (\<lambda>x. fmul (fsub x m) (fsub x m)) v)) (Fin (real (n - 1)))"
    using False by (simp add: var_def Let_def v_def n_def m_def)
  show ?thesis
  proof (cases "\<forall>x \<in> set v. \<exists>r. x = Fin r")
    case True
    from fsum_all_Fin [OF this] obtain s where s: "fsum v = Fin s" by blast
    with n have m: "m = Fin (s / real n)" by (simp add: m_def)
    have "\<forall>y \<in> set (map (\<lambda>x. fmul (fsub x m) (fsub x m)) v). \<exists>r. y = Fin r"
      using True by (auto simp: m fsub_def)
    from fsum_all_Fin [OF this] obtain t where
      "fsum (map (\<lambda>x. fmul (fsub x m) (fsub x m)) v) = Fin t"
      by blast
    with n have "var xs = Fin (t / real (n - 1))" by (simp add: var)
    with True n show ?thesis by (simp add: v_def n_def)
  next
    case False
    have nf: "\<not> (\<exists>s. fsum v = Fin s)"
    proof
      assume "\<exists>s. fsum v = Fin s"
      then obtain s where "foldl fadd (Fin 0) v = Fin s" by (auto simp: fsum_def)
      from foldl_fadd_Fin [OF this] False show False by blast
    qed
    have "m = NaN \<or> (m = PInf \<and> PInf \<in> set v) \<or> (m = NInf \<and> NInf \<in> set v)"
    proof (cases "fsum v")
      case (Fin s)
      with nf show ?thesis by blast
    next
      case PInf
      then have "PInf \<in> set v" using foldl_fadd_PInf [of "Fin 0" v] by (simp add: fsum_def)
      with PInf show ?thesis by (simp add: m_def)
    next
      case NInf
      then have "NInf \<in> set v" using foldl_fadd_NInf [of "Fin 0" v] by (simp add: fsum_def)
      with NInf show ?thesis by (simp add: m_def)
    next
      case NaN
      then show ?thesis by (simp add: m_def)
    qed
    from squares_NaN [OF ne this] show ?thesis by (simp add: var)
  qed
qed

lemma mean_Fin:
  assumes "dropna xs \<noteq> []" "\<forall>x \<in> set (dropna xs). \<exists>r. x = Fin r"
  shows "\<exists>q. mean xs = Fin q"
proof -
  from fsum_all_Fin [OF assms(2)] obtain s where "fsum (dropna xs) = Fin s" by blast
  with assms(1) show ?thesis by (simp add: mean_def Let_def)
qed

lemma length_dropna: "length (dropna xs) \<le> length xs"
  by (simp add: dropna_def)

text \<open>
  A positive pooled standard deviation is a finite number, and so are then the two means.
\<close>

lemma pooled_std_positive:
  assumes "fgt (pooled_std pre post) (Fin 0)"
  shows "\<exists>s p q. pooled_std pre post = Fin s \<and> 0 < s \<and> mean pre = Fin p \<and> mean post = Fin q"
proof -
  have nn: "pooled_std pre post \<noteq> NaN" using assms by (auto simp: fgt_def)
  have vp: "var pre \<noteq> NaN"
  proof
    assume "var pre = NaN"
    then have "pooled_std pre post = NaN" by (simp add: pooled_std_def)
    with nn show False by simp
  qed
  have vq: "var post \<noteq> NaN"
  proof
    assume "var post = NaN"
    moreover have "fadd a NaN = NaN" for a by (cases a) simp_all
    ultimately have "pooled_std pre post = NaN" by (simp add: pooled_std_def)
    with nn show False by simp
  qed
  from var_cases [of pre] vp obtain a where
    a: "var pre = Fin a" "2 \<le> length (dropna pre)" "\<forall>x \<in> set (dropna pre). \<exists>r. x = Fin r"
    by blast
  from var_cases [of post] vq obtain b where
    b: "var post = Fin b" "2 \<le> length (dropna post)" "\<forall>x \<in> set (dropna post). \<exists>r. x = Fin r"
    by blast
  from a(2) b(2) length_dropna [of pre] length_dropna [of post]
  have len: "2 \<le> length pre" "2 \<le> length post" by linarith+
  then have pos: "real (length pre) + real (length post) - 2 \<noteq> 0" by simp
  from a(2) b(2) have "dropna pre \<noteq> []" "dropna post \<noteq> []" by auto
  with mean_Fin a(3) b(3) obtain p q where pq: "mean pre = Fin p" "mean post = Fin q"
    by blast
  define t where "t = ((real (length pre) - 1) * a + (real (length post) - 1) * b) /
      (real (length pre) + real (length post) - 2)"
  have ps: "pooled_std pre post = (if t < 0 then NaN else Fin (sqrt t))"
    using pos by (simp add: pooled_std_def a(1) b(1) t_def)
  with assms have "\<not> t < 0" "0 < sqrt t" by (auto simp: fgt_def split: if_splits)
  with ps pq show ?thesis by auto
qed


text \<open>
  C9. For non-empty pre and post samples whose pooled standard deviation is positive, the
  two means and the pooled standard deviation are finite numbers, the effect size is
  the number (post mean - pre mean) / pooled standard deviation, and the effect size of
  the swapped samples is its negation; both have the same absolute value and the same
  magnitude band, which is negligible below 0.2, small below 0.5, medium below 0.8 and
  large from 0.8 on, in absolute value.
\<close>

theorem effect_size_symmetry:
  assumes "pre \<noteq> []" "post \<noteq> []" "fgt (pooled_std pre post) (Fin 0)"
  shows "\<exists>x p q s.
      mean pre = Fin p \<and> mean post = Fin q \<and> pooled_std pre post = Fin s \<and> 0 < s \<and>
      x = (q - p) / s \<and>
      cohens_d pre post = Fin x \<and> cohens_d post pre = Fin (- x) \<and>
      fabs (cohens_d post pre) = fabs (cohens_d pre post) \<and>
      effect_size_entries pre post =
        [(''effect_size'', FloatCell (Fin x)),
         (''effect_magnitude'', StrCell (Some
            (if \<bar>x\<bar> < 0.2 then ''negligible'' else if \<bar>x\<bar> < 0.5 then ''small''
             else if \<bar>x\<bar> < 0.8 then ''medium'' else ''large'')))] \<and>
      effect_size_entries post pre =
        [(''effect_size'', FloatCell (Fin (- x))),
         (''effect_magnitude'', StrCell (Some
            (if \<bar>x\<bar> < 0.2 then ''negligible'' else if \<bar>x\<bar> < 0.5 then ''small''
             else if \<bar>x\<bar> < 0.8 then ''medium'' else ''large'')))]"
proof -
  from pooled_std_positive [OF assms(3)] obtain s p q where
    h: "pooled_std pre post = Fin s" "0 < s" "mean pre = Fin p" "mean post = Fin q"
    by blast
  define x where "x = (q - p) / s"
  have d: "cohens_d pre post = Fin x"
    using h by (simp add: cohens_d_def fsub_def x_def)
  have d': "cohens_d post pre = Fin (- x)"
    unfolding cohens_d_swap [of post pre] d by simp
  have g: "fgt (pooled_std post pre) (Fin 0)"
    using assms(3) by (simp add: pooled_std_commute [of post pre])
  have e: "effect_size_entries pre post =
        [(''effect_size'', FloatCell (Fin x)),
         (''effect_magnitude'', StrCell (Some
            (if \<bar>x\<bar> < 0.2 then ''negligible'' else if \<bar>x\<bar> < 0.5 then ''small''
             else if \<bar>x\<bar> < 0.8 then ''medium'' else ''large'')))]"
    unfolding effect_size_entries_def d effect_magnitude_Fin using assms by simp
  have e': "effect_size_entries post pre =
        [(''effect_size'', FloatCell (Fin (- x))),
         (''effect_magnitude'', StrCell (Some
            (if \<bar>x\<bar> < 0.2 then ''negligible'' else if \<bar>x\<bar> < 0.5 then ''small''
             else if \<bar>x\<bar> < 0.8 then ''medium'' else ''large'')))]"
    unfolding effect_size_entries_def d' effect_magnitude_Fin using assms(1,2) g by simp
  have a: "fabs (cohens_d post pre) = fabs (cohens_d pre post)"
    by (simp add: d d')
  from h d d' a e e' x_def show ?thesis by blast
qed

lemma sqrt_hundredth: "sqrt (1 / 100) = 1 / 10"
  by (rule real_sqrt_unique) (simp_all add: power2_eq_square)

lemma example_samples:
  "mean [Fin 0.4, Fin 0.5, Fin 0.6] = Fin 0.5"
  "mean [Fin 0.5, Fin 0.6, Fin 0.7] = Fin 0.6"
  "var [Fin 0.4, Fin 0.5, Fin 0.6] = Fin 0.01"
  "var [Fin 0.5, Fin 0.6, Fin 0.7] = Fin 0.01"
  by (simp_all add: mean_def var_def dropna_def fsum_def fsub_def Let_def)

lemma example_pooled_std:
  "pooled_std [Fin 0.4, Fin 0.5, Fin 0.6] [Fin 0.5, Fin 0.6, Fin 0.7] = Fin 0.1"
  "pooled_std [Fin 0.5, Fin 0.6, Fin 0.7] [Fin 0.4, Fin 0.5, Fin 0.6] = Fin 0.1"
  unfolding pooled_std_def example_samples using sqrt_hundredth by simp_all

theorem effect_size_symmetry_witness:
  "[Fin 0.4, Fin 0.5, Fin 0.6] \<noteq> [] \<and> [Fin 0.5, Fin 0.6, Fin 0.7] \<noteq> [] \<and>
   fgt (pooled_std [Fin 0.4, Fin 0.5, Fin 0.6] [Fin 0.5, Fin 0.6, Fin 0.7]) (Fin 0) \<and>
   cohens_d [Fin 0.4, Fin 0.5, Fin 0.6] [Fin 0.5, Fin 0.6, Fin 0.7] = Fin 1 \<and>
   cohens_d [Fin 0.5, Fin 0.6, Fin 0.7] [Fin 0.4, Fin 0.5, Fin 0.6] = Fin (- 1) \<and>
   effect_size_entries [Fin 0.4, Fin 0.5, Fin 0.6] [Fin 0.5, Fin 0.6, Fin 0.7] =
     [(''effect_size'', FloatCell (Fin 1)), (''effect_magnitude'', StrCell (Some ''large''))] \<and>
   effect_size_entries [Fin 0.5, Fin 0.6, Fin 0.7] [Fin 0.4, Fin 0.5, Fin 0.6] =
     [(''effect_size'', FloatCell (Fin (- 1))), (''effect_magnitude'', StrCell (Some ''large''))]"
proof -
  let ?pre = "[Fin 0.4, Fin 0.5, Fin 0.6]" and ?post = "[Fin 0.5, Fin 0.6, Fin 0.7]"
  have n: "?pre \<noteq> []" "?post \<noteq> []" by simp_all
  have g: "fgt (pooled_std ?pre ?post) (Fin 0)"
    unfolding example_pooled_std by (simp add: fgt_def)
  from effect_size_symmetry [OF n g] obtain x p q s where
    h: "mean ?pre = Fin p" "mean ?post = Fin q" "pooled_std ?pre ?post = Fin s"
      "x = (q - p) / s"
      "cohens_d ?pre ?post = Fin x" "cohens_d ?post ?pre = Fin (- x)"
      "effect_size_entries ?pre ?post =
        [(''effect_size'', FloatCell (Fin x)),
         (''effect_magnitude'', StrCell (Some
            (if \<bar>x\<bar> < 0.2 then ''negligible'' else if \<bar>x\<bar> < 0.5 then ''small''
             else if \<bar>x\<bar> < 0.8 then ''medium'' else ''large'')))]"
      "effect_size_entries ?post ?pre =
        [(''effect_size'', FloatCell (Fin (- x))),
         (''effect_magnitude'', StrCell (Some
            (if \<bar>x\<bar> < 0.2 then ''negligible'' else if \<bar>x\<bar> < 0.5 then ''small''
             else if \<bar>x\<bar> < 0.8 then ''medium'' else ''large'')))]"
    by blast
  from h(1-4) have x: "x = 1" unfolding example_samples example_pooled_std by simp
  from n g h(5-8) show ?thesis unfolding x by simp
qed




end
